(* ===== verification/Prelude.thy ===== *)
theory Prelude
  imports Main "HOL-Library.Word"
begin

text \<open>
  Shared vocabulary of the development: the machine integers and byte strings of the Rust
  sources, the results of fallible code (\<open>Result\<close>, early returns and panics), state-passing
  actions that can fail, the checked, saturating and truncating integer operations the
  sources call, little- and big-endian byte encodings, slices and array copies.
  The collection \<open>act_simps\<close> holds the equations that run an action, \<open>word_ops\<close>
  the definitions of the integer operations.
\<close>

named_theorems act_simps \<open>equations that evaluate state-passing actions\<close>
named_theorems word_ops \<open>definitions of the integer operations of the Rust sources\<close>

section \<open>Machine types\<close>

type_synonym u8 = "8 word"
type_synonym u32 = "32 word"
type_synonym u64 = "64 word"
type_synonym u128 = "128 word"
type_synonym u256 = "256 word"
type_synonym h160 = "160 word"
type_synonym h256 = "256 word"
type_synonym bytes = "u8 list"

section \<open>Results: values, errors and panics\<close>

text \<open>
  \<open>Ok\<close> and \<open>Err\<close> are the constructors of Rust's \<open>Result\<close>; \<open>Panic\<close> is the
  outcome of \<open>unwrap\<close>, \<open>expect\<close>, an out-of-range slice or an overflowing checked
  operator.
\<close>

datatype ('e, 'a) res = Ok 'a | Err 'e | Panic

fun res_bind :: "('e, 'a) res \<Rightarrow> ('a \<Rightarrow> ('e, 'b) res) \<Rightarrow> ('e, 'b) res" where
  "res_bind (Ok a) f = f a"
| "res_bind (Err e) f = Err e"
| "res_bind Panic f = Panic"

fun map_ok :: "('a \<Rightarrow> 'b) \<Rightarrow> ('e, 'a) res \<Rightarrow> ('e, 'b) res" where
  "map_ok f (Ok a) = Ok (f a)"
| "map_ok f (Err e) = Err e"
| "map_ok f Panic = Panic"

fun map_err :: "('e \<Rightarrow> 'f) \<Rightarrow> ('e, 'a) res \<Rightarrow> ('f, 'a) res" where
  "map_err f (Ok a) = Ok a"
| "map_err f (Err e) = Err (f e)"
| "map_err f Panic = Panic"

fun ok_or :: "'a option \<Rightarrow> 'e \<Rightarrow> ('e, 'a) res" where
  "ok_or None e = Err e"
| "ok_or (Some a) e = Ok a"

fun is_err :: "('e, 'a) res \<Rightarrow> bool" where
  "is_err (Err e) = True"
| "is_err (Ok a) = False"
| "is_err Panic = False"

fun unwrap :: "'a option \<Rightarrow> ('e, 'a) res" where
  "unwrap None = Panic"
| "unwrap (Some a) = Ok a"

lemma res_bind_eq_Ok [simp]:
  "res_bind r f = Ok b \<longleftrightarrow> (\<exists>a. r = Ok a \<and> f a = Ok b)"
  by (cases r) auto

lemma res_bind_eq_Err:
  "res_bind r f = Err e \<longleftrightarrow> r = Err e \<or> (\<exists>a. r = Ok a \<and> f a = Err e)"
  by (cases r) auto

lemma res_bind_eq_Panic:
  "res_bind r f = Panic \<longleftrightarrow> r = Panic \<or> (\<exists>a. r = Ok a \<and> f a = Panic)"
  by (cases r) auto

lemma map_ok_eq_Ok [simp]: "map_ok f r = Ok b \<longleftrightarrow> (\<exists>a. r = Ok a \<and> b = f a)"
  by (cases r) auto

lemma ok_or_eq_Ok [simp]: "ok_or x e = Ok a \<longleftrightarrow> x = Some a"
  by (cases x) auto

lemma ok_or_eq_Err [simp]: "ok_or x e = Err e' \<longleftrightarrow> x = None \<and> e' = e"
  by (cases x) auto

lemma ok_or_not_Panic [simp]: "ok_or x e \<noteq> Panic"
  by (cases x) auto

section \<open>State-passing actions\<close>

text \<open>
  An action takes the state and returns its result and the state it leaves. A failing action
  keeps the writes made before the failure: dispatchables are not transactional.
\<close>

type_synonym ('s, 'e, 'a) act = "'s \<Rightarrow> ('e, 'a) res \<times> 's"

definition act_return :: "'a \<Rightarrow> ('s, 'e, 'a) act" where
  [act_simps]: "act_return a = (\<lambda>s. (Ok a, s))"

definition act_fail :: "'e \<Rightarrow> ('s, 'e, 'a) act" where
  [act_simps]: "act_fail e = (\<lambda>s. (Err e, s))"

definition act_panic :: "('s, 'e, 'a) act" where
  [act_simps]: "act_panic = (\<lambda>s. (Panic, s))"

definition act_lift :: "('e, 'a) res \<Rightarrow> ('s, 'e, 'a) act" where
  [act_simps]: "act_lift r = (\<lambda>s. (r, s))"

definition act_get :: "('s \<Rightarrow> 'a) \<Rightarrow> ('s, 'e, 'a) act" where
  [act_simps]: "act_get f = (\<lambda>s. (Ok (f s), s))"

definition act_modify :: "('s \<Rightarrow> 's) \<Rightarrow> ('s, 'e, unit) act" where
  [act_simps]: "act_modify f = (\<lambda>s. (Ok (), f s))"

definition act_bind ::
  "('s, 'e, 'a) act \<Rightarrow> ('a \<Rightarrow> ('s, 'e, 'b) act) \<Rightarrow> ('s, 'e, 'b) act" where
  "act_bind m f = (\<lambda>s. case m s of
      (Ok a, s') \<Rightarrow> f a s'
    | (Err e, s') \<Rightarrow> (Err e, s')
    | (Panic, s') \<Rightarrow> (Panic, s'))"

definition ensure :: "bool \<Rightarrow> 'e \<Rightarrow> ('s, 'e, unit) act" where
  "ensure b e = (if b then act_return () else act_fail e)"

lemma act_bind_Ok [act_simps]: "m s = (Ok a, s') \<Longrightarrow> act_bind m f s = f a s'"
  by (simp add: act_bind_def)

lemma act_bind_Err [act_simps]: "m s = (Err e, s') \<Longrightarrow> act_bind m f s = (Err e, s')"
  by (simp add: act_bind_def)

lemma act_bind_Panic [act_simps]: "m s = (Panic, s') \<Longrightarrow> act_bind m f s = (Panic, s')"
  by (simp add: act_bind_def)

lemma ensure_True [act_simps]: "b \<Longrightarrow> ensure b e s = (Ok (), s)"
  by (simp add: ensure_def act_return_def)

lemma ensure_False [act_simps]: "\<not> b \<Longrightarrow> ensure b e s = (Err e, s)"
  by (simp add: ensure_def act_fail_def)

lemma act_bind_eq_Ok:
  "act_bind m f s = (Ok b, t) \<longleftrightarrow> (\<exists>a s'. m s = (Ok a, s') \<and> f a s' = (Ok b, t))"
  by (auto simp: act_bind_def split: prod.splits res.splits)

lemma act_bind_eq_Panic:
  "act_bind m f s = (Panic, t) \<longleftrightarrow>
     m s = (Panic, t) \<or> (\<exists>a s'. m s = (Ok a, s') \<and> f a s' = (Panic, t))"
  by (auto simp: act_bind_def split: prod.splits res.splits)

section \<open>Integer operations\<close>

definition checked_add :: "'n::len word \<Rightarrow> 'n word \<Rightarrow> 'n word option" where
  [word_ops]: "checked_add a b =
     (if unat a + unat b < 2 ^ LENGTH('n) then Some (a + b) else None)"

definition checked_mul :: "'n::len word \<Rightarrow> 'n word \<Rightarrow> 'n word option" where
  [word_ops]: "checked_mul a b =
     (if unat a * unat b < 2 ^ LENGTH('n) then Some (a * b) else None)"

definition checked_sub :: "'n::len word \<Rightarrow> 'n word \<Rightarrow> 'n word option" where
  [word_ops]: "checked_sub a b = (if b \<le> a then Some (a - b) else None)"

definition saturating_add :: "'n::len word \<Rightarrow> 'n word \<Rightarrow> 'n word" where
  [word_ops]: "saturating_add a b =
     (if unat a + unat b < 2 ^ LENGTH('n) then a + b else - 1)"

definition saturating_mul :: "'n::len word \<Rightarrow> 'n word \<Rightarrow> 'n word" where
  [word_ops]: "saturating_mul a b =
     (if unat a * unat b < 2 ^ LENGTH('n) then a * b else - 1)"

definition saturating_sub :: "'n::len word \<Rightarrow> 'n word \<Rightarrow> 'n word" where
  [word_ops]: "saturating_sub a b = (if b \<le> a then a - b else 0)"

definition saturated_into :: "'m::len word \<Rightarrow> 'n::len word" where
  [word_ops]: "saturated_into x = (if unat x < 2 ^ LENGTH('n) then ucast x else - 1)"

definition low_u64 :: "u256 \<Rightarrow> u64" where
  [word_ops]: "low_u64 x = ucast x"

definition low_u128 :: "u256 \<Rightarrow> u128" where
  [word_ops]: "low_u128 x = ucast x"

lemma unat_bound: "unat (x :: 'n::len word) < 2 ^ LENGTH('n)"
  by (rule unsigned_less)

lemma unat_max: "unat (- 1 :: 'n::len word) = 2 ^ LENGTH('n) - 1"
  by (simp add: unsigned_minus_1_eq_mask mask_eq_exp_minus_1)

lemma unat_ucast_id:
  "unat (x :: 'm::len word) < 2 ^ LENGTH('n::len) \<Longrightarrow> unat (ucast x :: 'n word) = unat x"
  by (simp add: unsigned_ucast_eq take_bit_nat_eq_self)

lemma checked_add_Some:
  "checked_add a b = Some c \<longleftrightarrow> unat c = unat a + unat b"
  for a b c :: "'n::len word"
proof
  show "checked_add a b = Some c \<Longrightarrow> unat c = unat a + unat b"
    by (auto simp: word_ops unat_word_ariths split: if_splits)
next
  assume "unat c = unat a + unat b"
  then show "checked_add a b = Some c"
    using unat_bound [of c] by (simp add: word_ops word_unat_eq_iff unat_word_ariths)
qed

lemma checked_mul_Some:
  "checked_mul a b = Some c \<longleftrightarrow> unat c = unat a * unat b"
  for a b c :: "'n::len word"
proof
  show "checked_mul a b = Some c \<Longrightarrow> unat c = unat a * unat b"
    by (auto simp: word_ops unat_word_ariths split: if_splits)
next
  assume "unat c = unat a * unat b"
  then show "checked_mul a b = Some c"
    using unat_bound [of c] by (simp add: word_ops word_unat_eq_iff unat_word_ariths)
qed

lemma checked_add_None:
  "checked_add a b = None \<longleftrightarrow> 2 ^ LENGTH('n) \<le> unat a + unat b"
  for a b :: "'n::len word"
  by (simp add: word_ops)

lemma checked_mul_None:
  "checked_mul a b = None \<longleftrightarrow> 2 ^ LENGTH('n) \<le> unat a * unat b"
  for a b :: "'n::len word"
  by (simp add: word_ops)

lemma unat_saturating_add:
  "unat (saturating_add a b) = min (unat a + unat b) (2 ^ LENGTH('n) - 1)"
  for a b :: "'n::len word"
  by (simp add: word_ops unat_word_ariths unat_max)

lemma unat_saturating_mul:
  "unat (saturating_mul a b) = min (unat a * unat b) (2 ^ LENGTH('n) - 1)"
  for a b :: "'n::len word"
  by (simp add: word_ops unat_word_ariths unat_max)

lemma unat_saturating_sub: "unat (saturating_sub a b) = unat a - unat b"
  for a b :: "'n::len word"
  by (simp add: word_ops unat_sub word_le_nat_alt)

lemma unat_saturated_into:
  "unat (saturated_into x :: 'n::len word) = min (unat x) (2 ^ LENGTH('n) - 1)"
  for x :: "'m::len word"
  by (simp add: word_ops unat_ucast_id unat_max)

lemma unat_low_u64: "unat (low_u64 x) = unat x mod 2 ^ 64"
  by (simp add: word_ops unsigned_ucast_eq take_bit_eq_mod)

lemma unat_low_u128: "unat (low_u128 x) = unat x mod 2 ^ 128"
  by (simp add: word_ops unsigned_ucast_eq take_bit_eq_mod)

section \<open>Byte strings\<close>

text \<open>Little- and big-endian encodings of a number in a fixed count of bytes.\<close>

fun le_bytes :: "nat \<Rightarrow> nat \<Rightarrow> bytes" where
  "le_bytes 0 n = []"
| "le_bytes (Suc k) n = word_of_nat n # le_bytes k (n div 256)"

fun le_val :: "bytes \<Rightarrow> nat" where
  "le_val [] = 0"
| "le_val (b # bs) = unat b + 256 * le_val bs"

definition be_bytes :: "nat \<Rightarrow> nat \<Rightarrow> bytes" where
  "be_bytes k n = rev (le_bytes k n)"

definition be_val :: "bytes \<Rightarrow> nat" where
  "be_val bs = le_val (rev bs)"

lemma length_le_bytes [simp]: "length (le_bytes k n) = k"
  by (induction k arbitrary: n) auto

lemma length_be_bytes [simp]: "length (be_bytes k n) = k"
  by (simp add: be_bytes_def)

lemma le_val_bytes: "le_val (le_bytes k n) = n mod 256 ^ k"
proof (induction k arbitrary: n)
  case (Suc k)
  then show ?case
    by (simp add: unat_of_nat mod_mult2_eq)
qed simp

lemma be_val_bytes: "be_val (be_bytes k n) = n mod 256 ^ k"
  by (simp add: be_val_def be_bytes_def le_val_bytes)

lemma le_val_bound: "le_val bs < 256 ^ length bs"
proof (induction bs)
  case (Cons b bs)
  have "unat b < 256" using unat_bound [of b] by simp
  then show ?case using Cons by simp
qed simp

lemma be_val_bound: "be_val bs < 256 ^ length bs"
  using le_val_bound [of "rev bs"] by (simp add: be_val_def)

lemma le_bytes_val: "le_bytes (length bs) (le_val bs) = bs"
proof (induction bs)
  case (Cons b bs)
  have b: "unat b < 256" using unat_bound [of b] by simp
  have z: "(256 :: u8) = 0" by (rule word_unat_eq_iff [THEN iffD2]) simp
  have "word_of_nat (unat b + 256 * le_val bs) = b + 256 * word_of_nat (le_val bs)"
    by simp
  then have "word_of_nat (unat b + 256 * le_val bs) = b" by (simp only: z) simp
  then show ?case using Cons b by simp
qed simp

lemma be_bytes_val: "be_bytes (length bs) (be_val bs) = bs"
  using le_bytes_val [of "rev bs"] by (simp add: be_bytes_def be_val_def)

definition h160_bytes :: "h160 \<Rightarrow> bytes" where
  "h160_bytes a = be_bytes 20 (unat a)"

definition h256_bytes :: "h256 \<Rightarrow> bytes" where
  "h256_bytes a = be_bytes 32 (unat a)"

definition h256_from_slice :: "bytes \<Rightarrow> h256" where
  "h256_from_slice bs = word_of_nat (be_val bs)"

text \<open>\<open>H160::from(H256)\<close> keeps the last 20 bytes.\<close>

definition h160_from_h256 :: "h256 \<Rightarrow> h160" where
  "h160_from_h256 h = ucast h"

lemma length_h160_bytes [simp]: "length (h160_bytes a) = 20"
  by (simp add: h160_bytes_def)

lemma length_h256_bytes [simp]: "length (h256_bytes a) = 32"
  by (simp add: h256_bytes_def)

lemma h256_from_slice_bytes [simp]: "h256_from_slice (h256_bytes a) = a"
  using unat_bound [of a]
  by (simp add: h256_from_slice_def h256_bytes_def be_val_bytes)

lemma h160_bytes_inj: "h160_bytes a = h160_bytes b \<longleftrightarrow> a = b"
proof
  assume "h160_bytes a = h160_bytes b"
  then have "be_val (be_bytes 20 (unat a)) = be_val (be_bytes 20 (unat b))"
    by (simp add: h160_bytes_def)
  then show "a = b"
    using unat_bound [of a] unat_bound [of b] by (simp add: be_val_bytes word_unat_eq_iff)
qed simp

text \<open>
  \<open>&bs[i..j]\<close>: a panic when the range is reversed or reaches past the end.
  \<open>copy_from_slice\<close> panics when the two lengths differ.
\<close>

definition slice :: "'a list \<Rightarrow> nat \<Rightarrow> nat \<Rightarrow> ('e, 'a list) res" where
  "slice xs i j = (if i \<le> j \<and> j \<le> length xs then Ok (take (j - i) (drop i xs)) else Panic)"

definition copy_from_slice :: "nat \<Rightarrow> 'a list \<Rightarrow> ('e, 'a list) res" where
  "copy_from_slice n src = (if length src = n then Ok src else Panic)"

definition index_at :: "'a list \<Rightarrow> nat \<Rightarrow> ('e, 'a) res" where
  "index_at xs i = (if i < length xs then Ok (xs ! i) else Panic)"

lemma slice_Ok [simp]:
  "i \<le> j \<Longrightarrow> j \<le> length xs \<Longrightarrow> slice xs i j = Ok (take (j - i) (drop i xs))"
  by (simp add: slice_def)

lemma slice_Panic: "\<not> (i \<le> j \<and> j \<le> length xs) \<Longrightarrow> slice xs i j = Panic"
  by (simp add: slice_def)

lemma slice_not_Err [simp]: "slice xs i j \<noteq> Err e"
  by (simp add: slice_def)

lemma index_at_Ok [simp]: "i < length xs \<Longrightarrow> index_at xs i = Ok (xs ! i)"
  by (simp add: index_at_def)

text \<open>\<open>dst[i..j].copy_from_slice(src)\<close>.\<close>

definition write_slice :: "'a list \<Rightarrow> nat \<Rightarrow> nat \<Rightarrow> 'a list \<Rightarrow> ('e, 'a list) res" where
  "write_slice dst i j src =
     (if i \<le> j \<and> j \<le> length dst \<and> length src = j - i
      then Ok (take i dst @ src @ drop j dst) else Panic)"

lemma write_slice_Ok [simp]:
  "i \<le> j \<Longrightarrow> j \<le> length dst \<Longrightarrow> length src = j - i \<Longrightarrow>
     write_slice dst i j src = Ok (take i dst @ src @ drop j dst)"
  by (simp add: write_slice_def)

lemma copy_from_slice_Ok [simp]: "length src = n \<Longrightarrow> copy_from_slice n src = Ok src"
  by (simp add: copy_from_slice_def)

text \<open>Leading zero bytes do not change a big-endian value.\<close>

lemma le_val_append: "le_val (xs @ ys) = le_val xs + 256 ^ length xs * le_val ys"
  by (induction xs) (auto simp: algebra_simps)

lemma be_val_Cons: "be_val (b # bs) = unat b * 256 ^ length bs + be_val bs"
  by (simp add: be_val_def le_val_append)

lemma be_val_zeros: "be_val (replicate n 0 @ bs) = be_val bs"
  by (induction n) (auto simp: be_val_Cons)

lemma be_bytes_pad:
  assumes "length bs \<le> k"
  shows "be_bytes k (be_val bs) = replicate (k - length bs) 0 @ bs"
  using be_bytes_val [of "replicate (k - length bs) 0 @ bs"] assms
  by (simp add: be_val_zeros)

lemma be_val_head_bound:
  assumes "bs \<noteq> []" and "hd bs \<noteq> 0"
  shows "256 ^ (length bs - 1) \<le> be_val bs"
proof -
  obtain b bs' where bs: "bs = b # bs'" using assms(1) by (cases bs) auto
  then have "1 \<le> unat b" using assms(2) by (simp add: unat_gt_0 Suc_le_eq)
  then have "256 ^ length bs' \<le> unat b * 256 ^ length bs'" by simp
  then have "256 ^ length bs' \<le> unat b * 256 ^ length bs' + be_val bs'" by (rule trans_le_add1)
  then show ?thesis by (simp add: bs be_val_Cons)
qed

end
