(* ===== verification/Eth_Types.thy ===== *)
theory Eth_Types
  imports Prelude
begin

text \<open>
  The data the pallets and the node exchange: Ethereum transactions, receipts, headers and
  blocks (the structs of the \<open>ethereum\<close> crate, with the fields the sources read and write),
  the exit reasons and logs of the \<open>evm\<close> crate, \<open>ExecutionInfo\<close> and
  \<open>CallOrCreateInfo\<close> of \<open>primitives/evm\<close>, \<open>TransactionStatus\<close> of
  \<open>primitives/rpc\<close>. The functions of the crates outside the repository (hashing, RLP,
  block assembly, bloom filters, signature recovery) are the fields of \<open>eth_lib\<close>, an
  argument of every definition that calls them.
\<close>

type_synonym bloom = "2048 word"

datatype transaction_action = Action_Call h160 | Action_Create

record signature =
  sig_v :: u64
  sig_r :: h256
  sig_s :: h256

record transaction =
  tx_nonce :: u256
  tx_gas_price :: u256
  tx_gas_limit :: u256
  tx_action :: transaction_action
  tx_value :: u256
  tx_input :: bytes
  tx_signature :: signature

record eth_log =
  log_address :: h160
  log_topics :: "h256 list"
  log_data :: bytes

record receipt =
  rc_state_root :: h256
  rc_used_gas :: u256
  rc_logs_bloom :: bloom
  rc_logs :: "eth_log list"

record partial_header =
  ph_parent_hash :: h256
  ph_beneficiary :: h160
  ph_state_root :: h256
  ph_receipts_root :: h256
  ph_logs_bloom :: bloom
  ph_difficulty :: u256
  ph_number :: u256
  ph_gas_limit :: u256
  ph_gas_used :: u256
  ph_timestamp :: u64
  ph_extra_data :: bytes
  ph_mix_hash :: h256
  ph_nonce :: u64

record header =
  hd_parent_hash :: h256
  hd_ommers_hash :: h256
  hd_beneficiary :: h160
  hd_state_root :: h256
  hd_transactions_root :: h256
  hd_receipts_root :: h256
  hd_logs_bloom :: bloom
  hd_difficulty :: u256
  hd_number :: u256
  hd_gas_limit :: u256
  hd_gas_used :: u256
  hd_timestamp :: u64
  hd_extra_data :: bytes
  hd_mix_hash :: h256
  hd_nonce :: u64

record block =
  bk_header :: header
  bk_transactions :: "transaction list"
  bk_ommers :: "header list"

text \<open>\<open>primitives/rpc\<close>: the status of a transaction of the current block.\<close>

record transaction_status =
  st_transaction_hash :: h256
  st_transaction_index :: u32
  st_from :: h160
  st_to :: "h160 option"
  st_contract_address :: "h160 option"
  st_logs :: "eth_log list"
  st_logs_bloom :: bloom

definition default_transaction_status :: transaction_status where
  "default_transaction_status = \<lparr>
     st_transaction_hash = 0,
     st_transaction_index = 0,
     st_from = 0,
     st_to = None,
     st_contract_address = None,
     st_logs = [],
     st_logs_bloom = 0\<rparr>"

text \<open>Exit reasons of the \<open>evm\<close> crate; the error kinds the sources construct are named.\<close>

datatype exit_succeed = Stopped | Returned | Suicided
datatype exit_error = OutOfGas | OutOfFund | OtherError string
datatype exit_reason = Succeed exit_succeed | Error exit_error | Revert | Fatal string

text \<open>\<open>primitives/evm\<close>: the outcome of an execution.\<close>

record 'a execution_info =
  ei_exit_reason :: exit_reason
  ei_value :: 'a
  ei_used_gas :: u256
  ei_logs :: "eth_log list"

type_synonym call_info = "bytes execution_info"
type_synonym create_info = "h160 execution_info"

datatype call_or_create_info = Info_Call call_info | Info_Create create_info

record vicinity =
  vc_gas_price :: u256
  vc_origin :: h160

record account =
  ac_nonce :: u256
  ac_balance :: u256

text \<open>
  Functions of the crates outside the repository. \<open>keccak256\<close> is \<open>Keccak256::digest\<close>;
  the \<open>rlp\<close> fields are \<open>rlp::encode\<close> and \<open>rlp::encode_list\<close>; \<open>header_hash\<close> is
  \<open>Header::hash\<close>; \<open>block_new\<close> is \<open>Block::new\<close>; \<open>bloom_accrue\<close> is
  \<open>Bloom::accrue\<close> on a raw input; \<open>message_hash\<close> is
  \<open>TransactionMessage::from(t).hash()\<close>; \<open>standard_v\<close> and \<open>chain_id_of_v\<close> read the
  recovery id; \<open>ecdsa_recover\<close> is \<open>sp_io::crypto::secp256k1_ecdsa_recover\<close>.
\<close>

record eth_lib =
  keccak256 :: "bytes \<Rightarrow> bytes"
  rlp_transaction :: "transaction \<Rightarrow> bytes"
  rlp_header :: "header \<Rightarrow> bytes"
  rlp_receipts :: "receipt list \<Rightarrow> bytes"
  header_hash :: "header \<Rightarrow> h256"
  block_new :: "partial_header \<Rightarrow> transaction list \<Rightarrow> header list \<Rightarrow> block"
  bloom_accrue :: "bytes \<Rightarrow> bloom \<Rightarrow> bloom"
  message_hash :: "transaction \<Rightarrow> h256"
  standard_v :: "u64 \<Rightarrow> u8"
  chain_id_of_v :: "u64 \<Rightarrow> u64 option"
  ecdsa_recover :: "bytes \<Rightarrow> bytes \<Rightarrow> bytes option"

definition transaction_hash :: "eth_lib \<Rightarrow> transaction \<Rightarrow> h256" where
  "transaction_hash L t = h256_from_slice (keccak256 L (rlp_transaction L t))"

text \<open>What \<open>Bloom::accrue\<close> documents: accruing sets the bits of one input and keeps the others.\<close>

definition bloom_lib_ok :: "eth_lib \<Rightarrow> (bytes \<Rightarrow> bloom) \<Rightarrow> bool" where
  "bloom_lib_ok L bits \<longleftrightarrow> (\<forall>b x. bloom_accrue L x b = or b (bits x))"

text \<open>What \<open>Block::new\<close> documents: it keeps the transactions and the fields of the header.\<close>

definition block_lib_ok :: "eth_lib \<Rightarrow> bool" where
  "block_lib_ok L \<longleftrightarrow> (\<forall>ph ts os.
     bk_transactions (block_new L ph ts os) = ts \<and>
     hd_parent_hash (bk_header (block_new L ph ts os)) = ph_parent_hash ph \<and>
     hd_number (bk_header (block_new L ph ts os)) = ph_number ph \<and>
     hd_gas_used (bk_header (block_new L ph ts os)) = ph_gas_used ph \<and>
     hd_logs_bloom (bk_header (block_new L ph ts os)) = ph_logs_bloom ph)"

end
