(* ===== verification/Consensus_Log.thy ===== *)
theory Consensus_Log
  imports Eth_Types
begin

text \<open>
  \<open>primitives/consensus/src/lib.rs\<close>: the Ethereum log a block header carries in its digest,
  and \<open>client/consensus/src/lib.rs\<close>: the block import that rejects a header without exactly
  one log. Digest items and their decoding (\<open>DigestItem::try_to\<close>, SCALE) belong to
  \<open>sp_runtime\<close>: they are the fields of \<open>digest_api\<close>. The four searches of the source are
  separate loops; the locale \<open>log_search\<close> states what they share, and is interpreted on
  each of them.
\<close>

section \<open>Logs\<close>

record hashes =
  hs_block_hash :: h256
  hs_transaction_hashes :: "h256 list"

datatype pre_log = PreLog_Block block
datatype post_log = PostLog_Hashes hashes | PostLog_Block block
datatype log = Log_Pre pre_log | Log_Post post_log

definition from_block :: "eth_lib \<Rightarrow> block \<Rightarrow> hashes" where
  "from_block L b =
     (let transaction_hashes = map (transaction_hash L) (bk_transactions b);
          block_hash = header_hash L (bk_header b)
      in \<lparr>hs_block_hash = block_hash, hs_transaction_hashes = transaction_hashes\<rparr>)"

fun into_hashes :: "eth_lib \<Rightarrow> log \<Rightarrow> hashes" where
  "into_hashes L (Log_Post (PostLog_Hashes post_hashes)) = post_hashes"
| "into_hashes L (Log_Post (PostLog_Block b)) = from_block L b"
| "into_hashes L (Log_Pre (PreLog_Block b)) = from_block L b"

section \<open>Searching a digest\<close>

text \<open>
  \<open>try_pre\<close> is \<open>try_to::<PreLog>(PreRuntime(&SHADOWS_ENGINE_ID))\<close>, \<open>try_post\<close> is
  \<open>try_to::<PostLog>(Consensus(&SHADOWS_ENGINE_ID))\<close>, \<open>post_item\<close> builds the item
  \<open>DigestItem::Consensus(SHADOWS_ENGINE_ID, log.encode())\<close>.
\<close>

record 'd digest_api =
  try_pre :: "'d \<Rightarrow> pre_log option"
  try_post :: "'d \<Rightarrow> post_log option"
  post_item :: "post_log \<Rightarrow> 'd"

definition digest_api_ok :: "'d digest_api \<Rightarrow> bool" where
  "digest_api_ok D \<longleftrightarrow>
     (\<forall>l. try_post D (post_item D l) = Some l \<and> try_pre D (post_item D l) = None)"

datatype find_log_error = NotFound | MultipleLogs

fun find_pre_log_loop ::
  "'d digest_api \<Rightarrow> 'd list \<Rightarrow> pre_log option \<Rightarrow> (find_log_error, pre_log) res" where
  "find_pre_log_loop D [] found = ok_or found NotFound"
| "find_pre_log_loop D (d # ds) found =
     (case (try_pre D d, found \<noteq> None) of
        (Some _, True) \<Rightarrow> Err MultipleLogs
      | (Some l, False) \<Rightarrow> find_pre_log_loop D ds (Some l)
      | (None, _) \<Rightarrow> find_pre_log_loop D ds found)"

definition find_pre_log :: "'d digest_api \<Rightarrow> 'd list \<Rightarrow> (find_log_error, pre_log) res" where
  "find_pre_log D ds = find_pre_log_loop D ds None"

fun find_post_log_loop ::
  "'d digest_api \<Rightarrow> 'd list \<Rightarrow> post_log option \<Rightarrow> (find_log_error, post_log) res" where
  "find_post_log_loop D [] found = ok_or found NotFound"
| "find_post_log_loop D (d # ds) found =
     (case (try_post D d, found \<noteq> None) of
        (Some _, True) \<Rightarrow> Err MultipleLogs
      | (Some l, False) \<Rightarrow> find_post_log_loop D ds (Some l)
      | (None, _) \<Rightarrow> find_post_log_loop D ds found)"

definition find_post_log :: "'d digest_api \<Rightarrow> 'd list \<Rightarrow> (find_log_error, post_log) res" where
  "find_post_log D ds = find_post_log_loop D ds None"

fun find_log_loop ::
  "'d digest_api \<Rightarrow> 'd list \<Rightarrow> log option \<Rightarrow> (find_log_error, log) res" where
  "find_log_loop D [] found = ok_or found NotFound"
| "find_log_loop D (d # ds) found =
     res_bind
       (case (try_pre D d, found \<noteq> None) of
          (Some _, True) \<Rightarrow> Err MultipleLogs
        | (Some pre, False) \<Rightarrow> Ok (Some (Log_Pre pre))
        | (None, _) \<Rightarrow> Ok found)
       (\<lambda>found'.
         res_bind
           (case (try_post D d, found' \<noteq> None) of
              (Some _, True) \<Rightarrow> Err MultipleLogs
            | (Some post, False) \<Rightarrow> Ok (Some (Log_Post post))
            | (None, _) \<Rightarrow> Ok found')
           (\<lambda>found''. find_log_loop D ds found''))"

definition find_log :: "'d digest_api \<Rightarrow> 'd list \<Rightarrow> (find_log_error, log) res" where
  "find_log D ds = find_log_loop D ds None"

fun ensure_log_loop ::
  "'d digest_api \<Rightarrow> 'd list \<Rightarrow> bool \<Rightarrow> (find_log_error, unit) res" where
  "ensure_log_loop D [] found = (if found then Ok () else Err NotFound)"
| "ensure_log_loop D (d # ds) found =
     res_bind
       (case (try_pre D d, found) of
          (Some _, True) \<Rightarrow> Err MultipleLogs
        | (Some _, False) \<Rightarrow> Ok True
        | (None, _) \<Rightarrow> Ok found)
       (\<lambda>found'.
         res_bind
           (case (try_post D d, found') of
              (Some _, True) \<Rightarrow> Err MultipleLogs
            | (Some _, False) \<Rightarrow> Ok True
            | (None, _) \<Rightarrow> Ok found')
           (\<lambda>found''. ensure_log_loop D ds found''))"

definition ensure_log :: "'d digest_api \<Rightarrow> 'd list \<Rightarrow> (find_log_error, unit) res" where
  "ensure_log D ds = ensure_log_loop D ds False"

section \<open>Block import (client/consensus)\<close>

datatype import_error = MultipleRuntimeLogs | NoRuntimeLog | RuntimeApiCallFailed

text \<open>\<open>ConsensusError::ClientImport(error.to_string())\<close>, or the error of the inner import.\<close>

datatype 'x consensus_error = ClientImport import_error | InnerError 'x

fun from_find_log_error :: "find_log_error \<Rightarrow> import_error" where
  "from_find_log_error NotFound = NoRuntimeLog"
| "from_find_log_error MultipleLogs = MultipleRuntimeLogs"

definition check_block ::
  "('b \<Rightarrow> ('i, 'x, 'r) act) \<Rightarrow> 'b \<Rightarrow> ('i, 'x consensus_error, 'r) act" where
  "check_block inner_check b = (\<lambda>i. case inner_check b i of (r, i') \<Rightarrow> (map_err InnerError r, i'))"

definition import_block ::
  "'d digest_api \<Rightarrow> ('b \<Rightarrow> 'd list) \<Rightarrow> ('b \<Rightarrow> 'c \<Rightarrow> ('i, 'x, 'r) act) \<Rightarrow>
   'b \<Rightarrow> 'c \<Rightarrow> ('i, 'x consensus_error, 'r) act" where
  "import_block D digest_of inner_import b new_cache =
     act_bind
       (act_lift (map_err (\<lambda>e. ClientImport (from_find_log_error e)) (ensure_log D (digest_of b))))
       (\<lambda>_ i. case inner_import b new_cache i of (r, i') \<Rightarrow> (map_err InnerError r, i'))"

section \<open>What the searches compute\<close>

text \<open>The reference: exactly one log, or the error that says why there is none.\<close>

fun unique_log :: "'l list \<Rightarrow> (find_log_error, 'l) res" where
  "unique_log [] = Err NotFound"
| "unique_log [l] = Ok l"
| "unique_log (l # l' # ls) = Err MultipleLogs"

fun opt_list :: "'a option \<Rightarrow> 'a list" where
  "opt_list None = []"
| "opt_list (Some a) = [a]"

locale log_search =
  fixes pick :: "'d \<Rightarrow> 'l list"
    and search :: "'d list \<Rightarrow> 'l option \<Rightarrow> (find_log_error, 'l) res"
  assumes search_Nil: "search [] found = ok_or found NotFound"
    and search_Cons: "search (d # ds) found =
      (case opt_list found @ pick d of
         [] \<Rightarrow> search ds None
       | [l] \<Rightarrow> search ds (Some l)
       | _ \<Rightarrow> Err MultipleLogs)"
begin

lemma search_found: "search ds (Some l) = unique_log (l # concat (map pick ds))"
proof (induction ds)
  case (Cons d ds)
  then show ?case by (cases "pick d") (auto simp: search_Cons)
qed (simp add: search_Nil)

lemma search_unique: "search ds None = unique_log (concat (map pick ds))"
proof (induction ds)
  case (Cons d ds)
  show ?case
  proof (cases "pick d")
    case Nil
    then show ?thesis using Cons by (simp add: search_Cons)
  next
    case (Cons l ls)
    then show ?thesis
      by (cases ls) (auto simp: search_Cons search_found)
  qed
qed (simp add: search_Nil)

end

definition pre_of :: "'d digest_api \<Rightarrow> 'd \<Rightarrow> pre_log list" where
  "pre_of D d = opt_list (try_pre D d)"

definition post_of :: "'d digest_api \<Rightarrow> 'd \<Rightarrow> post_log list" where
  "post_of D d = opt_list (try_post D d)"

definition logs_of :: "'d digest_api \<Rightarrow> 'd \<Rightarrow> log list" where
  "logs_of D d = map Log_Pre (pre_of D d) @ map Log_Post (post_of D d)"

lemmas pick_defs = pre_of_def post_of_def logs_of_def

interpretation pre: log_search "pre_of D" "find_pre_log_loop D" for D
proof (unfold_locales, goal_cases)
  case (1 found)
  show ?case by (cases found) auto
next
  case (2 d ds found)
  show ?case by (cases found) (auto simp: pick_defs split: option.splits)
qed

interpretation post: log_search "post_of D" "find_post_log_loop D" for D
proof (unfold_locales, goal_cases)
  case (1 found)
  show ?case by (cases found) auto
next
  case (2 d ds found)
  show ?case by (cases found) (auto simp: pick_defs split: option.splits)
qed

interpretation any: log_search "logs_of D" "find_log_loop D" for D
proof (unfold_locales, goal_cases)
  case (1 found)
  show ?case by (cases found) auto
next
  case (2 d ds found)
  show ?case by (cases found) (auto simp: pick_defs split: option.splits)
qed

interpretation unit: log_search "\<lambda>d. map (\<lambda>_. ()) (logs_of D d)"
  "\<lambda>ds found. ensure_log_loop D ds (found \<noteq> None)" for D
proof (unfold_locales, goal_cases)
  case (1 found)
  show ?case by (cases found) auto
next
  case (2 d ds found)
  show ?case by (cases found) (auto simp: pick_defs split: option.splits)
qed

lemma find_pre_log_unique: "find_pre_log D ds = unique_log (concat (map (pre_of D) ds))"
  by (simp add: find_pre_log_def pre.search_unique)

lemma find_post_log_unique: "find_post_log D ds = unique_log (concat (map (post_of D) ds))"
  by (simp add: find_post_log_def post.search_unique)

lemma find_log_eq: "find_log D ds = unique_log (concat (map (logs_of D) ds))"
  by (simp add: find_log_def any.search_unique)

lemma map_unique_log: "unique_log (map f ls) = map_ok f (unique_log ls)"
  by (induction ls rule: unique_log.induct) auto

lemma unique_log_append_Err:
  "unique_log ls = Err MultipleLogs \<Longrightarrow> unique_log (ls @ ls') = Err MultipleLogs"
  by (induction ls rule: unique_log.induct) auto

lemma unique_log_eq_Ok: "unique_log ls = Ok l \<longleftrightarrow> ls = [l]"
  by (induction ls rule: unique_log.induct) auto

lemma unique_log_not_Panic [simp]: "unique_log ls \<noteq> Panic"
  by (induction ls rule: unique_log.induct) auto

text \<open>
  C10: the search for the Ethereum log of a header succeeds exactly when the digest carries one
  log, whether a pre-runtime or a post-execution log, and then returns it; no log and several
  logs give the two distinct errors; the searches for one kind of log do the same for that kind.
  It holds for every digest and every decoder.
\<close>

theorem find_log_unique:
  "find_log D ds = unique_log (concat (map (logs_of D) ds)) \<and>
   find_pre_log D ds = unique_log (concat (map (pre_of D) ds)) \<and>
   find_post_log D ds = unique_log (concat (map (post_of D) ds))"
  by (simp add: find_log_eq find_pre_log_unique find_post_log_unique)

lemma ensure_log_unique:
  "ensure_log D ds = map_ok (\<lambda>_. ()) (unique_log (concat (map (logs_of D) ds)))"
proof -
  have "ensure_log D ds = unique_log (concat (map (\<lambda>d. map (\<lambda>_. ()) (logs_of D d)) ds))"
    using unit.search_unique [of D ds] by (simp add: ensure_log_def)
  also have "concat (map (\<lambda>d. map (\<lambda>_. ()) (logs_of D d)) ds) =
      map (\<lambda>_. ()) (concat (map (logs_of D) ds))"
    by (simp add: map_concat comp_def)
  finally show ?thesis by (simp add: map_unique_log)
qed

text \<open>
  The import check and the search used by the sync worker agree: \<open>ensure_log\<close> accepts
  a digest exactly when \<open>find_log\<close> finds its log, with the same error otherwise.
\<close>

theorem ensure_log_iff_find_log:
  "ensure_log D ds = map_ok (\<lambda>_. ()) (find_log D ds)"
  by (simp add: ensure_log_unique find_log_eq)

text \<open>
  C11: block import hands a block to the inner import exactly when its header carries one
  Ethereum log; otherwise it fails with the corresponding error and the inner import is not
  run (its state is unchanged).
\<close>

theorem import_block_gate:
  "import_block D digest_of inner b c i =
     (case unique_log (concat (map (logs_of D) (digest_of b))) of
        Ok l \<Rightarrow> (map_err InnerError (fst (inner b c i)), snd (inner b c i))
      | Err e \<Rightarrow> (Err (ClientImport (from_find_log_error e)), i)
      | Panic \<Rightarrow> (Panic, i))"
  by (cases "unique_log (concat (map (logs_of D) (digest_of b)))")
     (auto simp: import_block_def ensure_log_unique act_simps split: prod.splits)

end
