(* ===== verification/Origin.thy ===== *)
theory Origin
  imports Prelude
begin

text \<open>
  Origins of dispatchable calls, as the pallets receive them (\<open>frame_system::RawOrigin\<close>), the
  errors a dispatch can return, and the bookkeeping value a dispatch reports back
  (\<open>PostDispatchInfo\<close>).
\<close>

datatype 'acc raw_origin = Root | Signed 'acc | NoneOrigin

datatype dispatch_error =
    BadOrigin
  | CannotLookup
  | Other string
  | Module_Error string

datatype pays = Pays_Yes | Pays_No

record post_dispatch_info =
  pd_actual_weight :: "u64 option"
  pd_pays_fee :: pays

text \<open>\<open>frame_system::ensure_none\<close>: only an unsigned extrinsic passes.\<close>

fun ensure_none :: "'acc raw_origin \<Rightarrow> (dispatch_error, unit) res" where
  "ensure_none NoneOrigin = Ok ()"
| "ensure_none Root = Err BadOrigin"
| "ensure_none (Signed who) = Err BadOrigin"

lemma ensure_none_eq: "ensure_none o' = (if o' = NoneOrigin then Ok () else Err BadOrigin)"
  by (cases o') auto

end
