(* ===== verification/Dynamic_Fee.thy ===== *)
theory Dynamic_Fee
  imports Origin
begin

text \<open>
  \<open>frame/dynamic-fee/src/lib.rs\<close>: the pallet that moves the minimal gas price towards the
  target a block author notes, by a bounded step per block. Its storage is the record
  \<open>dyn_fee\<close>; the configured \<open>MinGasPriceBoundDivisor\<close> is an argument.
\<close>

section \<open>State and operations\<close>

datatype event = TargetMinGasPriceSet u256

record dyn_fee =
  min_gas_price :: u256
  target_min_gas_price :: "u256 option"
  df_events :: "event list"

datatype call = Call_note_min_gas_price_target u256

text \<open>\<open>U256\<close> division panics on a zero divisor and \<open>U256\<close> addition on overflow.\<close>

definition price_bound :: "u256 \<Rightarrow> u256 \<Rightarrow> (dispatch_error, u256) res" where
  "price_bound divisor price =
     (if divisor = 0 then Panic
      else case checked_add (price div divisor) 1 of None \<Rightarrow> Panic | Some b \<Rightarrow> Ok b)"

definition on_finalize :: "u256 \<Rightarrow> (dyn_fee, dispatch_error, unit) act" where
  "on_finalize divisor s =
     (case target_min_gas_price s of
        Some target \<Rightarrow>
          (case price_bound divisor (min_gas_price s) of
             Ok bound \<Rightarrow>
               (let upper_limit = saturating_add (min_gas_price s) bound;
                    lower_limit = saturating_sub (min_gas_price s) bound
                in (Ok (), s\<lparr>min_gas_price := min upper_limit (max lower_limit target),
                             target_min_gas_price := None\<rparr>))
           | Err e \<Rightarrow> (Err e, s)
           | Panic \<Rightarrow> (Panic, s))
      | None \<Rightarrow> (Ok (), s\<lparr>target_min_gas_price := None\<rparr>))"

definition note_min_gas_price_target ::
  "'acc raw_origin \<Rightarrow> u256 \<Rightarrow> (dyn_fee, dispatch_error, unit) act" where
  "note_min_gas_price_target origin target =
     act_bind (act_lift (ensure_none origin)) (\<lambda>_.
       act_modify (\<lambda>s. s\<lparr>target_min_gas_price := Some target,
                         df_events := df_events s @ [TargetMinGasPriceSet target]\<rparr>))"

text \<open>
  The inherent: \<open>get_data\<close> is \<open>InherentData::get_data\<close> at the pallet's identifier, which
  fails when the stored bytes do not decode and returns no value when there is none.
\<close>

definition create_inherent :: "('data \<Rightarrow> ('x, u256 option) res) \<Rightarrow> 'data \<Rightarrow> call option" where
  "create_inherent get_data data =
     (case get_data data of
        Ok (Some target) \<Rightarrow> Some (Call_note_min_gas_price_target target)
      | _ \<Rightarrow> None)"

definition check_inherent :: "call \<Rightarrow> 'data \<Rightarrow> ('x, unit) res" where
  "check_inherent c data = Ok ()"

section \<open>One block\<close>

lemma unat_min: "unat (min a b) = min (unat a) (unat b)"
  for a b :: "'n::len word"
  by (simp add: min_def word_le_nat_alt)

lemma unat_max_word: "unat (max a b) = max (unat a) (unat b)"
  for a b :: "'n::len word"
  by (simp add: max_def word_le_nat_alt)

lemma price_bound_Ok:
  assumes "2 \<le> unat divisor"
  obtains b where "price_bound divisor p = Ok b" "unat b = unat p div unat divisor + 1"
proof -
  have d: "divisor \<noteq> 0" using assms by auto
  have "unat p div unat divisor \<le> unat p div 2"
    using assms by (simp add: div_le_mono2)
  moreover have "unat p < 2 ^ 256" using unat_bound [of p] by simp
  ultimately have lt: "unat p div unat divisor + 1 < 2 ^ 256" by (simp add: div_less_dividend)
  have "checked_add (p div divisor) 1 = Some (p div divisor + 1)"
    using lt by (simp add: word_ops unat_div)
  moreover have "unat (p div divisor + 1) = unat p div unat divisor + 1"
    using lt by (simp add: unat_word_ariths unat_div)
  ultimately show thesis using that d by (simp add: price_bound_def)
qed

definition next_price :: "nat \<Rightarrow> nat \<Rightarrow> nat \<Rightarrow> nat" where
  "next_price d p t = min (min (p + (p div d + 1)) (2 ^ 256 - 1)) (max (p - (p div d + 1)) t)"

lemma on_finalize_target:
  assumes "2 \<le> unat divisor" and "target_min_gas_price s = Some t"
  obtains s' where "on_finalize divisor s = (Ok (), s')"
    "unat (min_gas_price s') = next_price (unat divisor) (unat (min_gas_price s)) (unat t)"
    "target_min_gas_price s' = None"
proof -
  obtain b where "price_bound divisor (min_gas_price s) = Ok b"
    and "unat b = unat (min_gas_price s) div unat divisor + 1"
    using price_bound_Ok [OF assms(1)] by metis
  then show thesis
    using that [of "s\<lparr>min_gas_price := min (saturating_add (min_gas_price s) b)
        (max (saturating_sub (min_gas_price s) b) t), target_min_gas_price := None\<rparr>"] assms(2)
    by (simp add: on_finalize_def Let_def next_price_def unat_min unat_max_word
        unat_saturating_add unat_saturating_sub)
qed

lemma next_price_up:
  "p \<le> t \<Longrightarrow> t < 2 ^ 256 \<Longrightarrow> p \<le> next_price d p t \<and> next_price d p t \<le> t \<and>
     next_price d p t \<le> p + (p div d + 1)"
  by (auto simp: next_price_def)

lemma next_price_down:
  "t \<le> p \<Longrightarrow> p < 2 ^ 256 \<Longrightarrow> t \<le> next_price d p t \<and> next_price d p t \<le> p \<and>
     p \<le> next_price d p t + (p div d + 1)"
  by (auto simp: next_price_def)

lemma next_price_progress:
  "p \<noteq> t \<Longrightarrow> p < 2 ^ 256 \<Longrightarrow> t < 2 ^ 256 \<Longrightarrow>
     (if p < t then p < next_price d p t else next_price d p t < p)"
  by (auto simp: next_price_def)

text \<open>
  C12: finalizing a block moves the minimal gas price towards the noted target, never past it,
  by at most \<open>price / divisor + 1\<close>, and clears the target; without a target the price does
  not change. The divisor must be at least 2: a zero divisor panics, and a divisor of 1 can
  overflow at the maximal price.
\<close>

theorem on_finalize_bounded:
  assumes "2 \<le> unat divisor"
  shows "\<exists>s'. on_finalize divisor s = (Ok (), s') \<and>
    target_min_gas_price s' = None \<and>
    (case target_min_gas_price s of
       None \<Rightarrow> min_gas_price s' = min_gas_price s
     | Some t \<Rightarrow>
         (if min_gas_price s \<le> t
          then min_gas_price s \<le> min_gas_price s' \<and> min_gas_price s' \<le> t \<and>
            unat (min_gas_price s') - unat (min_gas_price s)
              \<le> unat (min_gas_price s) div unat divisor + 1
          else t \<le> min_gas_price s' \<and> min_gas_price s' \<le> min_gas_price s \<and>
            unat (min_gas_price s) - unat (min_gas_price s')
              \<le> unat (min_gas_price s) div unat divisor + 1))"
proof (cases "target_min_gas_price s")
  case None
  then show ?thesis by (simp add: on_finalize_def)
next
  case (Some t)
  obtain s' where s': "on_finalize divisor s = (Ok (), s')" "target_min_gas_price s' = None"
    and n: "unat (min_gas_price s') = next_price (unat divisor) (unat (min_gas_price s)) (unat t)"
    using on_finalize_target [OF assms Some] by metis
  have "unat t < 2 ^ 256" "unat (min_gas_price s) < 2 ^ 256"
    using unat_bound [of t] unat_bound [of "min_gas_price s"] by simp_all
  then show ?thesis
    using s' n Some next_price_up [of "unat (min_gas_price s)" "unat t" "unat divisor"]
      next_price_down [of "unat t" "unat (min_gas_price s)" "unat divisor"]
    by (auto simp: word_le_nat_alt)
qed

section \<open>Convergence\<close>

text \<open>A block in which the author notes the target \<open>t\<close> and the block is finalized.\<close>

definition block_with_target :: "u256 \<Rightarrow> u256 \<Rightarrow> dyn_fee \<Rightarrow> dyn_fee" where
  "block_with_target divisor t s =
     snd (on_finalize divisor (snd (note_min_gas_price_target (NoneOrigin :: unit raw_origin) t s)))"

lemma block_with_target_price:
  assumes "2 \<le> unat divisor"
  shows "unat (min_gas_price (block_with_target divisor t s)) =
    next_price (unat divisor) (unat (min_gas_price s)) (unat t)"
proof -
  let ?s = "snd (note_min_gas_price_target (NoneOrigin :: unit raw_origin) t s)"
  have s: "target_min_gas_price ?s = Some t" "min_gas_price ?s = min_gas_price s"
    by (simp_all add: note_min_gas_price_target_def act_simps)
  obtain s' where "on_finalize divisor ?s = (Ok (), s')"
    "unat (min_gas_price s') = next_price (unat divisor) (unat (min_gas_price ?s)) (unat t)"
    using on_finalize_target [OF assms s(1)] by metis
  then show ?thesis using s by (simp add: block_with_target_def)
qed

lemma next_price_fixpoint: "t < 2 ^ 256 \<Longrightarrow> next_price d t t = t"
  by (simp add: next_price_def)

definition gap :: "u256 \<Rightarrow> u256 \<Rightarrow> nat" where
  "gap p t = (unat p - unat t) + (unat t - unat p)"

lemma gap_shrinks:
  assumes "2 \<le> unat divisor"
  shows "gap (min_gas_price (block_with_target divisor t s)) t \<le> gap (min_gas_price s) t - 1"
proof -
  let ?p = "unat (min_gas_price s)" and ?t = "unat t" and ?d = "unat divisor"
  let ?n = "next_price ?d ?p ?t"
  have b: "?t < 2 ^ 256" "?p < 2 ^ 256"
    using unat_bound [of t] unat_bound [of "min_gas_price s"] by simp_all
  have "(?n - ?t) + (?t - ?n) \<le> (?p - ?t) + (?t - ?p) - 1"
  proof (cases rule: linorder_cases [of ?p ?t])
    case less
    then show ?thesis
      using next_price_up [of ?p ?t ?d] next_price_progress [of ?p ?t ?d] b by simp
  next
    case equal
    then show ?thesis using next_price_fixpoint [OF b(1)] by simp
  next
    case greater
    then show ?thesis
      using next_price_down [of ?t ?p ?d] next_price_progress [of ?p ?t ?d] b by simp
  qed
  then show ?thesis by (simp add: gap_def block_with_target_price [OF assms])
qed

text \<open>
  Convergence. If every block notes the same target, the minimal gas price reaches it
  after at most as many blocks as the initial distance, and stays there.
\<close>

theorem price_converges:
  assumes "2 \<le> unat divisor" and "gap (min_gas_price s) t \<le> n"
  shows "min_gas_price ((block_with_target divisor t ^^ n) s) = t"
proof -
  have "gap (min_gas_price ((block_with_target divisor t ^^ n) s)) t
      \<le> gap (min_gas_price s) t - n"
  proof (induction n)
    case (Suc n)
    then show ?case
      using gap_shrinks [OF assms(1), of t "(block_with_target divisor t ^^ n) s"] by simp
  qed simp
  then show ?thesis using assms(2) by (simp add: gap_def word_unat_eq_iff)
qed

theorem on_finalize_bounded_witness:
  "\<exists>s'. on_finalize 1024 \<lparr>min_gas_price = 10, target_min_gas_price = Some 50, df_events = []\<rparr>
     = (Ok (), s') \<and> target_min_gas_price s' = None"
  using on_finalize_bounded
    [of 1024 "\<lparr>min_gas_price = 10, target_min_gas_price = Some 50, df_events = []\<rparr>"]
  by auto

theorem price_converges_witness:
  "min_gas_price ((block_with_target 1024 50 ^^ 40)
     \<lparr>min_gas_price = 10, target_min_gas_price = None, df_events = []\<rparr>) = 50"
  by (rule price_converges) (simp_all add: gap_def)

end
