(* ===== verification/Precompile.thy ===== *)
theory Precompile
  imports Eth_Types
begin

text \<open>
  \<open>primitives/evm/src/precompile.rs\<close>: the interface of the precompiled contracts. A
  precompile maps an input, an optional gas target and a call context to a result with the gas
  it used; \<open>LinearCostPrecompile\<close> derives one from a base price, a price per 32-byte word and
  a body; a tuple of precompiles answers at the addresses 1, 2, and so on. The locale
  \<open>linear_cost\<close> is the interface of \<open>LinearCostPrecompile\<close>; each precompile of
  \<open>frame/evm/precompile\<close> interprets it in its own theory.
\<close>

section \<open>Operations\<close>

record call_context =
  cx_address :: h160
  cx_caller :: h160
  cx_apparent_value :: u256

type_synonym precompile_output = "(exit_error, exit_succeed \<times> bytes \<times> u64) res"
type_synonym precompile = "bytes \<Rightarrow> u64 option \<Rightarrow> call_context \<Rightarrow> precompile_output"
type_synonym linear_body = "bytes \<Rightarrow> u64 \<Rightarrow> (exit_error, exit_succeed \<times> bytes) res"

definition ensure_linear_cost ::
  "u64 option \<Rightarrow> u64 \<Rightarrow> u64 \<Rightarrow> u64 \<Rightarrow> (exit_error, u64) res" where
  "ensure_linear_cost target_gas len base word =
     res_bind (ok_or (checked_mul word (saturating_add len 31 div 32)) OutOfGas) (\<lambda>words.
     res_bind (ok_or (checked_add base words) OutOfGas) (\<lambda>cost.
       case target_gas of
         Some gas \<Rightarrow> if cost > gas then Err OutOfGas else Ok cost
       | None \<Rightarrow> Ok cost))"

definition linear_execute :: "u64 \<Rightarrow> u64 \<Rightarrow> linear_body \<Rightarrow> precompile" where
  "linear_execute base word body input target_gas ctx =
     res_bind (ensure_linear_cost target_gas (word_of_nat (length input)) base word) (\<lambda>cost.
     res_bind (body input cost) (\<lambda>(succeed, out).
       Ok (succeed, out, cost)))"

fun precompile_set_from :: "u64 \<Rightarrow> precompile list \<Rightarrow> h160 \<Rightarrow> bytes \<Rightarrow> u64 option \<Rightarrow> call_context \<Rightarrow>
    precompile_output option" where
  "precompile_set_from index [] address input target_gas ctx = None"
| "precompile_set_from index (p # ps) address input target_gas ctx =
     (let index' = index + 1 in
      if address = ucast index' then Some (p input target_gas ctx)
      else precompile_set_from index' ps address input target_gas ctx)"

definition precompile_set_execute :: "precompile list \<Rightarrow> h160 \<Rightarrow> bytes \<Rightarrow> u64 option \<Rightarrow> call_context \<Rightarrow>
    precompile_output option" where
  "precompile_set_execute ps address input target_gas ctx =
     precompile_set_from 0 ps address input target_gas ctx"

section \<open>Linear cost\<close>

text \<open>The price of an input of \<open>len\<close> bytes, as a number.\<close>

definition linear_price :: "nat \<Rightarrow> nat \<Rightarrow> nat \<Rightarrow> nat" where
  "linear_price base word len = base + word * (min (len + 31) (2 ^ 64 - 1) div 32)"

lemma ensure_linear_cost_Ok:
  "ensure_linear_cost target len base word = Ok cost \<longleftrightarrow>
     unat cost = linear_price (unat base) (unat word) (unat len) \<and>
     (\<forall>g. target = Some g \<longrightarrow> cost \<le> g)"
proof -
  let ?w = "saturating_add len 31 div 32"
  have w: "unat ?w = min (unat len + 31) (2 ^ 64 - 1) div 32"
    by (simp add: unat_div unat_saturating_add)
  have "ensure_linear_cost target len base word = Ok cost \<longleftrightarrow>
      (\<exists>m. checked_mul word ?w = Some m \<and> checked_add base m = Some cost) \<and>
      (\<forall>g. target = Some g \<longrightarrow> cost \<le> g)"
    by (cases target) (auto simp: ensure_linear_cost_def not_less split: if_splits)
  also have "(\<exists>m. checked_mul word ?w = Some m \<and> checked_add base m = Some cost) \<longleftrightarrow>
      unat cost = unat base + unat word * unat ?w"
  proof
    assume "unat cost = unat base + unat word * unat ?w"
    moreover from this have "unat word * unat ?w < 2 ^ 64" using unat_bound [of cost] by simp
    then have "unat (word * ?w) = unat word * unat ?w" by (simp add: unat_word_ariths)
    ultimately show "\<exists>m. checked_mul word ?w = Some m \<and> checked_add base m = Some cost"
      by (intro exI [of _ "word * ?w"]) (simp add: checked_mul_Some checked_add_Some)
  qed (auto simp: checked_mul_Some checked_add_Some)
  finally show ?thesis by (simp add: linear_price_def w)
qed

lemma ensure_linear_cost_Err:
  "ensure_linear_cost target len base word = Err e \<Longrightarrow> e = OutOfGas"
  by (auto simp: ensure_linear_cost_def res_bind_eq_Err split: option.splits if_splits)

lemma ensure_linear_cost_not_Panic [simp]: "ensure_linear_cost target len base word \<noteq> Panic"
  by (auto simp: ensure_linear_cost_def res_bind_eq_Panic split: option.splits if_splits)

text \<open>
  The interface of \<open>LinearCostPrecompile\<close>: a base price, a word price and a body whose
  outcome does not depend on the cost it is handed.
\<close>

locale linear_cost =
  fixes base word :: u64 and body :: linear_body
  assumes body_cost: "body input c = body input c'"
begin

lemma execute_eq:
  "linear_execute base word body input target ctx =
     res_bind (ensure_linear_cost target (word_of_nat (length input)) base word) (\<lambda>cost.
     res_bind (body input 0) (\<lambda>(succeed, out). Ok (succeed, out, cost)))"
proof (cases "ensure_linear_cost target (word_of_nat (length input)) base word")
  case (Ok cost)
  then show ?thesis using body_cost [of input cost 0] by (simp add: linear_execute_def)
qed (simp_all add: linear_execute_def)

lemma execute_Ok:
  "linear_execute base word body input target ctx = Ok (st, out, cost) \<longleftrightarrow>
     body input 0 = Ok (st, out) \<and>
     unat cost = linear_price (unat base) (unat word) (unat (word_of_nat (length input) :: u64)) \<and>
     (\<forall>g. target = Some g \<longrightarrow> cost \<le> g)"
  by (auto simp: execute_eq ensure_linear_cost_Ok)

lemma execute_gas: "linear_execute base word body input (Some g) ctx = Ok (st, out, cost) \<Longrightarrow> cost \<le> g"
  by (simp add: execute_Ok)

lemma execute_target_independent:
  assumes "linear_execute base word body input None ctx = Ok (st, out, cost)"
  shows "linear_execute base word body input (Some g) ctx =
    (if cost \<le> g then Ok (st, out, cost) else Err OutOfGas)"
proof (cases "cost \<le> g")
  case True
  have "linear_execute base word body input (Some g) ctx = Ok (st, out, cost)"
    using assms True by (simp only: execute_Ok) simp
  then show ?thesis using True by simp
next
  case False
  have "\<not> (\<exists>c. ensure_linear_cost (Some g) (word_of_nat (length input)) base word = Ok c)"
    using assms False by (auto simp: execute_Ok ensure_linear_cost_Ok word_le_nat_alt)
  then obtain e where
    "ensure_linear_cost (Some g) (word_of_nat (length input)) base word = Err e"
    by (cases "ensure_linear_cost (Some g) (word_of_nat (length input)) base word") auto
  moreover from this have "e = OutOfGas" by (rule ensure_linear_cost_Err)
  ultimately show ?thesis using False by (simp add: execute_eq)
qed

lemma execute_panics_iff:
  "linear_execute base word body input target ctx = Panic \<longleftrightarrow>
     body input 0 = Panic \<and>
     (\<exists>cost. ensure_linear_cost target (word_of_nat (length input)) base word = Ok cost)"
  by (auto simp: execute_eq res_bind_eq_Panic)

end

section \<open>Sets of precompiles\<close>

lemma precompile_set_from_eq:
  "unat index + length ps < 2 ^ 64 \<Longrightarrow>
   precompile_set_from index ps address input target ctx =
     (if unat index < unat address \<and> unat address \<le> unat index + length ps
      then Some ((ps ! (unat address - unat index - 1)) input target ctx) else None)"
proof (induction ps arbitrary: index)
  case (Cons p ps)
  have i: "unat (index + 1) = unat index + 1"
    using Cons.prems by (simp add: unat_word_ariths)
  have c: "unat (ucast (index + 1) :: h160) = unat index + 1"
    using unat_bound [of "index + 1"] i by (simp add: unat_ucast_id)
  have a: "address = ucast (index + 1) \<longleftrightarrow> unat address = unat index + 1"
    using c by (simp add: word_unat_eq_iff)
  show ?case
  proof (cases "unat address = unat index + 1")
    case True
    then show ?thesis using a by (simp add: Let_def)
  next
    case False
    then have "precompile_set_from index (p # ps) address input target ctx =
        precompile_set_from (index + 1) ps address input target ctx"
      using a by (simp add: Let_def)
    also have "\<dots> = (if unat index + 1 < unat address \<and> unat address \<le> unat index + 1 + length ps
        then Some ((ps ! (unat address - (unat index + 1) - 1)) input target ctx) else None)"
      using Cons.IH [of "index + 1"] Cons.prems i by simp
    also have "\<dots> = (if unat index < unat address \<and> unat address \<le> unat index + length (p # ps)
        then Some (((p # ps) ! (unat address - unat index - 1)) input target ctx) else None)"
      using False by (auto simp: nth_Cons' Suc_le_eq)
    finally show ?thesis .
  qed
qed simp

text \<open>
  A tuple of at most 16 precompiles (the arity of the macro) answers exactly at the
  addresses \<open>1\<close> to its length, with the precompile of that position, and at no other address.
\<close>

theorem precompile_set_dispatch:
  assumes "length ps \<le> 16"
  shows "precompile_set_execute ps address input target ctx =
    (if 1 \<le> unat address \<and> unat address \<le> length ps
     then Some ((ps ! (unat address - 1)) input target ctx) else None)"
  using assms precompile_set_from_eq [of 0 ps address input target ctx]
  by (simp add: precompile_set_execute_def Suc_le_eq)

theorem precompile_set_dispatch_witness:
  "precompile_set_execute [\<lambda>_ _ _. Ok (Returned, [], 1), \<lambda>i _ _. Ok (Stopped, i, 2)] 2 [7] None
     \<lparr>cx_address = 0, cx_caller = 0, cx_apparent_value = 0\<rparr> = Some (Ok (Stopped, [7], 2))"
proof -
  have "length [\<lambda>_ _ _. Ok (Returned, [], 1), \<lambda>i _ _. Ok (Stopped, i, 2) :: precompile_output] \<le> 16"
    by simp
  from precompile_set_dispatch [OF this, of 2] show ?thesis by simp
qed

text \<open>
  The gas a linear-cost precompile charges. The check succeeds with exactly
  \<open>base + word * ceil(len / 32)\<close> when that fits in 64 bits and is within the target, and
  otherwise fails with \<open>OutOfGas\<close>; it never wraps around. (The length saturates 31 bytes
  below the maximal \<open>u64\<close>.)
\<close>

theorem ensure_linear_cost_spec:
  "ensure_linear_cost target len base word =
     (if linear_price (unat base) (unat word) (unat len) < 2 ^ 64 \<and>
         (\<forall>g. target = Some g \<longrightarrow> linear_price (unat base) (unat word) (unat len) \<le> unat g)
      then Ok (word_of_nat (linear_price (unat base) (unat word) (unat len)))
      else Err OutOfGas)"
proof (cases "ensure_linear_cost target len base word")
  case (Ok cost)
  then have u: "unat cost = linear_price (unat base) (unat word) (unat len)"
    and g: "\<And>g. target = Some g \<Longrightarrow> unat cost \<le> unat g"
    by (auto simp: ensure_linear_cost_Ok word_le_nat_alt)
  then show ?thesis using Ok unat_bound [of cost] u [symmetric] by simp
next
  case (Err e)
  then have "e = OutOfGas" by (rule ensure_linear_cost_Err)
  moreover have "\<not> (linear_price (unat base) (unat word) (unat len) < 2 ^ 64 \<and>
      (\<forall>g. target = Some g \<longrightarrow> linear_price (unat base) (unat word) (unat len) \<le> unat g))"
  proof
    assume a: "linear_price (unat base) (unat word) (unat len) < 2 ^ 64 \<and>
      (\<forall>g. target = Some g \<longrightarrow> linear_price (unat base) (unat word) (unat len) \<le> unat g)"
    then have "unat (word_of_nat (linear_price (unat base) (unat word) (unat len)) :: u64) =
        linear_price (unat base) (unat word) (unat len)"
      by (simp add: unat_of_nat)
    then have "ensure_linear_cost target len base word =
        Ok (word_of_nat (linear_price (unat base) (unat word) (unat len)))"
      using a by (simp add: ensure_linear_cost_Ok word_le_nat_alt)
    then show False using Err by simp
  qed
  ultimately show ?thesis using Err by simp
qed simp

theorem ensure_linear_cost_spec_witness:
  "ensure_linear_cost (Some 20) 33 15 3 = Err OutOfGas \<and> ensure_linear_cost (Some 30) 33 15 3 = Ok 21"
  using ensure_linear_cost_spec [of "Some 20" 33 15 3] ensure_linear_cost_spec [of "Some 30" 33 15 3]
  by (simp add: linear_price_def)

end
