(* ===== verification/Precompile_Simple.thy ===== *)
theory Precompile_Simple
  imports Precompile
begin

text \<open>
  The precompiles of \<open>frame/evm/precompile/simple\<close>, \<open>sha3fips\<close> and \<open>ed25519\<close>, and
  the set of seven the runtime installs (\<open>runtime/src/lib.rs\<close>). The hash functions and
  the signature schemes they call are the fields of \<open>crypto_lib\<close>. Each body interprets the
  interface \<open>linear_cost\<close> with its own prices.
\<close>

section \<open>Libraries\<close>

record ('pk, 'sg) crypto_lib =
  secp_recover :: "bytes \<Rightarrow> bytes \<Rightarrow> bytes option"
  keccak_256 :: "bytes \<Rightarrow> bytes"
  sha2_256 :: "bytes \<Rightarrow> bytes"
  ripemd160_digest :: "bytes \<Rightarrow> bytes"
  sha3_v256 :: "bytes \<Rightarrow> bytes"
  sha3_v512 :: "bytes \<Rightarrow> bytes"
  ed_public_key :: "bytes \<Rightarrow> 'pk option"
  ed_signature :: "bytes \<Rightarrow> 'sg option"
  ed_verify :: "'pk \<Rightarrow> bytes \<Rightarrow> 'sg \<Rightarrow> bool"

text \<open>The digest lengths the crates document.\<close>

definition crypto_lib_ok :: "('pk, 'sg) crypto_lib \<Rightarrow> bool" where
  "crypto_lib_ok C \<longleftrightarrow>
     (\<forall>m. length (keccak_256 C m) = 32 \<and> length (sha2_256 C m) = 32 \<and>
          length (ripemd160_digest C m) = 20 \<and>
          length (sha3_v256 C m) = 32 \<and> length (sha3_v512 C m) = 64)"

section \<open>Bodies\<close>

definition identity_execute :: linear_body where
  "identity_execute input c = Ok (Returned, input)"

text \<open>The message and signature both recovery precompiles cut out of their padded input.\<close>

definition recover_args :: "bytes \<Rightarrow> (exit_error, bytes \<times> bytes) res" where
  "recover_args i =
     (let n = min (length i) 128 in
      res_bind (slice i 0 n) (\<lambda>src.
      res_bind (write_slice (replicate 128 0) 0 n src) (\<lambda>input.
      res_bind (slice input 0 32) (\<lambda>m. res_bind (write_slice (replicate 32 0) 0 32 m) (\<lambda>msg.
      res_bind (slice input 64 96) (\<lambda>r. res_bind (write_slice (replicate 65 0) 0 32 r) (\<lambda>sig1.
      res_bind (slice input 96 128) (\<lambda>s. res_bind (write_slice sig1 32 64 s) (\<lambda>sig2.
      res_bind (index_at input 63) (\<lambda>v.
        Ok (msg, sig2[64 := v])))))))))))"

definition ecrecover_execute :: "('pk, 'sg) crypto_lib \<Rightarrow> linear_body" where
  "ecrecover_execute C i c =
     res_bind (recover_args i) (\<lambda>(msg, sig).
     res_bind (ok_or (secp_recover C sig msg) (OtherError ''Public key recover failed'')) (\<lambda>pubkey.
     res_bind (write_slice (keccak_256 C pubkey) 0 12 (replicate 12 0)) (\<lambda>address.
       Ok (Returned, address))))"

definition ripemd160_execute :: "('pk, 'sg) crypto_lib \<Rightarrow> linear_body" where
  "ripemd160_execute C input c =
     res_bind (write_slice (replicate 32 0) 12 32 (ripemd160_digest C input)) (\<lambda>ret.
       Ok (Returned, ret))"

definition sha256_execute :: "('pk, 'sg) crypto_lib \<Rightarrow> linear_body" where
  "sha256_execute C input c = Ok (Returned, sha2_256 C input)"

definition ecrecover_public_key_execute :: "('pk, 'sg) crypto_lib \<Rightarrow> linear_body" where
  "ecrecover_public_key_execute C i c =
     res_bind (recover_args i) (\<lambda>(msg, sig).
     res_bind (ok_or (secp_recover C sig msg) (OtherError ''Public key recover failed'')) (\<lambda>pubkey.
       Ok (Returned, pubkey)))"

definition sha3fips256_execute :: "('pk, 'sg) crypto_lib \<Rightarrow> linear_body" where
  "sha3fips256_execute C input c = Ok (Returned, sha3_v256 C input)"

definition sha3fips512_execute :: "('pk, 'sg) crypto_lib \<Rightarrow> linear_body" where
  "sha3fips512_execute C input c = Ok (Returned, sha3_v512 C input)"

definition ed25519_execute :: "('pk, 'sg) crypto_lib \<Rightarrow> linear_body" where
  "ed25519_execute C input c =
     (if length input < 128 then Err (OtherError ''input must contain 128 bytes'')
      else
        res_bind (slice input 0 128) (\<lambda>src.
        res_bind (write_slice (replicate 128 0) 0 128 src) (\<lambda>i.
        res_bind (slice i 0 32) (\<lambda>msg.
        res_bind (slice i 32 64) (\<lambda>pk_bytes.
        res_bind (ok_or (ed_public_key C pk_bytes) (OtherError ''Public key recover failed'')) (\<lambda>pk.
        res_bind (slice i 64 128) (\<lambda>sig_bytes.
        res_bind (ok_or (ed_signature C sig_bytes) (OtherError ''Signature recover failed'')) (\<lambda>sig.
          let buf = replicate 4 (0 :: u8) in
          Ok (Returned, if ed_verify C pk msg sig then buf[3 := 0] else buf[3 := 1])))))))))"

section \<open>The precompiles, with their prices\<close>

definition Identity :: precompile where
  "Identity = linear_execute 15 3 identity_execute"

definition ECRecover :: "('pk, 'sg) crypto_lib \<Rightarrow> precompile" where
  "ECRecover C = linear_execute 3000 0 (ecrecover_execute C)"

definition Ripemd160 :: "('pk, 'sg) crypto_lib \<Rightarrow> precompile" where
  "Ripemd160 C = linear_execute 600 120 (ripemd160_execute C)"

definition Sha256 :: "('pk, 'sg) crypto_lib \<Rightarrow> precompile" where
  "Sha256 C = linear_execute 60 12 (sha256_execute C)"

definition ECRecoverPublicKey :: "('pk, 'sg) crypto_lib \<Rightarrow> precompile" where
  "ECRecoverPublicKey C = linear_execute 3000 0 (ecrecover_public_key_execute C)"

definition Sha3FIPS256 :: "('pk, 'sg) crypto_lib \<Rightarrow> precompile" where
  "Sha3FIPS256 C = linear_execute 60 12 (sha3fips256_execute C)"

definition Sha3FIPS512 :: "('pk, 'sg) crypto_lib \<Rightarrow> precompile" where
  "Sha3FIPS512 C = linear_execute 60 12 (sha3fips512_execute C)"

definition Ed25519Verify :: "('pk, 'sg) crypto_lib \<Rightarrow> precompile" where
  "Ed25519Verify C = linear_execute 15 3 (ed25519_execute C)"

definition runtime_precompiles :: "('pk, 'sg) crypto_lib \<Rightarrow> precompile list" where
  "runtime_precompiles C =
     [ECRecover C, Sha256 C, Ripemd160 C, Identity, ECRecoverPublicKey C,
      Sha3FIPS256 C, Sha3FIPS512 C]"

lemmas precompile_defs = Identity_def ECRecover_def Ripemd160_def Sha256_def
  ECRecoverPublicKey_def Sha3FIPS256_def Sha3FIPS512_def Ed25519Verify_def

interpretation identity: linear_cost 15 3 identity_execute
  by unfold_locales (simp add: identity_execute_def)

interpretation ecrecover: linear_cost 3000 0 "ecrecover_execute C" for C
  by unfold_locales (simp add: ecrecover_execute_def)

interpretation ripemd160: linear_cost 600 120 "ripemd160_execute C" for C
  by unfold_locales (simp add: ripemd160_execute_def)

interpretation sha256: linear_cost 60 12 "sha256_execute C" for C
  by unfold_locales (simp add: sha256_execute_def)

interpretation ecrecover_pk: linear_cost 3000 0 "ecrecover_public_key_execute C" for C
  by unfold_locales (simp add: ecrecover_public_key_execute_def)

interpretation sha3_256: linear_cost 60 12 "sha3fips256_execute C" for C
  by unfold_locales (simp add: sha3fips256_execute_def)

interpretation sha3_512: linear_cost 60 12 "sha3fips512_execute C" for C
  by unfold_locales (simp add: sha3fips512_execute_def)

interpretation ed25519: linear_cost 15 3 "ed25519_execute C" for C
  by unfold_locales (simp add: ed25519_execute_def)

section \<open>What the bodies compute\<close>

text \<open>The reference reading of the recovery input: zero-padded to 128 bytes, then cut.\<close>

definition padded :: "bytes \<Rightarrow> bytes" where
  "padded i = take 128 (i @ replicate 128 0)"

lemma length_padded [simp]: "length (padded i) = 128"
  by (simp add: padded_def)

lemma recover_args_eq:
  "recover_args i = Ok (take 32 (padded i),
     take 32 (drop 64 (padded i)) @ take 32 (drop 96 (padded i)) @ [padded i ! 63])"
proof -
  have p: "take (min (length i) 128) i @ drop (min (length i) 128) (replicate 128 0) = padded i"
    by (cases "length i \<le> 128") (simp_all add: padded_def min_def)
  have "slice i 0 (min (length i) 128) = Ok (take (min (length i) 128) i)" by simp
  moreover have "write_slice (replicate 128 0) 0 (min (length i) 128) (take (min (length i) 128) i)
      = Ok (padded i)"
    using p by simp
  ultimately show ?thesis
    by (simp add: recover_args_def Let_def list_update_append)
qed

lemma ecrecover_execute_eq:
  assumes "crypto_lib_ok C"
  shows "ecrecover_execute C i c =
    (case secp_recover C (take 32 (drop 64 (padded i)) @ take 32 (drop 96 (padded i)) @ [padded i ! 63])
       (take 32 (padded i)) of
       None \<Rightarrow> Err (OtherError ''Public key recover failed'')
     | Some pk \<Rightarrow> Ok (Returned, replicate 12 0 @ drop 12 (keccak_256 C pk)))"
  using assms
  by (auto simp: ecrecover_execute_def recover_args_eq crypto_lib_ok_def split: option.splits)

text \<open>
  The recovery precompile. For every input, of any length, it reads the input zero-padded
  to 128 bytes as message, \<open>v\<close>, \<open>r\<close> and \<open>s\<close>; it fails when no key is recovered and
  otherwise returns the keccak digest of the key with its first 12 bytes cleared: 32 bytes
  that hold a 20-byte address. It never panics.
\<close>

theorem ecrecover_correct:
  assumes "crypto_lib_ok C"
  shows "case ecrecover_execute C i c of
      Ok (st, out) \<Rightarrow> st = Returned \<and> length out = 32 \<and> take 12 out = replicate 12 0 \<and>
        (\<exists>pk. secp_recover C
            (take 32 (drop 64 (padded i)) @ take 32 (drop 96 (padded i)) @ [padded i ! 63])
            (take 32 (padded i)) = Some pk \<and> drop 12 out = drop 12 (keccak_256 C pk))
    | Err e \<Rightarrow> e = OtherError ''Public key recover failed''
    | Panic \<Rightarrow> False"
  using assms
  by (auto simp: ecrecover_execute_eq crypto_lib_ok_def split: option.splits)

text \<open>Base and word prices at the addresses 1 to 7.\<close>

definition runtime_prices :: "(nat \<times> nat) list" where
  "runtime_prices =
     [(3000, 0), (60, 12), (600, 120), (15, 3), (3000, 0), (60, 12), (60, 12)]"

lemmas runtime_execute_Ok = ecrecover.execute_Ok sha256.execute_Ok ripemd160.execute_Ok
  identity.execute_Ok ecrecover_pk.execute_Ok sha3_256.execute_Ok sha3_512.execute_Ok

lemma runtime_precompile_at:
  assumes "i < 7" and "(runtime_precompiles C ! i) input (Some g) ctx = Ok (st, out, cost)"
  shows "cost \<le> g \<and>
    unat cost = linear_price (fst (runtime_prices ! i)) (snd (runtime_prices ! i)) (length input mod 2 ^ 64)"
proof -
  have len: "unat (word_of_nat (length input) :: u64) = length input mod 2 ^ 64"
    by (simp add: unat_of_nat)
  have "i = 0 \<or> i = 1 \<or> i = 2 \<or> i = 3 \<or> i = 4 \<or> i = 5 \<or> i = 6"
    using assms(1) by linarith
  then show ?thesis
    using assms(2)
    by (elim disjE)
      (simp_all add: runtime_precompiles_def runtime_prices_def precompile_defs
        runtime_execute_Ok len del: power.simps)
qed

lemma runtime_precompile_set:
  "precompile_set_execute (runtime_precompiles C) address input target ctx =
     (if 1 \<le> unat address \<and> unat address \<le> 7
      then Some ((runtime_precompiles C ! (unat address - 1)) input target ctx) else None)"
  using precompile_set_from_eq [of 0 "runtime_precompiles C" address input target ctx]
  by (simp add: precompile_set_execute_def runtime_precompiles_def Suc_le_eq)

text \<open>
  Every precompile of the runtime charges at most the gas it is given, and the price it
  reports is its linear price; addresses outside 1 to 7 are not precompiles.
\<close>

theorem runtime_precompile_gas:
  assumes "precompile_set_execute (runtime_precompiles C) address input (Some g) ctx =
    Some (Ok (st, out, cost))"
  shows "cost \<le> g \<and> 1 \<le> unat address \<and> unat address \<le> 7 \<and>
    unat cost = linear_price (fst (runtime_prices ! (unat address - 1)))
      (snd (runtime_prices ! (unat address - 1))) (length input mod 2 ^ 64)"
proof -
  have r: "1 \<le> unat address" "unat address \<le> 7"
    and e: "(runtime_precompiles C ! (unat address - 1)) input (Some g) ctx = Ok (st, out, cost)"
    using assms by (auto simp: runtime_precompile_set split: if_splits)
  then show ?thesis using runtime_precompile_at [OF _ e] by simp
qed

section \<open>Witnesses\<close>

text \<open>A library that recovers a fixed key and pads its input to the digest length.\<close>

definition sample_crypto :: "(unit, unit) crypto_lib" where
  "sample_crypto = \<lparr>
     secp_recover = (\<lambda>sig msg. if sig ! 64 = 28 then Some (msg @ msg) else None),
     keccak_256 = (\<lambda>m. take 32 (m @ replicate 32 7)),
     sha2_256 = (\<lambda>m. take 32 (m @ replicate 32 1)),
     ripemd160_digest = (\<lambda>m. take 20 (m @ replicate 20 2)),
     sha3_v256 = (\<lambda>m. take 32 (m @ replicate 32 3)),
     sha3_v512 = (\<lambda>m. take 64 (m @ replicate 64 4)),
     ed_public_key = (\<lambda>b. Some ()),
     ed_signature = (\<lambda>b. Some ()),
     ed_verify = (\<lambda>pk m s. True)\<rparr>"

lemma sample_crypto_ok: "crypto_lib_ok sample_crypto"
  by (auto simp: crypto_lib_ok_def sample_crypto_def min_def)

theorem ecrecover_correct_witness:
  "case ecrecover_execute sample_crypto (replicate 63 5 @ [28]) 0 of
     Ok (st, out) \<Rightarrow> st = Returned \<and> length out = 32 \<and> take 12 out = replicate 12 0
   | Err e \<Rightarrow> e = OtherError ''Public key recover failed'' | Panic \<Rightarrow> False"
  using ecrecover_correct [OF sample_crypto_ok, of "replicate 63 5 @ [28]" 0]
  by (auto split: res.splits)

theorem runtime_precompile_gas_witness:
  "precompile_set_execute (runtime_precompiles sample_crypto) 4 [1, 2] (Some 100)
     \<lparr>cx_address = 4, cx_caller = 0, cx_apparent_value = 0\<rparr> = Some (Ok (Returned, [1, 2], 18)) \<and>
   (18 :: u64) \<le> 100"
proof -
  have n: "(runtime_precompiles sample_crypto ! (unat (4 :: h160) - 1)) = Identity"
    by (simp add: runtime_precompiles_def)
  have "Identity [1, 2] (Some 100) \<lparr>cx_address = 4, cx_caller = 0, cx_apparent_value = 0\<rparr> =
      Ok (Returned, [1, 2], 18)"
    by (simp add: Identity_def identity.execute_Ok identity_execute_def linear_price_def)
  then have e: "precompile_set_execute (runtime_precompiles sample_crypto) 4 [1, 2] (Some 100)
     \<lparr>cx_address = 4, cx_caller = 0, cx_apparent_value = 0\<rparr> = Some (Ok (Returned, [1, 2], 18))"
    by (simp only: runtime_precompile_set n) simp
  show ?thesis using e runtime_precompile_gas [OF e] by simp
qed

end
