(* ===== verification/Precompile_Modexp.thy ===== *)
theory Precompile_Modexp
  imports Precompile
begin

text \<open>
  \<open>frame/evm/precompile/modexp\<close>: modular exponentiation on numbers of up to 1024 bytes.
  The arbitrary-precision numbers of the \<open>num\<close> crate are the parameter \<open>biguint_lib\<close>;
  \<open>biguint_ok\<close> states what its documentation promises, through the natural number each
  of its values stands for. For a modulus that is not empty the body is shown equal to a
  reference on natural numbers; the case of an empty modulus is stated on its own.
\<close>

section \<open>Numbers\<close>

record 'b biguint_lib =
  big_from_u32 :: "u32 \<Rightarrow> 'b option"
  big_from_bytes_be :: "bytes \<Rightarrow> 'b"
  big_to_bytes_be :: "'b \<Rightarrow> bytes"
  big_to_usize :: "'b \<Rightarrow> nat option"
  big_gt :: "'b \<Rightarrow> 'b \<Rightarrow> bool"
  big_zero :: 'b
  big_is_zero :: "'b \<Rightarrow> bool"
  big_is_one :: "'b \<Rightarrow> bool"
  big_modpow :: "'b \<Rightarrow> 'b \<Rightarrow> 'b \<Rightarrow> 'b"

definition biguint_ok :: "'b biguint_lib \<Rightarrow> ('b \<Rightarrow> nat) \<Rightarrow> bool" where
  "biguint_ok B v \<longleftrightarrow>
     (\<forall>n. \<exists>b. big_from_u32 B n = Some b \<and> v b = unat n) \<and>
     (\<forall>bs. v (big_from_bytes_be B bs) = be_val bs) \<and>
     (\<forall>b. be_val (big_to_bytes_be B b) = v b \<and>
        (if v b = 0 then big_to_bytes_be B b = [0]
         else big_to_bytes_be B b \<noteq> [] \<and> hd (big_to_bytes_be B b) \<noteq> 0)) \<and>
     (\<forall>b. big_to_usize B b = (if v b < 2 ^ 64 then Some (v b) else None)) \<and>
     (\<forall>a b. big_gt B a b \<longleftrightarrow> v a > v b) \<and>
     v (big_zero B) = 0 \<and>
     (\<forall>b. big_is_zero B b \<longleftrightarrow> v b = 0) \<and>
     (\<forall>b. big_is_one B b \<longleftrightarrow> v b = 1) \<and>
     (\<forall>b e m. v m \<noteq> 0 \<longrightarrow> v (big_modpow B b e m) = v b ^ v e mod v m)"

section \<open>The precompile\<close>

definition modexp_pad :: "nat \<Rightarrow> bytes \<Rightarrow> (exit_error, exit_succeed \<times> bytes) res" where
  "modexp_pad mod_len bs =
     (if length bs = mod_len then Ok (Returned, bs)
      else if length bs < mod_len then Ok (Returned, replicate (mod_len - length bs) 0 @ bs)
      else Err (OtherError ''failed''))"

definition modexp_number ::
  "'b biguint_lib \<Rightarrow> bytes \<Rightarrow> nat \<Rightarrow> nat \<Rightarrow> nat \<Rightarrow> (exit_error, 'b) res" where
  "modexp_number B input base_len exp_len mod_len =
     (if base_len = 0 \<and> mod_len = 0 then Ok (big_zero B)
      else
        let base_start = 96 in
        res_bind (slice input base_start (base_start + base_len)) (\<lambda>base_bytes.
        let base = big_from_bytes_be B base_bytes; exp_start = base_start + base_len in
        res_bind (slice input exp_start (exp_start + exp_len)) (\<lambda>exp_bytes.
        let exponent = big_from_bytes_be B exp_bytes; mod_start = exp_start + exp_len in
        res_bind (slice input mod_start (mod_start + mod_len)) (\<lambda>mod_bytes.
        let modulus = big_from_bytes_be B mod_bytes in
        if big_is_zero B modulus \<or> big_is_one B modulus then Ok (big_zero B)
        else Ok (big_modpow B base exponent modulus)))))"

definition modexp_execute :: "'b biguint_lib \<Rightarrow> linear_body" where
  "modexp_execute B input c =
     (if length input < 96 then Err (OtherError ''input must contain at least 96 bytes'')
      else
        res_bind (unwrap (big_from_u32 B 1024)) (\<lambda>max_size_big.
        res_bind (slice input 0 32) (\<lambda>buf0. res_bind (copy_from_slice 32 buf0) (\<lambda>buf0.
        let base_len_big = big_from_bytes_be B buf0 in
        if big_gt B base_len_big max_size_big
        then Err (OtherError ''unreasonably large base length'')
        else
        res_bind (slice input 32 64) (\<lambda>buf1. res_bind (copy_from_slice 32 buf1) (\<lambda>buf1.
        let exp_len_big = big_from_bytes_be B buf1 in
        if big_gt B exp_len_big max_size_big
        then Err (OtherError ''unreasonably large exponent length'')
        else
        res_bind (slice input 64 96) (\<lambda>buf2. res_bind (copy_from_slice 32 buf2) (\<lambda>buf2.
        let mod_len_big = big_from_bytes_be B buf2 in
        if big_gt B mod_len_big max_size_big
        then Err (OtherError ''unreasonably large exponent length'')
        else
        res_bind (unwrap (big_to_usize B base_len_big)) (\<lambda>base_len.
        res_bind (unwrap (big_to_usize B exp_len_big)) (\<lambda>exp_len.
        res_bind (unwrap (big_to_usize B mod_len_big)) (\<lambda>mod_len.
        let total_len = base_len + exp_len + mod_len + 96 in
        if length input < total_len then Err (OtherError ''insufficient input size'')
        else
        res_bind (modexp_number B input base_len exp_len mod_len)
          (\<lambda>r. modexp_pad mod_len (big_to_bytes_be B r)))))))))))))"

definition Modexp :: "'b biguint_lib \<Rightarrow> precompile" where
  "Modexp B = linear_execute 15 3 (modexp_execute B)"

interpretation modexp: linear_cost 15 3 "modexp_execute B" for B
  by unfold_locales (simp add: modexp_execute_def)

section \<open>The reference\<close>

text \<open>The result has as many bytes as the modulus.\<close>

definition field :: "bytes \<Rightarrow> nat \<Rightarrow> nat \<Rightarrow> nat" where
  "field input start len = be_val (take len (drop start input))"

definition modexp_spec :: "bytes \<Rightarrow> (exit_error, exit_succeed \<times> bytes) res" where
  "modexp_spec input =
     (let bl = field input 0 32; el = field input 32 32; ml = field input 64 32;
          b = field input 96 bl; e = field input (96 + bl) el; m = field input (96 + bl + el) ml in
      if length input < 96 then Err (OtherError ''input must contain at least 96 bytes'')
      else if bl > 1024 then Err (OtherError ''unreasonably large base length'')
      else if el > 1024 \<or> ml > 1024 then Err (OtherError ''unreasonably large exponent length'')
      else if length input < bl + el + ml + 96 then Err (OtherError ''insufficient input size'')
      else Ok (Returned, be_bytes ml (if m = 0 then 0 else b ^ e mod m)))"

lemma modexp_pad_eq:
  assumes ok: "biguint_ok B v" and r: "v r < 256 ^ ml"
  shows "modexp_pad ml (big_to_bytes_be B r) =
    (if ml = 0 then Err (OtherError ''failed'') else Ok (Returned, be_bytes ml (v r)))"
proof -
  let ?bs = "big_to_bytes_be B r"
  have val: "be_val ?bs = v r" and ne: "?bs \<noteq> []"
    and z: "v r = 0 \<Longrightarrow> ?bs = [0]" and hd: "v r \<noteq> 0 \<Longrightarrow> hd ?bs \<noteq> 0"
    using ok by (auto simp: biguint_ok_def split: if_splits)
  show ?thesis
  proof (cases "ml = 0")
    case True
    then show ?thesis using ne by (simp add: modexp_pad_def)
  next
    case False
    have len: "length ?bs \<le> ml"
    proof (cases "v r = 0")
      case True
      then show ?thesis using z False by simp
    next
      case nz: False
      have "256 ^ (length ?bs - 1) \<le> be_val ?bs" by (rule be_val_head_bound [OF ne hd [OF nz]])
      then have "(256 :: nat) ^ (length ?bs - 1) < 256 ^ ml" using val r by linarith
      then show ?thesis by (simp add: power_strict_increasing_iff)
    qed
    have "be_bytes ml (v r) = replicate (ml - length ?bs) 0 @ ?bs"
      using be_bytes_pad [OF len] val by simp
    then show ?thesis using len False by (auto simp: modexp_pad_def)
  qed
qed

text \<open>The number the body computes before padding, on inputs that pass its checks.\<close>

lemma field_bound: "field input start len < 256 ^ len"
proof -
  have "field input start len < 256 ^ length (take len (drop start input))"
    unfolding field_def by (rule be_val_bound)
  also have "\<dots> \<le> 256 ^ len" by (rule power_increasing) simp_all
  finally show ?thesis .
qed

lemma modexp_number_eq:
  assumes ok: "biguint_ok B v" and len: "bl + el + ml + 96 \<le> length input"
  obtains r where "modexp_number B input bl el ml = Ok r"
    "v r = (if field input (96 + bl + el) ml = 0 then 0
      else field input 96 bl ^ field input (96 + bl) el mod field input (96 + bl + el) ml)"
proof -
  have fb: "v (big_from_bytes_be B bs) = be_val bs" for bs using ok by (simp add: biguint_ok_def)
  have z: "v (big_zero B) = 0" using ok by (simp add: biguint_ok_def)
  have mp: "v m \<noteq> 0 \<Longrightarrow> v (big_modpow B b e m) = v b ^ v e mod v m" for b e m
    using ok by (simp add: biguint_ok_def)
  have t: "big_is_zero B b \<longleftrightarrow> v b = 0" "big_is_one B b \<longleftrightarrow> v b = 1" for b
    using ok by (simp_all add: biguint_ok_def)
  have "\<exists>r. modexp_number B input bl el ml = Ok r \<and>
    v r = (if field input (96 + bl + el) ml = 0 then 0
      else field input 96 bl ^ field input (96 + bl) el mod field input (96 + bl + el) ml)"
    using len by (auto simp: modexp_number_def Let_def field_def fb z mp t be_val_def)
  then show thesis using that by blast
qed

lemma modexp_execute_eq:
  assumes ok: "biguint_ok B v"
  shows "modexp_execute B input c =
    (if field input 64 32 = 0 \<and> (\<exists>out. modexp_spec input = Ok out) then Err (OtherError ''failed'')
     else modexp_spec input)"
proof (cases "length input < 96")
  case True
  then show ?thesis by (simp add: modexp_execute_def modexp_spec_def Let_def)
next
  case long: False
  let ?bl = "field input 0 32" and ?el = "field input 32 32" and ?ml = "field input 64 32"
  have "unat (1024 :: u32) = 1024" by simp
  moreover have "\<forall>n. \<exists>b. big_from_u32 B n = Some b \<and> v b = unat n"
    using ok unfolding biguint_ok_def by (rule conjunct1)
  then obtain mx where "big_from_u32 B 1024 = Some mx" "v mx = unat (1024 :: u32)" by blast
  ultimately have mx: "big_from_u32 B 1024 = Some mx" "v mx = 1024" by simp_all
  have fb: "v (big_from_bytes_be B bs) = be_val bs" for bs using ok by (simp add: biguint_ok_def)
  have gt: "big_gt B a b \<longleftrightarrow> v a > v b" for a b using ok by (simp add: biguint_ok_def)
  have us: "big_to_usize B b = (if v b < 2 ^ 64 then Some (v b) else None)" for b
    using ok by (simp add: biguint_ok_def)
  show ?thesis
  proof (cases "?bl \<le> 1024 \<and> ?el \<le> 1024 \<and> ?ml \<le> 1024 \<and> ?bl + ?el + ?ml + 96 \<le> length input")
    case False
    then show ?thesis
      using long mx by (auto simp: modexp_execute_def modexp_spec_def Let_def gt fb us field_def)
  next
    case True
    obtain r where r: "modexp_number B input ?bl ?el ?ml = Ok r"
      "v r = (if field input (96 + ?bl + ?el) ?ml = 0 then 0
        else field input 96 ?bl ^ field input (96 + ?bl) ?el mod field input (96 + ?bl + ?el) ?ml)"
      using modexp_number_eq [OF ok, of ?bl ?el ?ml input] True by blast
    have "v r < 256 ^ ?ml"
    proof (cases "field input (96 + ?bl + ?el) ?ml = 0")
      case False
      then have "v r < field input (96 + ?bl + ?el) ?ml" using r by simp
      then show ?thesis using field_bound [of input "96 + ?bl + ?el" ?ml] by linarith
    qed (use r in simp)
    note pad = modexp_pad_eq [OF ok this]
    have s: "slice input k (k + 32) = (Ok (take 32 (drop k input)) :: (exit_error, bytes) res)"
      "copy_from_slice 32 (take 32 (drop k input)) =
        (Ok (take 32 (drop k input)) :: (exit_error, bytes) res)" if "k \<le> 64" for k
      using long that by simp_all
    have "modexp_execute B input c =
        res_bind (modexp_number B input ?bl ?el ?ml) (\<lambda>r. modexp_pad ?ml (big_to_bytes_be B r))"
      using True long mx s [of 0] s [of 32] s [of 64]
      by (simp add: modexp_execute_def Let_def gt fb us field_def)
    also have "\<dots> = (if ?ml = 0 then Err (OtherError ''failed'') else modexp_spec input)"
      using True long r pad by (auto simp: modexp_spec_def Let_def)
    finally show ?thesis using True long by (simp add: modexp_spec_def Let_def)
  qed
qed

text \<open>
  C13: the modular exponentiation precompile computes what the reference on natural numbers says,
  for every input with a modulus of at least one byte and every input the reference rejects: the
  lengths are read as 32-byte big-endian numbers, each rejected above 1024; a short input is
  rejected; otherwise the result is \<open>base ^ exponent mod modulus\<close> (zero for a zero modulus),
  big-endian, in as many bytes as the modulus has. It panics on no input at all.
\<close>

theorem modexp_correct:
  assumes "biguint_ok B v"
  shows "modexp_execute B input c \<noteq> Panic \<and>
    (field input 64 32 \<noteq> 0 \<or> (\<exists>e. modexp_spec input = Err e) \<longrightarrow>
       modexp_execute B input c = modexp_spec input)"
  using modexp_execute_eq [OF assms, of input c]
  by (auto simp: modexp_spec_def Let_def split: if_splits)

text \<open>
  An empty modulus: any input that passes the checks is answered by an error, because the number
  zero has one byte and none fits. A result as long as the modulus would be the empty string; the
  comment in the source speaks of an output of length 1.
\<close>

theorem modexp_empty_modulus:
  assumes "biguint_ok B v" and "96 \<le> length input" and "field input 64 32 = 0"
    and "field input 0 32 \<le> 1024" and "field input 32 32 \<le> 1024"
    and "96 + field input 0 32 + field input 32 32 \<le> length input"
  shows "modexp_execute B input c = Err (OtherError ''failed'')"
  using assms(2-) modexp_execute_eq [OF assms(1), of input c]
  by (auto simp: modexp_spec_def Let_def split: if_splits)

section \<open>Witness\<close>

text \<open>Natural numbers as the instance; their bytes are stripped of leading zeros.\<close>

fun strip_zeros :: "bytes \<Rightarrow> bytes" where
  "strip_zeros [] = [0]"
| "strip_zeros [b] = [b]"
| "strip_zeros (b # b' # bs) = (if b = 0 then strip_zeros (b' # bs) else b # b' # bs)"

definition nat_biguint :: "nat biguint_lib" where
  "nat_biguint = \<lparr>
     big_from_u32 = (\<lambda>n. Some (unat n)),
     big_from_bytes_be = be_val,
     big_to_bytes_be = (\<lambda>n. strip_zeros (be_bytes (Suc n) n)),
     big_to_usize = (\<lambda>n. if n < 2 ^ 64 then Some n else None),
     big_gt = (\<lambda>a b. a > b),
     big_zero = 0,
     big_is_zero = (\<lambda>n. n = 0),
     big_is_one = (\<lambda>n. n = 1),
     big_modpow = (\<lambda>b e m. b ^ e mod m)\<rparr>"

lemma be_val_strip_zeros: "be_val (strip_zeros bs) = be_val bs"
  by (induction bs rule: strip_zeros.induct) (auto simp: be_val_def le_val_append)

lemma strip_zeros_form: "strip_zeros bs \<noteq> [] \<and> (hd (strip_zeros bs) \<noteq> 0 \<or> strip_zeros bs = [0])"
  by (induction bs rule: strip_zeros.induct) auto

lemma nat_biguint_ok: "biguint_ok nat_biguint (\<lambda>n. n)"
proof -
  have "n < 256 ^ Suc n" for n :: nat
    by (rule less_trans [OF lessI]) (rule less_exp [of "Suc n", THEN less_le_trans], rule power_mono, simp_all)
  then have v: "be_val (strip_zeros (be_bytes (Suc n) n)) = n" for n
    by (simp only: be_val_strip_zeros be_val_bytes mod_less)
  have f: "if n = 0 then strip_zeros (be_bytes (Suc n) n) = [0]
      else strip_zeros (be_bytes (Suc n) n) \<noteq> [] \<and> hd (strip_zeros (be_bytes (Suc n) n)) \<noteq> 0" for n
  proof (cases "n = 0")
    case True
    then show ?thesis by (simp add: be_bytes_def)
  next
    case False
    have "strip_zeros (be_bytes (Suc n) n) \<noteq> [0]"
    proof
      assume "strip_zeros (be_bytes (Suc n) n) = [0]"
      then have "n = be_val [0]" using v [of n] by simp
      then show False using False by (simp add: be_val_def)
    qed
    then show ?thesis using strip_zeros_form [of "be_bytes (Suc n) n"] False by auto
  qed
  show ?thesis using v f by (simp add: biguint_ok_def nat_biguint_def)
qed

theorem modexp_correct_witness:
  "modexp_execute nat_biguint
     (be_bytes 32 1 @ be_bytes 32 1 @ be_bytes 32 2 @ [3, 5, 0, 7]) 0 = Ok (Returned, [0, 5])"
proof -
  have "modexp_spec (be_bytes 32 1 @ be_bytes 32 1 @ be_bytes 32 2 @ [3, 5, 0, 7]) =
      Ok (Returned, [0, 5])"
    by code_simp
  moreover have "field (be_bytes 32 1 @ be_bytes 32 1 @ be_bytes 32 2 @ [3, 5, 0, 7]) 64 32 \<noteq> 0"
    by code_simp
  ultimately show ?thesis using modexp_correct [OF nat_biguint_ok] by simp
qed

theorem modexp_empty_modulus_witness:
  "modexp_execute nat_biguint (replicate 96 0) 0 = Err (OtherError ''failed'')"
proof -
  have "field (replicate 96 0) 64 32 = 0 \<and> field (replicate 96 0) 0 32 = 0 \<and>
      field (replicate 96 0) 32 32 = 0"
    by code_simp
  then show ?thesis using modexp_empty_modulus [OF nat_biguint_ok, of "replicate 96 0" 0] by simp
qed

end
