(* ===== verification/Blake2.thy ===== *)
theory Blake2
  imports Precompile
begin

unbundle bit_operations_syntax

text \<open>
  \<open>frame/evm/precompile/blake2\<close>: the BLAKE2b compression function (\<open>eip_152.rs\<close>) on
  64-bit words with wrap-around, and the precompile that parses its arguments. Each round is
  shown to be a permutation of the working vector, and the parser is shown to panic on every
  input of the accepted length.
\<close>

section \<open>Compression\<close>

definition BLAKE2_SIGMA :: "nat list list" where
  "BLAKE2_SIGMA = [
     [0, 1, 2, 3, 4, 5, 6, 7, 8, 9, 10, 11, 12, 13, 14, 15],
     [14, 10, 4, 8, 9, 15, 13, 6, 1, 12, 0, 2, 11, 7, 5, 3],
     [11, 8, 12, 0, 5, 2, 15, 13, 10, 14, 3, 6, 7, 1, 9, 4],
     [7, 9, 3, 1, 13, 12, 11, 14, 2, 6, 5, 10, 4, 0, 15, 8],
     [9, 0, 5, 7, 2, 4, 10, 15, 14, 1, 11, 12, 6, 8, 3, 13],
     [2, 12, 6, 10, 0, 11, 8, 3, 4, 13, 7, 5, 15, 14, 1, 9],
     [12, 5, 1, 15, 14, 13, 4, 10, 0, 7, 6, 3, 9, 2, 8, 11],
     [13, 11, 7, 14, 12, 1, 3, 9, 5, 0, 15, 4, 8, 6, 2, 10],
     [6, 15, 14, 9, 11, 3, 0, 8, 12, 2, 13, 7, 1, 4, 10, 5],
     [10, 2, 8, 4, 7, 6, 1, 5, 15, 11, 9, 14, 3, 12, 13, 0]]"

definition IV :: "u64 list" where
  "IV = [0x6a09e667f3bcc908, 0xbb67ae8584caa73b, 0x3c6ef372fe94f82b, 0xa54ff53a5f1d36f1,
         0x510e527fade682d1, 0x9b05688c2b3e6c1f, 0x1f83d9abfb41bd6b, 0x5be0cd19137e2179]"

definition g :: "u64 list \<Rightarrow> nat \<Rightarrow> nat \<Rightarrow> nat \<Rightarrow> nat \<Rightarrow> u64 \<Rightarrow> u64 \<Rightarrow> u64 list" where
  "g v a b c d x y =
     (let v = v[a := v ! a + v ! b + x];
          v = v[d := word_rotr 32 (v ! d XOR v ! a)];
          v = v[c := v ! c + v ! d];
          v = v[b := word_rotr 24 (v ! b XOR v ! c)];
          v = v[a := v ! a + v ! b + y];
          v = v[d := word_rotr 16 (v ! d XOR v ! a)];
          v = v[c := v ! c + v ! d];
          v = v[b := word_rotr 63 (v ! b XOR v ! c)]
      in v)"

definition compress_round :: "u64 list \<Rightarrow> nat \<Rightarrow> u64 list \<Rightarrow> u64 list" where
  "compress_round m i v =
     (let s = BLAKE2_SIGMA ! (i mod 10);
          v = g v 0 4 8 12 (m ! (s ! 0)) (m ! (s ! 1));
          v = g v 1 5 9 13 (m ! (s ! 2)) (m ! (s ! 3));
          v = g v 2 6 10 14 (m ! (s ! 4)) (m ! (s ! 5));
          v = g v 3 7 11 15 (m ! (s ! 6)) (m ! (s ! 7));
          v = g v 0 5 10 15 (m ! (s ! 8)) (m ! (s ! 9));
          v = g v 1 6 11 12 (m ! (s ! 10)) (m ! (s ! 11));
          v = g v 2 7 8 13 (m ! (s ! 12)) (m ! (s ! 13));
          v = g v 3 4 9 14 (m ! (s ! 14)) (m ! (s ! 15))
      in v)"

fun compress_rounds :: "u64 list \<Rightarrow> nat \<Rightarrow> nat \<Rightarrow> u64 list \<Rightarrow> u64 list" where
  "compress_rounds m i 0 v = v"
| "compress_rounds m i (Suc n) v = compress_rounds m (Suc i) n (compress_round m i v)"

definition compress_init :: "u64 list \<Rightarrow> u64 list \<Rightarrow> bool \<Rightarrow> u64 list" where
  "compress_init h t f =
     (let v = h @ IV;
          v = v[12 := v ! 12 XOR t ! 0];
          v = v[13 := v ! 13 XOR t ! 1]
      in if f then v[14 := NOT (v ! 14)] else v)"

definition compress :: "u64 list \<Rightarrow> u64 list \<Rightarrow> u64 list \<Rightarrow> bool \<Rightarrow> nat \<Rightarrow> u64 list" where
  "compress h m t f rounds =
     (let v = compress_rounds m 0 rounds (compress_init h t f) in
      map (\<lambda>i. h ! i XOR (v ! i XOR v ! (i + 8))) [0..<8])"

section \<open>The precompile\<close>

text \<open>The loop that reads the words of a buffer, with the ranges the source takes.\<close>

fun read_words :: "bytes \<Rightarrow> nat \<Rightarrow> nat \<Rightarrow> (exit_error, u64 list) res" where
  "read_words buf ctr 0 = Ok []"
| "read_words buf ctr (Suc n) =
     res_bind (slice buf (ctr + 8) ((ctr + 1) * 8)) (\<lambda>src.
     res_bind (copy_from_slice 8 src) (\<lambda>temp.
     res_bind (read_words buf (ctr + 1) n) (\<lambda>ws.
       Ok (word_of_nat (le_val temp) # ws))))"

definition blake2f_execute :: linear_body where
  "blake2f_execute input c =
     (if length input \<noteq> 213 then
        Err (OtherError ''input length for Blake2 F precompile should be exactly 213 bytes'')
      else
        res_bind (slice input 0 4) (\<lambda>s0. res_bind (copy_from_slice 4 s0) (\<lambda>rounds_buf.
        let rounds = (word_of_nat (le_val rounds_buf) :: u32) in
        res_bind (slice input 4 48) (\<lambda>s1. res_bind (copy_from_slice 64 s1) (\<lambda>h_buf.
        res_bind (read_words h_buf 0 8) (\<lambda>h.
        res_bind (slice input 68 196) (\<lambda>s2. res_bind (copy_from_slice 128 s2) (\<lambda>m_buf.
        res_bind (read_words m_buf 0 16) (\<lambda>m.
        res_bind (slice input 196 204) (\<lambda>s3. res_bind (copy_from_slice 8 s3) (\<lambda>t_0_buf.
        let t_0 = (word_of_nat (le_val t_0_buf) :: u64) in
        res_bind (slice input 204 212) (\<lambda>s4. res_bind (copy_from_slice 8 s4) (\<lambda>t_1_buf.
        let t_1 = (word_of_nat (le_val t_1_buf) :: u64) in
        res_bind (index_at input 212) (\<lambda>flag.
        res_bind (if flag = 1 then Ok True else if flag = 0 then Ok False
                  else Err (OtherError ''incorrect final block indicator flag'')) (\<lambda>f.
          let h' = compress h m [t_0, t_1] f (unat rounds) in
          Ok (Returned, concat (map (\<lambda>w. le_bytes 8 (unat w)) h')))))))))))))))))"

definition Blake2F :: precompile where
  "Blake2F = linear_execute 15 3 blake2f_execute"

interpretation blake2f: linear_cost 15 3 blake2f_execute
  by unfold_locales (simp add: blake2f_execute_def)

section \<open>Rounds are permutations\<close>

lemma length_g [simp]: "length (g v a b c d x y) = length v"
  by (simp add: g_def Let_def)

lemma length_compress_round [simp]: "length (compress_round m i v) = length v"
  by (simp add: compress_round_def Let_def)

lemma length_compress_rounds [simp]: "length (compress_rounds m i n v) = length v"
  by (induction n arbitrary: i v) auto

lemma word_rotr_inj: "word_rotr n a = word_rotr n b \<longleftrightarrow> a = b"
  by (metis word_rot_gal)

lemma word_xor_cancel: "a XOR c = b XOR c \<longleftrightarrow> a = b" for a b c :: "'n::len word"
  by (metis xor.assoc xor_self_eq xor.right_neutral)

text \<open>The two kinds of update \<open>g\<close> makes: each changes one word, reading one other.\<close>

definition add_step :: "nat \<Rightarrow> nat \<Rightarrow> u64 \<Rightarrow> u64 list \<Rightarrow> u64 list" where
  "add_step p q k v = v[p := v ! p + v ! q + k]"

definition xor_step :: "nat \<Rightarrow> nat \<Rightarrow> nat \<Rightarrow> u64 list \<Rightarrow> u64 list" where
  "xor_step p q n v = v[p := word_rotr n (v ! p XOR v ! q)]"

lemma length_steps [simp]:
  "length (add_step p q k v) = length v" "length (xor_step p q n v) = length v"
  by (simp_all add: add_step_def xor_step_def)

lemma g_steps:
  "g v a b c d x y =
     xor_step b c 63 (add_step c d 0 (xor_step d a 16 (add_step a b y
       (xor_step b c 24 (add_step c d 0 (xor_step d a 32 (add_step a b x v)))))))"
  by (simp add: g_def Let_def add_step_def xor_step_def)

lemma update_inj:
  assumes "length v = length v'" "p < length v" "q < length v" "p \<noteq> q"
    and eq: "v[p := f (v ! p) (v ! q)] = v'[p := f (v' ! p) (v' ! q)]"
    and f: "\<And>x y z. f x z = f y z \<Longrightarrow> x = y"
  shows "v = v'"
proof (rule nth_equalityI)
  have o: "v ! i = v' ! i" if "i \<noteq> p" for i
    using arg_cong [OF eq, of "\<lambda>l. l ! i"] that by simp
  have "f (v ! p) (v ! q) = f (v' ! p) (v' ! q)"
    using arg_cong [OF eq, of "\<lambda>l. l ! p"] assms(1-2) by simp
  then have "v ! p = v' ! p" using o [of q] f assms(4) by metis
  then show "v ! i = v' ! i" for i using o by (cases "i = p") auto
qed (use assms in simp)

lemma add_step_inj:
  "length v = length v' \<Longrightarrow> p < length v \<Longrightarrow> q < length v \<Longrightarrow> p \<noteq> q \<Longrightarrow>
     add_step p q k v = add_step p q k v' \<longleftrightarrow> v = v'"
  using update_inj [of v v' p q "\<lambda>x y. x + y + k"] by (auto simp: add_step_def)

lemma xor_step_inj:
  "length v = length v' \<Longrightarrow> p < length v \<Longrightarrow> q < length v \<Longrightarrow> p \<noteq> q \<Longrightarrow>
     xor_step p q n v = xor_step p q n v' \<longleftrightarrow> v = v'"
  using update_inj [of v v' p q "\<lambda>x y. word_rotr n (x XOR y)"]
  by (auto simp: xor_step_def word_rotr_inj word_xor_cancel)

lemma g_inj:
  "length v = 16 \<Longrightarrow> length v' = 16 \<Longrightarrow> distinct [a, b, c, d] \<Longrightarrow> a < 16 \<Longrightarrow> b < 16 \<Longrightarrow> c < 16 \<Longrightarrow>
     d < 16 \<Longrightarrow> g v a b c d x y = g v' a b c d x y \<longleftrightarrow> v = v'"
  by (simp add: g_steps add_step_inj xor_step_inj)

lemma compress_round_inj:
  "length v = 16 \<Longrightarrow> length v' = 16 \<Longrightarrow> compress_round m i v = compress_round m i v' \<longleftrightarrow> v = v'"
  by (simp add: compress_round_def Let_def g_inj)

lemma compress_rounds_inj:
  "length v = 16 \<Longrightarrow> length v' = 16 \<Longrightarrow>
     compress_rounds m i n v = compress_rounds m i n v' \<longleftrightarrow> v = v'"
  by (induction n arbitrary: i v v') (auto simp: compress_round_inj)

text \<open>Each row of the schedule is a permutation of the 16 message words.\<close>

lemma sigma_row_permutation: "i < 10 \<Longrightarrow> set (BLAKE2_SIGMA ! i) = {..<16} \<and> length (BLAKE2_SIGMA ! i) = 16"
proof -
  assume "i < 10"
  then have "i \<in> set [0..<10]" by simp
  moreover have "\<forall>i\<in>set [0..<10]. set (BLAKE2_SIGMA ! i) = set [0..<16] \<and> length (BLAKE2_SIGMA ! i) = 16"
    by code_simp
  ultimately show ?thesis by (auto simp: atLeast0LessThan)
qed

text \<open>
  The BLAKE2b rounds lose no information: for every message and every number of rounds the
  map on 16-word working vectors is injective, so two states that end equal started equal; and
  the compression function always yields eight words.
\<close>

theorem blake2_rounds_permutation:
  assumes "length v = 16" and "length v' = 16"
  shows "(compress_rounds m i n v = compress_rounds m i n v' \<longleftrightarrow> v = v') \<and>
    length (compress_rounds m i n v) = 16 \<and> length (compress h m t f n) = 8"
  using assms by (simp add: compress_rounds_inj compress_def Let_def)

theorem blake2_rounds_permutation_witness:
  "compress_rounds (replicate 16 3) 0 12 (replicate 16 0) \<noteq> compress_rounds (replicate 16 3) 0 12 (replicate 16 1)"
  using blake2_rounds_permutation [of "replicate 16 0" "replicate 16 1" "replicate 16 3" 0 12]
  by (simp add: replicate_eq_replicate)

section \<open>The parser\<close>

text \<open>
  C19: the precompile never returns a result. Inputs of other lengths are rejected, and an input of
  exactly 213 bytes makes the runtime panic: 44 bytes are copied into a buffer of 64. (Were
  that copy right, the first range the word loop takes has length 0, not 8.)
\<close>

theorem blake2f_never_returns:
  "blake2f_execute input c =
     (if length input = 213 then Panic
      else Err (OtherError ''input length for Blake2 F precompile should be exactly 213 bytes'')) \<and>
   read_words buf 0 8 = Panic"
proof -
  have "read_words buf 0 8 = Panic"
    by (simp add: numeral_eq_Suc slice_def copy_from_slice_def)
  then show ?thesis by (simp add: blake2f_execute_def copy_from_slice_def)
qed

end
