(* ===== verification/Precompile_Bn128.thy ===== *)
theory Precompile_Bn128
  imports Precompile
begin

text \<open>
  \<open>frame/evm/precompile/bn128\<close>: addition, scalar multiplication and pairing on the curve of
  the \<open>bn\<close> crate. The crate is the parameter \<open>bn_lib\<close>: its field elements, points and the
  group operations; the only laws used are the lengths its encoders document. The parsing of
  the inputs, their ranges, error messages and panics, is the code's own and is modelled here.
\<close>

section \<open>The curve library\<close>

record ('fq, 'fr, 'fq2, 'g1, 'g2, 'gt) bn_lib =
  fr_from_slice :: "bytes \<Rightarrow> 'fr option"
  fq_from_slice :: "bytes \<Rightarrow> 'fq option"
  fq_is_zero :: "'fq \<Rightarrow> bool"
  fq_to_big_endian :: "'fq \<Rightarrow> bytes option"
  fq2_new :: "'fq \<Rightarrow> 'fq \<Rightarrow> 'fq2"
  fq2_is_zero :: "'fq2 \<Rightarrow> bool"
  g1_zero :: 'g1
  g1_affine :: "'fq \<Rightarrow> 'fq \<Rightarrow> 'g1 option"
  g1_from_jacobian :: "'g1 \<Rightarrow> ('fq \<times> 'fq) option"
  g1_add :: "'g1 \<Rightarrow> 'g1 \<Rightarrow> 'g1"
  g1_mul :: "'g1 \<Rightarrow> 'fr \<Rightarrow> 'g1"
  g2_zero :: 'g2
  g2_affine :: "'fq2 \<Rightarrow> 'fq2 \<Rightarrow> 'g2 option"
  pairing_batch :: "('g1 \<times> 'g2) list \<Rightarrow> 'gt"
  gt_one :: 'gt

text \<open>Writing a field element into 32 bytes succeeds.\<close>

definition bn_lib_ok :: "('fq, 'fr, 'fq2, 'g1, 'g2, 'gt) bn_lib \<Rightarrow> bool" where
  "bn_lib_ok L \<longleftrightarrow> (\<forall>x. \<exists>bs. fq_to_big_endian L x = Some bs \<and> length bs = 32)"

section \<open>Parsing\<close>

definition read_fr ::
  "('fq, 'fr, 'fq2, 'g1, 'g2, 'gt) bn_lib \<Rightarrow> bytes \<Rightarrow> nat \<Rightarrow> (exit_error, 'fr) res" where
  "read_fr L input start_inx =
     res_bind (slice input start_inx (start_inx + 32)) (\<lambda>bs.
       ok_or (fr_from_slice L bs) (OtherError ''Invalid field element''))"

definition read_point ::
  "('fq, 'fr, 'fq2, 'g1, 'g2, 'gt) bn_lib \<Rightarrow> bytes \<Rightarrow> nat \<Rightarrow> (exit_error, 'g1) res" where
  "read_point L input start_inx =
     res_bind (slice input start_inx (start_inx + 32)) (\<lambda>bx.
     res_bind (ok_or (fq_from_slice L bx) (OtherError ''Invalid point x coordinate'')) (\<lambda>px.
     res_bind (slice input (start_inx + 32) (start_inx + 64)) (\<lambda>by.
     res_bind (ok_or (fq_from_slice L by) (OtherError ''Invalid point y coordinate'')) (\<lambda>py.
       if fq_is_zero L px \<and> fq_is_zero L py then Ok (g1_zero L)
       else ok_or (g1_affine L px py) (OtherError ''Invalid curve point'')))))"

text \<open>The last part of \<open>Bn128Add\<close> and \<open>Bn128Mul\<close>: the affine coordinates, or zeros at infinity.\<close>

definition encode_point ::
  "('fq, 'fr, 'fq2, 'g1, 'g2, 'gt) bn_lib \<Rightarrow> 'g1 \<Rightarrow> (exit_error, exit_succeed \<times> bytes) res" where
  "encode_point L p =
     (case g1_from_jacobian L p of
        None \<Rightarrow> Ok (Returned, replicate 64 0)
      | Some (x, y) \<Rightarrow>
          res_bind (ok_or (fq_to_big_endian L x)
            (OtherError ''Cannot fail since 0..32 is 32-byte length'')) (\<lambda>bx.
          res_bind (ok_or (fq_to_big_endian L y)
            (OtherError ''Cannot fail since 32..64 is 32-byte length'')) (\<lambda>by.
            Ok (Returned, bx @ by))))"

definition bn128_add_execute :: "('fq, 'fr, 'fq2, 'g1, 'g2, 'gt) bn_lib \<Rightarrow> linear_body" where
  "bn128_add_execute L input c =
     res_bind (read_point L input 0) (\<lambda>p1.
     res_bind (read_point L input 64) (\<lambda>p2.
       encode_point L (g1_add L p1 p2)))"

definition bn128_mul_execute :: "('fq, 'fr, 'fq2, 'g1, 'g2, 'gt) bn_lib \<Rightarrow> linear_body" where
  "bn128_mul_execute L input c =
     res_bind (read_point L input 0) (\<lambda>p.
     res_bind (read_fr L input 64) (\<lambda>fr.
       encode_point L (g1_mul L p fr)))"

definition read_coordinate ::
  "('fq, 'fr, 'fq2, 'g1, 'g2, 'gt) bn_lib \<Rightarrow> bytes \<Rightarrow> nat \<Rightarrow> string \<Rightarrow> (exit_error, 'fq) res" where
  "read_coordinate L input start msg =
     res_bind (slice input start (start + 32)) (\<lambda>bs. ok_or (fq_from_slice L bs) (OtherError msg))"

definition read_pair ::
  "('fq, 'fr, 'fq2, 'g1, 'g2, 'gt) bn_lib \<Rightarrow> bytes \<Rightarrow> nat \<Rightarrow> (exit_error, 'g1 \<times> 'g2) res" where
  "read_pair L input idx =
     res_bind (read_coordinate L input (idx * 192) ''Invalid a argument x coordinate'') (\<lambda>a_x.
     res_bind (read_coordinate L input (idx * 192 + 32) ''Invalid a argument y coordinate'') (\<lambda>a_y.
     res_bind (read_coordinate L input (idx * 192 + 64)
       ''Invalid b argument imaginary coeff x coordinate'') (\<lambda>b_a_y.
     res_bind (read_coordinate L input (idx * 192 + 96)
       ''Invalid b argument imaginary coeff y coordinate'') (\<lambda>b_a_x.
     res_bind (read_coordinate L input (idx * 192 + 128)
       ''Invalid b argument real coeff x coordinate'') (\<lambda>b_b_y.
     res_bind (read_coordinate L input (idx * 192 + 160)
       ''Invalid b argument real coeff y coordinate'') (\<lambda>b_b_x.
     let b_a = fq2_new L b_a_x b_a_y; b_b = fq2_new L b_b_x b_b_y in
     res_bind (if fq2_is_zero L b_a \<and> fq2_is_zero L b_b then Ok (g2_zero L)
       else ok_or (g2_affine L b_a b_b) (OtherError ''Invalid b argument - not on curve'')) (\<lambda>b.
     res_bind (if fq_is_zero L a_x \<and> fq_is_zero L a_y then Ok (g1_zero L)
       else ok_or (g1_affine L a_x a_y) (OtherError ''Invalid a argument - not on curve'')) (\<lambda>a.
       Ok (a, b)))))))))"

fun read_pairs ::
  "('fq, 'fr, 'fq2, 'g1, 'g2, 'gt) bn_lib \<Rightarrow> bytes \<Rightarrow> nat \<Rightarrow> nat \<Rightarrow>
     (exit_error, ('g1 \<times> 'g2) list) res" where
  "read_pairs L input idx 0 = Ok []"
| "read_pairs L input idx (Suc n) =
     res_bind (read_pair L input idx) (\<lambda>p.
     res_bind (read_pairs L input (Suc idx) n) (\<lambda>ps.
       Ok (p # ps)))"

definition bn128_pairing_execute :: "('fq, 'fr, 'fq2, 'g1, 'g2, 'gt) bn_lib \<Rightarrow> linear_body" where
  "bn128_pairing_execute L input c =
     res_bind
       (if input = [] then Ok (1 :: u256)
        else
          let elements = length input div 192 in
          res_bind (read_pairs L input 0 elements) (\<lambda>vals.
            Ok (if pairing_batch L vals = gt_one L then 1 else 0)))
       (\<lambda>ret_val. Ok (Returned, be_bytes 32 (unat ret_val)))"

interpretation bn128_add: linear_cost 15 3 "bn128_add_execute L" for L
  by unfold_locales (simp add: bn128_add_execute_def)

interpretation bn128_mul: linear_cost 15 3 "bn128_mul_execute L" for L
  by unfold_locales (simp add: bn128_mul_execute_def)

interpretation bn128_pairing: linear_cost 15 3 "bn128_pairing_execute L" for L
  by unfold_locales (simp add: bn128_pairing_execute_def)

section \<open>Lengths and panics\<close>

lemma encode_point_Ok:
  assumes "bn_lib_ok L"
  shows "\<exists>out. encode_point L p = Ok (Returned, out) \<and> length out = 64"
proof (cases "g1_from_jacobian L p")
  case (Some xy)
  obtain x y where xy: "xy = (x, y)" by (cases xy)
  obtain bx by' where "fq_to_big_endian L x = Some bx" "fq_to_big_endian L y = Some by'"
    "length bx = 32" "length by' = 32"
    using assms unfolding bn_lib_ok_def by meson
  then show ?thesis using Some xy by (simp add: encode_point_def)
qed (simp add: encode_point_def)

lemma read_point_no_panic [simp]: "start + 64 \<le> length input \<Longrightarrow> read_point L input start \<noteq> Panic"
  by (auto simp: read_point_def res_bind_eq_Panic)

lemma read_fr_no_panic [simp]: "start + 32 \<le> length input \<Longrightarrow> read_fr L input start \<noteq> Panic"
  by (auto simp: read_fr_def res_bind_eq_Panic)

lemma read_point_short: "length input < start + 32 \<Longrightarrow> read_point L input start = Panic"
  by (simp add: read_point_def slice_Panic)

lemma read_coordinate_no_panic [simp]:
  "start + 32 \<le> length input \<Longrightarrow> read_coordinate L input start msg \<noteq> Panic"
  by (auto simp: read_coordinate_def res_bind_eq_Panic)

lemma read_coordinate_take:
  "start + 32 \<le> n \<Longrightarrow> n \<le> length input \<Longrightarrow>
     read_coordinate L (take n input) start msg = read_coordinate L input start msg"
  by (simp add: read_coordinate_def take_drop min_def)

lemma read_pair_no_panic: "idx * 192 + 192 \<le> length input \<Longrightarrow> read_pair L input idx \<noteq> Panic"
  by (auto simp: read_pair_def res_bind_eq_Panic Let_def split: if_splits)

lemma read_pair_take:
  "idx * 192 + 192 \<le> n \<Longrightarrow> n \<le> length input \<Longrightarrow> read_pair L (take n input) idx = read_pair L input idx"
  by (simp add: read_pair_def read_coordinate_take)

lemma read_pairs_no_panic:
  "(idx + n) * 192 \<le> length input \<Longrightarrow> read_pairs L input idx n \<noteq> Panic"
  by (induction n arbitrary: idx) (auto simp: res_bind_eq_Panic read_pair_no_panic)

lemma read_pairs_take:
  "(idx + n) * 192 \<le> k \<Longrightarrow> k \<le> length input \<Longrightarrow>
     read_pairs L (take k input) idx n = read_pairs L input idx n"
  by (induction n arbitrary: idx) (auto simp: read_pair_take)

text \<open>
  Addition on the curve. An input of at least 128 bytes never panics: it fails on an
  invalid point or returns the 64 bytes of the sum of the two points read. An input under 32
  bytes always panics, and so does one under 128 bytes whose first point is valid and whose
  second is cut before the end of its first coordinate: the source indexes without padding.
\<close>

theorem bn128_add_spec:
  assumes "bn_lib_ok L"
  shows "(128 \<le> length input \<longrightarrow> bn128_add_execute L input c \<noteq> Panic) \<and>
    (length input < 32 \<longrightarrow> bn128_add_execute L input c = Panic) \<and>
    (length input < 96 \<and> read_point L input 0 = Ok p1 \<longrightarrow> bn128_add_execute L input c = Panic) \<and>
    (read_point L input 0 = Ok p1 \<and> read_point L input 64 = Ok p2 \<longrightarrow>
      (\<exists>out. bn128_add_execute L input c = Ok (Returned, out) \<and> length out = 64 \<and>
        encode_point L (g1_add L p1 p2) = Ok (Returned, out)))"
proof -
  have e: "encode_point L p \<noteq> Panic" for p using encode_point_Ok [OF assms, of p] by auto
  show ?thesis
    using encode_point_Ok [OF assms, of "g1_add L p1 p2"] e
    by (auto simp: bn128_add_execute_def res_bind_eq_Panic read_point_short)
qed

text \<open>
  Pairing never panics, returns 32 bytes that read as 0 or 1 when it succeeds, and ignores a
  trailing part of the input shorter than one element.
\<close>

theorem bn128_pairing_spec:
  "bn128_pairing_execute L input c \<noteq> Panic \<and>
   (case bn128_pairing_execute L input c of
      Ok (st, out) \<Rightarrow> st = Returned \<and> length out = 32 \<and> be_val out \<in> {0, 1} | _ \<Rightarrow> True) \<and>
   (if 192 \<le> length input
    then bn128_pairing_execute L input c =
      bn128_pairing_execute L (take (length input div 192 * 192) input) c
    else True)"
proof -
  let ?n = "length input div 192"
  have n: "(0 + ?n) * 192 \<le> length input" by simp
  have "be_val (be_bytes 32 (Suc 0)) = 1" "be_val (be_bytes 32 0) = 0"
    by (simp_all add: be_val_bytes)
  moreover have "take (?n * 192) input \<noteq> []" if "192 \<le> length input"
    using that div_le_mono [OF that, of 192] by auto
  moreover have "read_pairs L (take (?n * 192) input) 0 ?n = read_pairs L input 0 ?n"
    using read_pairs_take [of 0 ?n "?n * 192" input L] by simp
  ultimately show ?thesis
    using read_pairs_no_panic [OF n, of L]
    by (auto simp: bn128_pairing_execute_def Let_def res_bind_eq_Panic min_absorb2 split: res.splits)
qed

section \<open>Witness\<close>

text \<open>A one-point library: every element is valid and writes 32 zeros.\<close>

definition unit_bn :: "(unit, unit, unit, unit, unit, unit) bn_lib" where
  "unit_bn = \<lparr> fr_from_slice = (\<lambda>_. Some ()), fq_from_slice = (\<lambda>_. Some ()), fq_is_zero = (\<lambda>_. True),
     fq_to_big_endian = (\<lambda>_. Some (replicate 32 0)), fq2_new = (\<lambda>_ _. ()), fq2_is_zero = (\<lambda>_. True),
     g1_zero = (), g1_affine = (\<lambda>_ _. Some ()), g1_from_jacobian = (\<lambda>_. Some ((), ())),
     g1_add = (\<lambda>_ _. ()), g1_mul = (\<lambda>_ _. ()), g2_zero = (), g2_affine = (\<lambda>_ _. Some ()),
     pairing_batch = (\<lambda>_. ()), gt_one = () \<rparr>"

lemma unit_bn_ok: "bn_lib_ok unit_bn"
  by (simp add: bn_lib_ok_def unit_bn_def)

theorem bn128_add_spec_witness:
  "bn128_add_execute unit_bn (replicate 64 0) 0 = Panic \<and>
   bn128_add_execute unit_bn (replicate 128 0) 0 \<noteq> Panic"
proof -
  have "read_point unit_bn (replicate 64 0) 0 = Ok ()"
    by (simp add: read_point_def unit_bn_def)
  then show ?thesis
    using bn128_add_spec [OF unit_bn_ok, of "replicate 64 0" 0 "()" "()"]
      bn128_add_spec [OF unit_bn_ok, of "replicate 128 0" 0 "()" "()"] by simp
qed

end
