(* ===== verification/Precompile_Dispatch.thy ===== *)
theory Precompile_Dispatch
  imports Precompile Origin
begin

text \<open>
  \<open>frame/evm/precompile/dispatch\<close>: the precompile that decodes its input as a runtime call
  and dispatches it for the caller. The runtime's calls (their decoder, dispatch information
  and dispatcher) are parameters; the dispatcher acts on the chain state.
\<close>

datatype dispatch_class = Normal | Operational | Mandatory

record dispatch_info =
  di_weight :: u64
  di_class :: dispatch_class
  di_pays_fee :: pays

record ('call, 'acct, 's) call_lib =
  call_decode :: "bytes \<Rightarrow> 'call option"
  call_info :: "'call \<Rightarrow> dispatch_info"
  call_dispatch :: "'call \<Rightarrow> 'acct \<Rightarrow> 's \<Rightarrow> (dispatch_error, post_dispatch_info) res \<times> 's"
  gas_to_weight :: "u64 \<Rightarrow> u64"
  weight_to_gas :: "u64 \<Rightarrow> u64"
  into_account_id :: "h160 \<Rightarrow> 'acct"

definition dispatch_execute ::
  "('call, 'acct, 's) call_lib \<Rightarrow> bytes \<Rightarrow> u64 option \<Rightarrow> call_context \<Rightarrow>
     ('s, exit_error, exit_succeed \<times> bytes \<times> u64) act" where
  "dispatch_execute L input target_gas ctx =
     act_bind (act_lift (ok_or (call_decode L input) (OtherError ''decode failed''))) (\<lambda>call.
     let info = call_info L call;
         valid_call = (di_pays_fee info = Pays_Yes \<and> di_class info = Normal) in
     act_bind (ensure valid_call (OtherError ''invalid call'')) (\<lambda>_.
     act_bind (case target_gas of
         Some gas \<Rightarrow> ensure (di_weight info \<le> gas_to_weight L gas) OutOfGas
       | None \<Rightarrow> act_return ()) (\<lambda>_.
     let origin = into_account_id L (cx_caller ctx) in
     (\<lambda>s. case call_dispatch L call origin s of
        (Ok post_info, s') \<Rightarrow>
          let cost = weight_to_gas L (case pd_actual_weight post_info of Some w \<Rightarrow> w | None \<Rightarrow> di_weight info) in
          (Ok (Stopped, [], cost), s')
      | (Err e, s') \<Rightarrow> (Err (OtherError ''dispatch execution failed''), s')
      | (Panic, s') \<Rightarrow> (Panic, s')))))"

lemmas dispatch_execute_simps = dispatch_execute_def act_simps act_bind_def ensure_def Let_def

text \<open>
  The dispatch precompile runs a call only if it decodes, pays fees, is of the normal class
  and has a declared weight within the gas target; the call then runs with the account mapped
  from the EVM caller as its signed origin. Every rejection before that leaves the chain state
  as it was, and the gas reported on success is that of the actual weight when the call returns
  one and of the declared weight otherwise.
\<close>

theorem dispatch_execute_spec:
  "dispatch_execute L input target ctx s =
     (case call_decode L input of
        None \<Rightarrow> (Err (OtherError ''decode failed''), s)
      | Some call \<Rightarrow>
          (let info = call_info L call in
           if \<not> (di_pays_fee info = Pays_Yes \<and> di_class info = Normal)
           then (Err (OtherError ''invalid call''), s)
           else if \<exists>g. target = Some g \<and> gas_to_weight L g < di_weight info then (Err OutOfGas, s)
           else
             (let (r, s') = call_dispatch L call (into_account_id L (cx_caller ctx)) s in
              (case r of
                 Ok post \<Rightarrow> Ok (Stopped, [], weight_to_gas L
                   (if pd_actual_weight post = None then di_weight info
                    else the (pd_actual_weight post)))
               | Err e \<Rightarrow> Err (OtherError ''dispatch execution failed'')
               | Panic \<Rightarrow> Panic, s'))))"
  by (auto simp: dispatch_execute_simps not_le
      split: option.splits res.splits prod.splits)

end
