(* ===== verification/Evm_Pallet.thy ===== *)
theory Evm_Pallet
  imports Eth_Types Origin
begin

text \<open>
  \<open>frame/evm/src/lib.rs\<close>: the EVM pallet. Its storage (\<open>AccountCodes\<close>,
  \<open>AccountStorages\<close>), the events it deposits and the state of the pallets it calls form
  the record \<open>evm_store\<close>. The system, currency and timestamp pallets are outside the
  repository: they are the functions of \<open>host_api\<close> on an opaque state \<open>'h\<close>, and
  \<open>currency_ok\<close> and \<open>consumers_ok\<close> state what their documentation promises. The
  runtime's configuration (\<open>Config\<close>) is the record \<open>evm_cfg\<close>. The host's storage with
  its nested transactions (\<open>sp_io::storage\<close>) is \<open>storage_api\<close>: the pallet's operations
  read and write the current view of it.
\<close>

section \<open>The pallets and host functions called\<close>

record ('acct, 'h, 'neg, 'pos) host_api =
  account_nonce :: "'acct \<Rightarrow> 'h \<Rightarrow> u32"
  inc_account_nonce :: "'acct \<Rightarrow> 'h \<Rightarrow> 'h"
  inc_consumers :: "'acct \<Rightarrow> ('h, dispatch_error, unit) act"
  dec_consumers :: "'acct \<Rightarrow> 'h \<Rightarrow> 'h"
  free_balance :: "'acct \<Rightarrow> 'h \<Rightarrow> u128"
  currency_transfer :: "'acct \<Rightarrow> 'acct \<Rightarrow> u128 \<Rightarrow> ('h, dispatch_error, unit) act"
  currency_withdraw :: "'acct \<Rightarrow> u128 \<Rightarrow> ('h, dispatch_error, 'neg) act"
  deposit_into_existing :: "'acct \<Rightarrow> u128 \<Rightarrow> ('h, dispatch_error, 'pos) act"
  deposit_creating :: "'acct \<Rightarrow> u128 \<Rightarrow> 'h \<Rightarrow> 'h"
  neg_peek :: "'neg \<Rightarrow> u128"
  pos_zero :: 'pos
  neg_offset :: "'neg \<Rightarrow> 'pos \<Rightarrow> 'neg option"
  on_unbalanced :: "'neg \<Rightarrow> 'h \<Rightarrow> 'h"
  sys_block_number :: "'h \<Rightarrow> u32"
  sys_block_hash :: "u32 \<Rightarrow> 'h \<Rightarrow> h256"
  timestamp_get :: "'h \<Rightarrow> u64"

text \<open>
  The \<open>Currency\<close> contract. A withdrawal that succeeds yields an imbalance of exactly the
  amount and takes it from the account; where \<open>AllowDeath\<close> lets the rest fall below the
  existential deposit, the account is reaped and the rest goes as dust. A deposit that succeeds
  adds exactly the amount. One that fails changes nothing. An imbalance can be offset by one
  that is not larger.
\<close>

definition currency_ok :: "('acct, 'h, 'neg, 'pos) host_api \<Rightarrow> ('pos \<Rightarrow> u128) \<Rightarrow> bool" where
  "currency_ok H pos_peek \<longleftrightarrow>
     (\<forall>a x h r h'. currency_withdraw H a x h = (r, h') \<longrightarrow>
        (case r of
           Ok n \<Rightarrow> neg_peek H n = x \<and>
             (unat (free_balance H a h) = unat (free_balance H a h') + unat x \<or>
              free_balance H a h' = 0 \<and> unat x \<le> unat (free_balance H a h))
         | Err e \<Rightarrow> h' = h
         | Panic \<Rightarrow> False)) \<and>
     (\<forall>a x h r h'. deposit_into_existing H a x h = (r, h') \<longrightarrow>
        (case r of
           Ok p \<Rightarrow> pos_peek p = x \<and>
             unat (free_balance H a h') = unat (free_balance H a h) + unat x
         | Err e \<Rightarrow> h' = h
         | Panic \<Rightarrow> False)) \<and>
     pos_peek (pos_zero H) = 0 \<and>
     (\<forall>n p. if pos_peek p \<le> neg_peek H n
        then \<exists>n'. neg_offset H n p = Some n' \<and> neg_peek H n' = neg_peek H n - pos_peek p
        else neg_offset H n p = None)"

text \<open>
  Consumer references, a saturating 32-bit count. \<open>inc_consumers\<close> adds one to an account that
  has a provider; without a provider it returns an error and changes nothing. \<open>dec_consumers\<close>
  takes one away, down to zero. Neither touches another account.
\<close>

definition consumers_ok ::
  "('acct, 'h, 'neg, 'pos) host_api \<Rightarrow> ('acct \<Rightarrow> 'h \<Rightarrow> nat) \<Rightarrow> ('acct \<Rightarrow> 'h \<Rightarrow> nat) \<Rightarrow> bool" where
  "consumers_ok H refs providers \<longleftrightarrow>
     (\<forall>a h. if 0 < providers a h
        then \<exists>h'. inc_consumers H a h = (Ok (), h') \<and>
          (\<forall>b. refs b h' = (if a = b then min (refs b h + 1) (2 ^ 32 - 1) else refs b h))
        else \<exists>e. inc_consumers H a h = (Err e, h)) \<and>
     (\<forall>a b h. refs b (dec_consumers H a h) = refs b h - (if a = b then 1 else 0))"

section \<open>Origins of calls\<close>

text \<open>
  \<open>into_raw\<close> is the conversion \<open>OuterOrigin: Into<Result<RawOrigin, OuterOrigin>>\<close>,
  \<open>from_raw\<close> the conversion back.
\<close>

record ('acct, 'o) origin_api =
  into_raw :: "'o \<Rightarrow> ('o, 'acct raw_origin) res"
  from_raw :: "'acct raw_origin \<Rightarrow> 'o"

definition EnsureAddressSame_try ::
  "(h160, 'o) origin_api \<Rightarrow> h160 \<Rightarrow> 'o \<Rightarrow> ('o, h160) res" where
  "EnsureAddressSame_try Q address origin =
     res_bind (into_raw Q origin) (\<lambda>r.
       case r of
         Signed who \<Rightarrow> if who = address then Ok who else Err (from_raw Q r)
       | _ \<Rightarrow> Err (from_raw Q r))"

definition EnsureAddressRoot_try ::
  "('acct, 'o) origin_api \<Rightarrow> h160 \<Rightarrow> 'o \<Rightarrow> ('o, unit) res" where
  "EnsureAddressRoot_try Q address origin =
     res_bind (into_raw Q origin) (\<lambda>r. case r of Root \<Rightarrow> Ok () | _ \<Rightarrow> Err (from_raw Q r))"

definition EnsureAddressNever_try :: "h160 \<Rightarrow> 'o \<Rightarrow> ('o, 'acct) res" where
  "EnsureAddressNever_try address origin = Err origin"

text \<open>An \<open>AccountId32\<close> is a 256-bit word, its bytes in big-endian order.\<close>

definition EnsureAddressTruncated_try ::
  "(h256, 'o) origin_api \<Rightarrow> h160 \<Rightarrow> 'o \<Rightarrow> ('o, h256) res" where
  "EnsureAddressTruncated_try Q address origin =
     res_bind (into_raw Q origin) (\<lambda>r.
       case r of
         Signed who \<Rightarrow>
           if take 20 (h256_bytes who) = take 20 (h160_bytes address) then Ok who
           else Err (from_raw Q r)
       | _ \<Rightarrow> Err (from_raw Q r))"

definition ensure_address_origin ::
  "(h160 \<Rightarrow> 'o \<Rightarrow> ('o, 'succ) res) \<Rightarrow> h160 \<Rightarrow> 'o \<Rightarrow> (dispatch_error, 'succ) res" where
  "ensure_address_origin try_address_origin address origin =
     map_err (\<lambda>_. BadOrigin) (try_address_origin address origin)"

definition IdentityAddressMapping :: "h160 \<Rightarrow> h160" where
  "IdentityAddressMapping address = address"

text \<open>The bytes hashed are \<open>b"evm:"\<close> and the address.\<close>

definition HashedAddressMapping :: "(bytes \<Rightarrow> h256) \<Rightarrow> h160 \<Rightarrow> h256" where
  "HashedAddressMapping hash address =
     (let data = [0x65, 0x76, 0x6d, 0x3a] @ h160_bytes address in hash data)"

definition unit_gas_to_weight :: "u64 \<Rightarrow> u64" where
  "unit_gas_to_weight gas = gas"

definition unit_weight_to_gas :: "u64 \<Rightarrow> u64" where
  "unit_weight_to_gas weight = weight"

definition unit_min_gas_price :: u256 where
  "unit_min_gas_price = 0"

section \<open>Storage\<close>

datatype 'acct evm_event =
    Event_Log eth_log
  | Event_Created h160
  | Event_CreatedFailed h160
  | Event_Executed h160
  | Event_ExecutedFailed h160
  | Event_BalanceDeposit 'acct h160 u256
  | Event_BalanceWithdraw 'acct h160 u256

datatype evm_error =
    BalanceLow | FeeOverflow | PaymentOverflow | WithdrawFailed | GasPriceTooLow | InvalidNonce

fun evm_error_name :: "evm_error \<Rightarrow> string" where
  "evm_error_name BalanceLow = ''BalanceLow''"
| "evm_error_name FeeOverflow = ''FeeOverflow''"
| "evm_error_name PaymentOverflow = ''PaymentOverflow''"
| "evm_error_name WithdrawFailed = ''WithdrawFailed''"
| "evm_error_name GasPriceTooLow = ''GasPriceTooLow''"
| "evm_error_name InvalidNonce = ''InvalidNonce''"

record ('acct, 'h) evm_store =
  codes :: "h160 \<Rightarrow> bytes option"
  storages :: "h160 \<Rightarrow> h256 \<Rightarrow> h256 option"
  events :: "'acct evm_event list"
  host :: 'h

text \<open>
  The host's storage: \<open>view\<close> and \<open>set_view\<close> read and write it; the transactions nest.
  \<open>storage_api_ok A pending\<close> is the documented behaviour, where \<open>pending\<close> lists the
  views at the start of the transactions still open, innermost first.
\<close>

record ('v, 'c) storage_api =
  view :: "'c \<Rightarrow> 'v"
  set_view :: "'v \<Rightarrow> 'c \<Rightarrow> 'c"
  start_transaction :: "'c \<Rightarrow> 'c"
  commit_transaction :: "'c \<Rightarrow> 'c"
  rollback_transaction :: "'c \<Rightarrow> 'c"

definition storage_api_ok :: "('v, 'c) storage_api \<Rightarrow> ('c \<Rightarrow> 'v list) \<Rightarrow> bool" where
  "storage_api_ok A pending \<longleftrightarrow>
     (\<forall>v c. view A (set_view A v c) = v \<and> pending (set_view A v c) = pending c) \<and>
     (\<forall>c. view A (start_transaction A c) = view A c \<and>
          pending (start_transaction A c) = view A c # pending c) \<and>
     (\<forall>c v vs. pending c = v # vs \<longrightarrow>
          view A (commit_transaction A c) = view A c \<and> pending (commit_transaction A c) = vs) \<and>
     (\<forall>c v vs. pending c = v # vs \<longrightarrow>
          view A (rollback_transaction A c) = v \<and> pending (rollback_transaction A c) = vs)"

definition on_view :: "('v, 'c) storage_api \<Rightarrow> ('v, 'e, 'a) act \<Rightarrow> ('c, 'e, 'a) act" where
  "on_view A m = (\<lambda>c. case m (view A c) of (r, v) \<Rightarrow> (r, set_view A v c))"

text \<open>Runs an action of the system or currency pallet inside the store.\<close>

definition on_host :: "('h, 'e, 'a) act \<Rightarrow> (('acct, 'h) evm_store, 'e, 'a) act" where
  "on_host m = (\<lambda>s. case m (host s) of (r, h) \<Rightarrow> (r, s\<lparr>host := h\<rparr>))"

definition deposit_event :: "'acct evm_event \<Rightarrow> ('acct, 'h) evm_store \<Rightarrow> ('acct, 'h) evm_store" where
  "deposit_event e s = s\<lparr>events := events s @ [e]\<rparr>"

section \<open>Configuration and genesis\<close>

record ('acct, 'o, 'csucc, 'h) evm_cfg =
  cfg_min_gas_price :: "'h \<Rightarrow> u256"
  cfg_gas_to_weight :: "u64 \<Rightarrow> u64"
  cfg_call_origin :: "h160 \<Rightarrow> 'o \<Rightarrow> ('o, 'csucc) res"
  cfg_withdraw_origin :: "h160 \<Rightarrow> 'o \<Rightarrow> ('o, 'acct) res"
  cfg_into_account_id :: "h160 \<Rightarrow> 'acct"
  cfg_chain_id :: u64

record genesis_account =
  ga_nonce :: u256
  ga_balance :: u256
  ga_storage :: "(h256 \<times> h256) list"
  ga_code :: bytes

definition genesis_account_build ::
  "('acct, 'h, 'neg, 'pos) host_api \<Rightarrow> ('acct, 'o, 'csucc, 'h) evm_cfg \<Rightarrow>
     h160 \<times> genesis_account \<Rightarrow> ('acct, 'h) evm_store \<Rightarrow> ('acct, 'h) evm_store" where
  "genesis_account_build H K = (\<lambda>(address, account) s.
     let account_id = cfg_into_account_id K address;
         h1 = (inc_account_nonce H account_id ^^ unat (low_u128 (ga_nonce account))) (host s);
         h2 = deposit_creating H account_id (low_u128 (ga_balance account)) h1;
         codes' = (codes s)(address \<mapsto> ga_code account);
         slots' = fold (\<lambda>(index, value) m. m(index \<mapsto> value)) (ga_storage account) (storages s address)
     in s\<lparr>host := h2, codes := codes', storages := (storages s)(address := slots')\<rparr>)"

definition genesis_build ::
  "('acct, 'h, 'neg, 'pos) host_api \<Rightarrow> ('acct, 'o, 'csucc, 'h) evm_cfg \<Rightarrow>
     (h160 \<times> genesis_account) list \<Rightarrow> ('acct, 'h) evm_store \<Rightarrow> ('acct, 'h) evm_store" where
  "genesis_build H K accounts s = fold (genesis_account_build H K) accounts s"

section \<open>Accounts\<close>

definition account_basic ::
  "('acct, 'h, 'neg, 'pos) host_api \<Rightarrow> ('acct, 'o, 'csucc, 'h) evm_cfg \<Rightarrow>
     h160 \<Rightarrow> ('acct, 'h) evm_store \<Rightarrow> account" where
  "account_basic H K address s =
     (let account_id = cfg_into_account_id K address;
          nonce = account_nonce H account_id (host s);
          balance = free_balance H account_id (host s)
      in \<lparr>ac_nonce = ucast (saturated_into nonce :: u128),
          ac_balance = ucast (saturated_into balance :: u128)\<rparr>)"

definition is_account_empty ::
  "('acct, 'h, 'neg, 'pos) host_api \<Rightarrow> ('acct, 'o, 'csucc, 'h) evm_cfg \<Rightarrow>
     h160 \<Rightarrow> ('acct, 'h) evm_store \<Rightarrow> bool" where
  "is_account_empty H K address s =
     (let account = account_basic H K address s;
          code_len = (case codes s address of Some code \<Rightarrow> length code | None \<Rightarrow> 0)
      in ac_nonce account = 0 \<and> ac_balance account = 0 \<and> code_len = 0)"

definition remove_account ::
  "('acct, 'h, 'neg, 'pos) host_api \<Rightarrow> ('acct, 'o, 'csucc, 'h) evm_cfg \<Rightarrow>
     h160 \<Rightarrow> ('acct, 'h) evm_store \<Rightarrow> ('acct, 'h) evm_store" where
  "remove_account H K address s =
     (let s1 = (if codes s address \<noteq> None
                then s\<lparr>host := dec_consumers H (cfg_into_account_id K address) (host s)\<rparr> else s)
      in s1\<lparr>codes := (codes s1)(address := None),
            storages := (storages s1)(address := (\<lambda>_. None))\<rparr>)"

definition remove_account_if_empty ::
  "('acct, 'h, 'neg, 'pos) host_api \<Rightarrow> ('acct, 'o, 'csucc, 'h) evm_cfg \<Rightarrow>
     h160 \<Rightarrow> ('acct, 'h) evm_store \<Rightarrow> ('acct, 'h) evm_store" where
  "remove_account_if_empty H K address s =
     (if is_account_empty H K address s then remove_account H K address s else s)"

definition create_account ::
  "('acct, 'h, 'neg, 'pos) host_api \<Rightarrow> ('acct, 'o, 'csucc, 'h) evm_cfg \<Rightarrow>
     h160 \<Rightarrow> bytes \<Rightarrow> ('acct, 'h) evm_store \<Rightarrow> ('acct, 'h) evm_store" where
  "create_account H K address code s =
     (if code = [] then s
      else
        let s1 = (if codes s address = None
                  then s\<lparr>host := snd (inc_consumers H (cfg_into_account_id K address) (host s))\<rparr> else s)
        in s1\<lparr>codes := (codes s1)(address \<mapsto> code)\<rparr>)"

section \<open>Charging fees\<close>

definition withdraw_fee ::
  "('acct, 'h, 'neg, 'pos) host_api \<Rightarrow> ('acct, 'o, 'csucc, 'h) evm_cfg \<Rightarrow>
     h160 \<Rightarrow> u256 \<Rightarrow> ('h, evm_error, 'neg option) act" where
  "withdraw_fee H K who fee = (\<lambda>h.
     let account_id = cfg_into_account_id K who in
     case currency_withdraw H account_id (low_u128 fee) h of
       (Ok imbalance, h') \<Rightarrow> (Ok (Some imbalance), h')
     | (Err e, h') \<Rightarrow> (Err BalanceLow, h')
     | (Panic, h') \<Rightarrow> (Panic, h'))"

definition correct_and_deposit_fee ::
  "('acct, 'h, 'neg, 'pos) host_api \<Rightarrow> ('acct, 'o, 'csucc, 'h) evm_cfg \<Rightarrow>
     h160 \<Rightarrow> u256 \<Rightarrow> 'neg option \<Rightarrow> ('h, evm_error, unit) act" where
  "correct_and_deposit_fee H K who corrected_fee already_withdrawn =
     (case already_withdrawn of
        None \<Rightarrow> act_return ()
      | Some paid \<Rightarrow> (\<lambda>h.
          let account_id = cfg_into_account_id K who;
              refund_amount = saturating_sub (neg_peek H paid) (low_u128 corrected_fee)
          in
          case deposit_into_existing H account_id refund_amount h of
            (Panic, h') \<Rightarrow> (Panic, h')
          | (r, h') \<Rightarrow>
              let refund_imbalance = (case r of Ok p \<Rightarrow> p | _ \<Rightarrow> pos_zero H) in
              case neg_offset H paid refund_imbalance of
                None \<Rightarrow> (Err BalanceLow, h')
              | Some adjusted_paid \<Rightarrow> (Ok (), on_unbalanced H adjusted_paid h')))"

section \<open>Dispatchables\<close>

text \<open>The trait \<open>Runner\<close>: executions on the chain state \<open>'c\<close>.\<close>

record 'c runner =
  runner_call :: "h160 \<Rightarrow> h160 \<Rightarrow> bytes \<Rightarrow> u256 \<Rightarrow> u64 \<Rightarrow> u256 option \<Rightarrow> u256 option \<Rightarrow>
     ('c, evm_error, call_info) act"
  runner_create :: "h160 \<Rightarrow> bytes \<Rightarrow> u256 \<Rightarrow> u64 \<Rightarrow> u256 option \<Rightarrow> u256 option \<Rightarrow>
     ('c, evm_error, create_info) act"
  runner_create2 :: "h160 \<Rightarrow> bytes \<Rightarrow> h256 \<Rightarrow> u256 \<Rightarrow> u64 \<Rightarrow> u256 option \<Rightarrow> u256 option \<Rightarrow>
     ('c, evm_error, create_info) act"

text \<open>The operator \<open>?\<close> on a pallet error, in a dispatchable.\<close>

definition question :: "('c, evm_error, 'a) act \<Rightarrow> ('c, dispatch_error, 'a) act" where
  "question m = (\<lambda>c. case m c of (r, c') \<Rightarrow> (map_err (\<lambda>e. Module_Error (evm_error_name e)) r, c'))"

fun is_succeed :: "exit_reason \<Rightarrow> bool" where
  "is_succeed (Succeed _) = True"
| "is_succeed _ = False"

definition evm_post_info ::
  "('acct, 'o, 'csucc, 'h) evm_cfg \<Rightarrow> u256 \<Rightarrow> post_dispatch_info" where
  "evm_post_info K used_gas =
     \<lparr>pd_actual_weight = Some (cfg_gas_to_weight K (saturated_into used_gas)), pd_pays_fee = Pays_No\<rparr>"

definition withdraw ::
  "(('acct, 'h) evm_store, 'c) storage_api \<Rightarrow> ('acct, 'h, 'neg, 'pos) host_api \<Rightarrow>
     ('acct, 'o, 'csucc, 'h) evm_cfg \<Rightarrow> 'o \<Rightarrow> h160 \<Rightarrow> u128 \<Rightarrow> ('c, dispatch_error, unit) act" where
  "withdraw A H K origin address value =
     act_bind (act_lift (ensure_address_origin (cfg_withdraw_origin K) address origin)) (\<lambda>destination.
     let address_account_id = cfg_into_account_id K address in
       on_view A (on_host (currency_transfer H address_account_id destination value)))"

definition evm_call ::
  "(('acct, 'h) evm_store, 'c) storage_api \<Rightarrow> ('acct, 'o, 'csucc, 'h) evm_cfg \<Rightarrow> 'c runner \<Rightarrow>
     'o \<Rightarrow> h160 \<Rightarrow> h160 \<Rightarrow> bytes \<Rightarrow> u256 \<Rightarrow> u64 \<Rightarrow> u256 \<Rightarrow> u256 option \<Rightarrow>
     ('c, dispatch_error, post_dispatch_info) act" where
  "evm_call A K R origin source target input value gas_limit gas_price nonce =
     act_bind (act_lift (ensure_address_origin (cfg_call_origin K) source origin)) (\<lambda>_.
     act_bind (question (runner_call R source target input value gas_limit (Some gas_price) nonce))
       (\<lambda>info.
     act_bind (on_view A (act_modify (deposit_event
       (if is_succeed (ei_exit_reason info) then Event_Executed target
        else Event_ExecutedFailed target)))) (\<lambda>_.
       act_return (evm_post_info K (ei_used_gas info)))))"

definition evm_create ::
  "(('acct, 'h) evm_store, 'c) storage_api \<Rightarrow> ('acct, 'o, 'csucc, 'h) evm_cfg \<Rightarrow> 'c runner \<Rightarrow>
     'o \<Rightarrow> h160 \<Rightarrow> bytes \<Rightarrow> u256 \<Rightarrow> u64 \<Rightarrow> u256 \<Rightarrow> u256 option \<Rightarrow>
     ('c, dispatch_error, post_dispatch_info) act" where
  "evm_create A K R origin source init value gas_limit gas_price nonce =
     act_bind (act_lift (ensure_address_origin (cfg_call_origin K) source origin)) (\<lambda>_.
     act_bind (question (runner_create R source init value gas_limit (Some gas_price) nonce)) (\<lambda>info.
     act_bind (on_view A (act_modify (deposit_event
       (if is_succeed (ei_exit_reason info) then Event_Created (ei_value info)
        else Event_CreatedFailed (ei_value info))))) (\<lambda>_.
       act_return (evm_post_info K (ei_used_gas info)))))"

definition evm_create2 ::
  "(('acct, 'h) evm_store, 'c) storage_api \<Rightarrow> ('acct, 'o, 'csucc, 'h) evm_cfg \<Rightarrow> 'c runner \<Rightarrow>
     'o \<Rightarrow> h160 \<Rightarrow> bytes \<Rightarrow> h256 \<Rightarrow> u256 \<Rightarrow> u64 \<Rightarrow> u256 \<Rightarrow> u256 option \<Rightarrow>
     ('c, dispatch_error, post_dispatch_info) act" where
  "evm_create2 A K R origin source init salt value gas_limit gas_price nonce =
     act_bind (act_lift (ensure_address_origin (cfg_call_origin K) source origin)) (\<lambda>_.
     act_bind (question (runner_create2 R source init salt value gas_limit (Some gas_price) nonce))
       (\<lambda>info.
     act_bind (on_view A (act_modify (deposit_event
       (if is_succeed (ei_exit_reason info) then Event_Created (ei_value info)
        else Event_CreatedFailed (ei_value info))))) (\<lambda>_.
       act_return (evm_post_info K (ei_used_gas info)))))"

section \<open>Origin checks\<close>

text \<open>
  What the four checks share: the origin is read, a predicate \<open>permits\<close> decides, and a
  rejected origin is handed back.
\<close>

locale address_origin =
  fixes try_origin :: "h160 \<Rightarrow> 'o \<Rightarrow> ('o, 'succ) res"
    and read_origin :: "'o \<Rightarrow> ('o, 'acct raw_origin) res"
    and permits :: "h160 \<Rightarrow> 'acct raw_origin \<Rightarrow> 'succ option"
    and give_back :: "'acct raw_origin \<Rightarrow> 'o"
  assumes try_eq: "try_origin address origin =
    res_bind (read_origin origin) (\<lambda>r. ok_or (permits address r) (give_back r))"
begin

lemma ensure_eq:
  "ensure_address_origin try_origin address origin =
     (case read_origin origin of
        Ok r \<Rightarrow> ok_or (permits address r) BadOrigin
      | Err e \<Rightarrow> Err BadOrigin | Panic \<Rightarrow> Panic)"
  by (cases "read_origin origin"; cases "permits address (case read_origin origin of Ok r \<Rightarrow> r)")
    (simp_all add: ensure_address_origin_def try_eq)

lemma ensure_Ok:
  "ensure_address_origin try_origin address origin = Ok x \<longleftrightarrow>
     (\<exists>r. read_origin origin = Ok r \<and> permits address r = Some x)"
  by (auto simp: ensure_eq split: res.splits)

lemma ensure_Err: "ensure_address_origin try_origin address origin = Err e \<Longrightarrow> e = BadOrigin"
  by (auto simp: ensure_eq split: res.splits)

end

fun permits_same :: "h160 \<Rightarrow> h160 raw_origin \<Rightarrow> h160 option" where
  "permits_same address (Signed who) = (if who = address then Some who else None)"
| "permits_same address Root = None"
| "permits_same address NoneOrigin = None"

fun permits_root :: "h160 \<Rightarrow> 'acct raw_origin \<Rightarrow> unit option" where
  "permits_root address Root = Some ()"
| "permits_root address (Signed who) = None"
| "permits_root address NoneOrigin = None"

fun permits_truncated :: "h160 \<Rightarrow> h256 raw_origin \<Rightarrow> h256 option" where
  "permits_truncated address (Signed who) =
     (if take 20 (h256_bytes who) = h160_bytes address then Some who else None)"
| "permits_truncated address Root = None"
| "permits_truncated address NoneOrigin = None"

interpretation same: address_origin "EnsureAddressSame_try Q" "into_raw Q" permits_same "from_raw Q" for Q
  by unfold_locales
    (auto simp: EnsureAddressSame_try_def intro!: arg_cong2 [where f = res_bind] split: raw_origin.splits)

interpretation root: address_origin "EnsureAddressRoot_try Q" "into_raw Q" permits_root "from_raw Q" for Q
  by unfold_locales
    (auto simp: EnsureAddressRoot_try_def intro!: arg_cong2 [where f = res_bind] split: raw_origin.splits)

interpretation never: address_origin EnsureAddressNever_try Err "\<lambda>_ _. None" b for b
  by unfold_locales (simp add: EnsureAddressNever_try_def)

interpretation truncated: address_origin "EnsureAddressTruncated_try Q" "into_raw Q" permits_truncated
  "from_raw Q" for Q
  by unfold_locales
    (auto simp: EnsureAddressTruncated_try_def intro!: arg_cong2 [where f = res_bind] split: raw_origin.splits)

lemma permits_truncated_Some:
  "permits_truncated address r = Some who \<longleftrightarrow>
     r = Signed who \<and> take 20 (h256_bytes who) = h160_bytes address"
  by (cases "(address, r)" rule: permits_truncated.cases) auto

text \<open>
  C16: who may withdraw, with the check the runtime installs. A withdrawal goes through only for a
  signed origin whose account id starts with the 20 bytes of the address, so that an account
  controls exactly one EVM address; the transfer is from the account the address maps to and
  goes to the signer. Any other origin gets \<open>BadOrigin\<close> and changes nothing.
\<close>

theorem withdraw_authorised:
  assumes "cfg_withdraw_origin K = EnsureAddressTruncated_try Q" and "into_raw Q origin = Ok r"
  shows "withdraw A H K origin address value c =
      (case permits_truncated address r of
         Some who \<Rightarrow> on_view A (on_host
           (currency_transfer H (cfg_into_account_id K address) who value)) c
       | None \<Rightarrow> (Err BadOrigin, c)) \<and>
    (permits_truncated address r = Some who \<and> permits_truncated address' r = Some who' \<longrightarrow>
      address = address' \<and> who = who' \<and> r = Signed who)"
proof -
  have "ensure_address_origin (cfg_withdraw_origin K) address origin =
      ok_or (permits_truncated address r) BadOrigin"
    using assms by (simp add: truncated.ensure_eq)
  then have "withdraw A H K origin address value c =
      (case permits_truncated address r of
         Some who \<Rightarrow> on_view A (on_host
           (currency_transfer H (cfg_into_account_id K address) who value)) c
       | None \<Rightarrow> (Err BadOrigin, c))"
    by (auto simp: withdraw_def act_simps split: option.splits)
  then show ?thesis by (auto simp: permits_truncated_Some h160_bytes_inj)
qed

section \<open>Fees\<close>

lemma withdraw_fee_cases:
  assumes "currency_ok H pos_peek" and "withdraw_fee H K who fee h = (r, h')"
  shows "case r of
     Ok imb \<Rightarrow> \<exists>n. imb = Some n \<and> neg_peek H n = low_u128 fee \<and>
       currency_withdraw H (cfg_into_account_id K who) (low_u128 fee) h = (Ok n, h')
   | Err e \<Rightarrow> e = BalanceLow \<and> h' = h
   | Panic \<Rightarrow> False"
proof -
  obtain r0 h0 where w: "currency_withdraw H (cfg_into_account_id K who) (low_u128 fee) h = (r0, h0)"
    by (cases "currency_withdraw H (cfg_into_account_id K who) (low_u128 fee) h")
  have "case r0 of Ok n \<Rightarrow> neg_peek H n = low_u128 fee | Err e \<Rightarrow> h0 = h | Panic \<Rightarrow> False"
    using assms(1) w unfolding currency_ok_def by (cases r0; fastforce)
  then show ?thesis using assms(2) w by (cases r0) (auto simp: withdraw_fee_def Let_def)
qed

lemma withdraw_fee_Ok:
  assumes "currency_ok H pos_peek" and "withdraw_fee H K who fee h = (Ok imb, h')"
  obtains n where "imb = Some n" "neg_peek H n = low_u128 fee"
  using withdraw_fee_cases [OF assms] by auto

text \<open>
  What \<open>correct_and_deposit_fee\<close> leaves for \<open>on_unbalanced\<close>, and the state at that point.
\<close>

lemma correct_and_deposit_fee_settles:
  assumes ok: "currency_ok H pos_peek"
  shows "\<exists>kept h1.
    correct_and_deposit_fee H K who actual (Some paid) h = (Ok (), on_unbalanced H kept h1) \<and>
    (case deposit_into_existing H (cfg_into_account_id K who)
        (saturating_sub (neg_peek H paid) (low_u128 actual)) h of
      (Ok p, h') \<Rightarrow> h1 = h' \<and> neg_peek H kept = min (neg_peek H paid) (low_u128 actual)
    | (_, h') \<Rightarrow> h1 = h \<and> neg_peek H kept = neg_peek H paid) \<and>
    unat (neg_peek H kept) + unat (free_balance H (cfg_into_account_id K who) h1) =
       unat (neg_peek H paid) + unat (free_balance H (cfg_into_account_id K who) h)"
proof -
  let ?amount = "saturating_sub (neg_peek H paid) (low_u128 actual)"
  obtain r h1 where d: "deposit_into_existing H (cfg_into_account_id K who) ?amount h = (r, h1)"
    by (cases "deposit_into_existing H (cfg_into_account_id K who) ?amount h")
  have dep: "case r of Ok p \<Rightarrow> pos_peek p = ?amount \<and>
      unat (free_balance H (cfg_into_account_id K who) h1) =
        unat (free_balance H (cfg_into_account_id K who) h) + unat ?amount
    | Err e \<Rightarrow> h1 = h | Panic \<Rightarrow> False"
    using ok d unfolding currency_ok_def by blast
  have off: "pos_peek p \<le> neg_peek H paid \<Longrightarrow>
      \<exists>n'. neg_offset H paid p = Some n' \<and> neg_peek H n' = neg_peek H paid - pos_peek p" for p
    using ok by (simp add: currency_ok_def)
  have le: "?amount \<le> neg_peek H paid"
    by (simp add: word_le_nat_alt unat_saturating_sub)
  have z: "pos_peek (pos_zero H) = 0" using ok by (simp add: currency_ok_def)
  show ?thesis
  proof (cases r)
    case (Ok p)
    then obtain kept where k: "neg_offset H paid p = Some kept"
      "neg_peek H kept = neg_peek H paid - ?amount" using dep off [of p] le by auto
    have sum: "unat (neg_peek H kept) + unat ?amount = unat (neg_peek H paid)"
      using le k(2) by (simp add: unat_sub word_le_nat_alt)
    then have "neg_peek H kept = min (neg_peek H paid) (low_u128 actual)"
      by (cases "neg_peek H paid \<le> low_u128 actual")
        (auto simp: word_unat_eq_iff min_def word_le_nat_alt unat_saturating_sub)
    then show ?thesis
      using d k(1) Ok dep sum
      by (intro exI [of _ kept] exI [of _ h1]) (simp add: correct_and_deposit_fee_def Let_def)
  next
    case (Err e)
    then obtain kept where k: "neg_offset H paid (pos_zero H) = Some kept"
      "neg_peek H kept = neg_peek H paid" using off [of "pos_zero H"] z by auto
    then show ?thesis
      using d Err dep
      by (intro exI [of _ kept] exI [of _ h1]) (simp add: correct_and_deposit_fee_def Let_def)
  qed (use dep in simp)
qed

text \<open>
  C9: what a transaction pays. A fee that cannot be withdrawn is \<open>BalanceLow\<close> and changes
  nothing. Otherwise the low 128 bits of the fee have been withdrawn, and settling after the
  execution never fails: it deposits the difference to the actual fee, and what it hands to the
  unbalance handler is the smaller of the two fees if that deposit succeeds, the whole amount
  withdrawn if it does not (a payer the withdrawal has reaped). Nothing is created or lost: the
  amount kept and the payer's balance add up to the amount withdrawn and the balance before.
\<close>

theorem fee_conserved:
  assumes "currency_ok H pos_peek" and "withdraw_fee H K who fee h = (r, h1)"
  shows "case r of
      Err e \<Rightarrow> e = BalanceLow \<and> h1 = h
    | Panic \<Rightarrow> False
    | Ok imb \<Rightarrow> \<forall>actual h2. \<exists>kept h3.
        correct_and_deposit_fee H K who actual imb h2 = (Ok (), on_unbalanced H kept h3) \<and>
        (case deposit_into_existing H (cfg_into_account_id K who)
             (saturating_sub (low_u128 fee) (low_u128 actual)) h2 of
           (Ok p, h') \<Rightarrow> h3 = h' \<and> neg_peek H kept = min (low_u128 fee) (low_u128 actual)
         | (_, h') \<Rightarrow> h3 = h2 \<and> neg_peek H kept = low_u128 fee) \<and>
        unat (neg_peek H kept) + unat (free_balance H (cfg_into_account_id K who) h3) =
          unat (low_u128 fee) + unat (free_balance H (cfg_into_account_id K who) h2)"
proof (cases r)
  case (Ok imb)
  obtain n where n: "imb = Some n" "neg_peek H n = low_u128 fee"
    by (rule withdraw_fee_Ok [OF assms(1) assms(2) [unfolded Ok]])
  show ?thesis
    unfolding Ok res.case n(1) n(2) [symmetric]
    by (intro allI correct_and_deposit_fee_settles [OF assms(1)])
qed (use withdraw_fee_cases [OF assms] in auto)

section \<open>Accounts and their references\<close>

lemma unat_u128_into_u256:
  "unat x < 2 ^ 128 \<Longrightarrow> unat (ucast (saturated_into x :: u128) :: u256) = unat x"
  for x :: "'n::len word"
  using unat_bound [of "saturated_into x :: u128"] by (simp add: unat_ucast_id unat_saturated_into)

lemma account_basic_exact:
  "unat (ac_nonce (account_basic H K a s)) = unat (account_nonce H (cfg_into_account_id K a) (host s))"
  "unat (ac_balance (account_basic H K a s)) = unat (free_balance H (cfg_into_account_id K a) (host s))"
  using unat_bound [of "account_nonce H (cfg_into_account_id K a) (host s)"]
    unat_bound [of "free_balance H (cfg_into_account_id K a) (host s)"]
  by (simp_all add: account_basic_def Let_def unat_u128_into_u256)

text \<open>
  Every account with a code entry holds one consumer reference above a base, the others none.
\<close>

definition refs_held ::
  "('acct \<Rightarrow> 'h \<Rightarrow> nat) \<Rightarrow> ('acct, 'o, 'csucc, 'h) evm_cfg \<Rightarrow> (h160 \<Rightarrow> nat) \<Rightarrow>
     ('acct, 'h) evm_store \<Rightarrow> bool" where
  "refs_held refs K base s \<longleftrightarrow>
     (\<forall>a. refs (cfg_into_account_id K a) (host s) = base a + (if codes s a = None then 0 else 1))"

lemma create_account_refs:
  assumes "consumers_ok H refs providers" "inj (cfg_into_account_id K)" "refs_held refs K base s"
    "base a + 1 < 2 ^ 32"
  shows "refs_held refs K base (create_account H K a code s) \<longleftrightarrow>
     code = [] \<or> codes s a \<noteq> None \<or> 0 < providers (cfg_into_account_id K a) (host s)"
proof (cases "code = [] \<or> codes s a \<noteq> None")
  case True
  then show ?thesis using assms(3) by (auto simp: refs_held_def create_account_def Let_def)
next
  case new: False
  let ?i = "cfg_into_account_id K a"
  have at: "refs ?i (host s) = base a" using new assms(3) by (auto simp: refs_held_def)
  show ?thesis
  proof (cases "0 < providers ?i (host s)")
    case True
    then obtain h' where h: "inc_consumers H ?i (host s) = (Ok (), h')"
      "\<forall>b. refs b h' = (if ?i = b then min (refs b (host s) + 1) (2 ^ 32 - 1) else refs b (host s))"
      using assms(1) unfolding consumers_ok_def by meson
    then show ?thesis
      using True new assms(2-4) at by (auto simp: refs_held_def create_account_def Let_def inj_eq)
  next
    case False
    then obtain e where "inc_consumers H ?i (host s) = (Err e, host s)"
      using assms(1) unfolding consumers_ok_def by meson
    then show ?thesis
      using False new at by (auto simp: refs_held_def create_account_def Let_def intro!: exI [of _ a])
  qed
qed

lemma remove_account_refs:
  assumes "consumers_ok H refs providers" "inj (cfg_into_account_id K)" "refs_held refs K base s"
  shows "refs_held refs K base (remove_account H K a s)"
  using assms by (auto simp: refs_held_def remove_account_def consumers_ok_def Let_def inj_eq)

text \<open>
  C17: consumer references. Let every account with a code entry hold one reference above a base
  and the others none. Storing code at an address keeps that exactly when there is nothing to
  store, the address has code already, or its account has a provider. Otherwise the discarded
  error of \<open>inc_consumers\<close> breaks it: the code is stored although no reference was taken, so
  that nothing keeps the account from being reaped. Removing accounts keeps it. (Two addresses
  never map to one account, and the 32-bit count of the account is not saturated.)
\<close>

theorem consumer_refs_invariant:
  assumes "consumers_ok H refs providers" "inj (cfg_into_account_id K)" "refs_held refs K base s"
    and "base a + 1 < 2 ^ 32"
  shows "(refs_held refs K base (create_account H K a code s) \<longleftrightarrow>
      code = [] \<or> codes s a \<noteq> None \<or> 0 < providers (cfg_into_account_id K a) (host s)) \<and>
    (if code = [] then create_account H K a code s = s
     else codes (create_account H K a code s) a = Some code) \<and>
    refs_held refs K base (remove_account H K a s) \<and>
    refs_held refs K base (remove_account_if_empty H K a s) \<and>
    codes (remove_account H K a s) a = None \<and> storages (remove_account H K a s) a = (\<lambda>_. None)"
  using create_account_refs [OF assms, of code] remove_account_refs [OF assms(1-3), of a] assms(3)
  by (auto simp: remove_account_if_empty_def create_account_def remove_account_def Let_def)

text \<open>
  Genesis does not establish that invariant. It writes a code entry for every configured
  account, an empty one too, and takes no reference, so that one account at genesis already
  breaks the invariant, for every base that held before.
\<close>

theorem genesis_breaks_refs:
  assumes keep: "\<And>a x h. refs a (deposit_creating H b x h) = refs a h"
    "\<And>a h. refs a (inc_account_nonce H b h) = refs a h"
    and b: "b = cfg_into_account_id K address" and none: "codes s address = None"
    and held: "refs_held refs K base s"
  shows "codes (genesis_build H K [(address, account)] s) address = Some (ga_code account) \<and>
    \<not> refs_held refs K base (genesis_build H K [(address, account)] s)"
proof -
  have "refs a ((inc_account_nonce H b ^^ n) h) = refs a h" for a n h
    by (induction n) (auto simp: keep)
  then have "refs b (host (genesis_build H K [(address, account)] s)) = refs b (host s)"
    by (simp add: genesis_build_def genesis_account_build_def Let_def keep b [symmetric])
  moreover have c: "codes (genesis_build H K [(address, account)] s) address = Some (ga_code account)"
    by (simp add: genesis_build_def genesis_account_build_def Let_def)
  moreover have "refs b (host s) = base address" using held none b by (auto simp: refs_held_def)
  ultimately show ?thesis using b by (auto simp: refs_held_def intro!: exI [of _ address])
qed

section \<open>Witnesses\<close>

text \<open>
  A host with 256-bit accounts, whose state is the balances, the consumer references and the
  nonces; an account with a balance has a provider, a balance below 500 is reaped, imbalances
  are amounts, and the unbalance handler drops them.
\<close>

type_synonym sample_h = "(h256 \<Rightarrow> u128) \<times> (h256 \<Rightarrow> nat) \<times> (h256 \<Rightarrow> u32)"

definition sample_host :: "(h256, sample_h, u128, u128) host_api" where
  "sample_host = \<lparr>
     account_nonce = (\<lambda>a (b, r, n). n a),
     inc_account_nonce = (\<lambda>a (b, r, n). (b, r, n(a := n a + 1))),
     inc_consumers = (\<lambda>a (b, r, n).
       if b a \<noteq> 0 then (Ok (), (b, r(a := min (r a + 1) (2 ^ 32 - 1)), n))
       else (Err (Other ''no providers''), (b, r, n))),
     dec_consumers = (\<lambda>a (b, r, n). (b, r(a := r a - 1), n)),
     free_balance = (\<lambda>a (b, r, n). b a),
     currency_transfer = (\<lambda>a a' x (b, r, n).
       if x \<le> b a \<and> unat (b a') + unat x < 2 ^ 128
       then (Ok (), ((b(a := b a - x))(a' := (b(a := b a - x)) a' + x), r, n))
       else (Err (Other ''transfer''), (b, r, n))),
     currency_withdraw = (\<lambda>a x (b, r, n).
       if x \<le> b a then (Ok x, (b(a := if b a - x < 500 then 0 else b a - x), r, n))
       else (Err (Other ''withdraw''), (b, r, n))),
     deposit_into_existing = (\<lambda>a x (b, r, n).
       if b a \<noteq> 0 \<and> unat (b a) + unat x < 2 ^ 128 then (Ok x, (b(a := b a + x), r, n))
       else (Err (Other ''deposit''), (b, r, n))),
     deposit_creating = (\<lambda>a x (b, r, n). (b(a := b a + x), r, n)),
     neg_peek = (\<lambda>x. x),
     pos_zero = 0,
     neg_offset = (\<lambda>x y. if y \<le> x then Some (x - y) else None),
     on_unbalanced = (\<lambda>_ h. h),
     sys_block_number = (\<lambda>_. 7),
     sys_block_hash = (\<lambda>n _. ucast n),
     timestamp_get = (\<lambda>_. 12000)\<rparr>"

lemma sample_currency_ok: "currency_ok sample_host (\<lambda>x. x)"
  by (auto simp: currency_ok_def sample_host_def unat_sub word_le_nat_alt unat_word_ariths
      split: if_splits prod.splits)

definition sample_refs :: "h256 \<Rightarrow> sample_h \<Rightarrow> nat" where
  "sample_refs a = (\<lambda>(b, r, n). r a)"

definition sample_providers :: "h256 \<Rightarrow> sample_h \<Rightarrow> nat" where
  "sample_providers a = (\<lambda>(b, r, n). if b a \<noteq> 0 then 1 else 0)"

lemma sample_consumers_ok: "consumers_ok sample_host sample_refs sample_providers"
  by (auto simp: consumers_ok_def sample_host_def sample_refs_def sample_providers_def)

text \<open>An origin that is its own raw form, and an injective address mapping.\<close>

definition sample_origins :: "(h256, h256 raw_origin) origin_api" where
  "sample_origins = \<lparr>into_raw = Ok, from_raw = (\<lambda>r. r)\<rparr>"

definition sample_cfg :: "(h256, h256 raw_origin, h256, sample_h) evm_cfg" where
  "sample_cfg = \<lparr>
     cfg_min_gas_price = (\<lambda>_. 1),
     cfg_gas_to_weight = unit_gas_to_weight,
     cfg_call_origin = EnsureAddressTruncated_try sample_origins,
     cfg_withdraw_origin = EnsureAddressTruncated_try sample_origins,
     cfg_into_account_id = (\<lambda>a. ucast a),
     cfg_chain_id = 42\<rparr>"

lemma sample_into_inj: "inj (cfg_into_account_id sample_cfg)"
proof (rule injI)
  fix a b :: h160
  assume "cfg_into_account_id sample_cfg a = cfg_into_account_id sample_cfg b"
  then have "unat (ucast a :: h256) = unat (ucast b :: h256)" by (simp add: sample_cfg_def)
  then show "a = b"
    using unat_bound [of a] unat_bound [of b] by (simp add: unat_ucast_id word_unat_eq_iff)
qed

definition sample_store :: "(h256, sample_h) evm_store" where
  "sample_store = \<lparr>codes = (\<lambda>_. None), storages = (\<lambda>_ _. None), events = [],
     host = (\<lambda>_. 1000, \<lambda>_. 0, \<lambda>_. 0)\<rparr>"

text \<open>Storage as a view and the stack of views of its open transactions.\<close>

definition sample_storage :: "('v, 'v \<times> 'v list) storage_api" where
  "sample_storage = \<lparr>
     view = fst,
     set_view = (\<lambda>v (_, p). (v, p)),
     start_transaction = (\<lambda>(v, p). (v, v # p)),
     commit_transaction = (\<lambda>(v, p). (v, tl p)),
     rollback_transaction = (\<lambda>(v, p). (hd p, tl p))\<rparr>"

lemma sample_storage_ok: "storage_api_ok sample_storage snd"
  by (auto simp: storage_api_ok_def sample_storage_def)

theorem withdraw_authorised_witness:
  "withdraw sample_storage sample_host sample_cfg (Signed 5) 3 10 (sample_store, []) =
     (Err BadOrigin, (sample_store, []))"
proof -
  have a: "cfg_withdraw_origin sample_cfg = EnsureAddressTruncated_try sample_origins"
    by (simp add: sample_cfg_def)
  have b: "into_raw sample_origins (Signed 5) = Ok (Signed 5)" by (simp add: sample_origins_def)
  have "permits_truncated 3 (Signed 5) = None"
    by (simp add: h256_bytes_def h160_bytes_def) code_simp
  then show ?thesis
    by (simp only: conjunct1 [OF withdraw_authorised [OF a b]] option.case)
qed

text \<open>A fee of 100 of which 60 are used, and one of 600 that leaves dust and no refund.\<close>

theorem fee_conserved_witness:
  "(\<exists>h1 kept h3.
     withdraw_fee sample_host sample_cfg 3 100 (\<lambda>_. 1000, \<lambda>_. 0, \<lambda>_. 0) = (Ok (Some 100), h1) \<and>
     correct_and_deposit_fee sample_host sample_cfg 3 60 (Some 100) h1 =
       (Ok (), on_unbalanced sample_host kept h3) \<and> neg_peek sample_host kept = 60) \<and>
   (\<exists>h1 kept.
     withdraw_fee sample_host sample_cfg 3 600 (\<lambda>_. 1000, \<lambda>_. 0, \<lambda>_. 0) = (Ok (Some 600), h1) \<and>
     correct_and_deposit_fee sample_host sample_cfg 3 60 (Some 600) h1 =
       (Ok (), on_unbalanced sample_host kept h1) \<and> neg_peek sample_host kept = 600)"
  (is "?refunded \<and> ?reaped")
proof
  let ?h1 = "((\<lambda>_. 1000)(3 := 900), \<lambda>_. 0, \<lambda>_. 0) :: sample_h"
  have w: "withdraw_fee sample_host sample_cfg 3 100 (\<lambda>_. 1000, \<lambda>_. 0, \<lambda>_. 0) = (Ok (Some 100), ?h1)"
    by (simp add: withdraw_fee_def sample_host_def sample_cfg_def low_u128_def)
  have d: "deposit_into_existing sample_host (cfg_into_account_id sample_cfg 3)
      (saturating_sub (low_u128 100) (low_u128 60)) ?h1 = (Ok 40, ((\<lambda>_. 1000)(3 := 940), \<lambda>_. 0, \<lambda>_. 0))"
    by (simp add: sample_host_def sample_cfg_def low_u128_def saturating_sub_def)
  show ?refunded
    using w fee_conserved [OF sample_currency_ok w, unfolded res.case, rule_format, of 60 ?h1, unfolded d]
    by (auto simp: low_u128_def)
  let ?h2 = "((\<lambda>_. 1000)(3 := 0), \<lambda>_. 0, \<lambda>_. 0) :: sample_h"
  have w: "withdraw_fee sample_host sample_cfg 3 600 (\<lambda>_. 1000, \<lambda>_. 0, \<lambda>_. 0) = (Ok (Some 600), ?h2)"
    by (simp add: withdraw_fee_def sample_host_def sample_cfg_def low_u128_def)
  have d: "deposit_into_existing sample_host (cfg_into_account_id sample_cfg 3)
      (saturating_sub (low_u128 600) (low_u128 60)) ?h2 = (Err (Other ''deposit''), ?h2)"
    by (simp add: sample_host_def sample_cfg_def low_u128_def saturating_sub_def)
  show ?reaped
    using w fee_conserved [OF sample_currency_ok w, unfolded res.case, rule_format, of 60 ?h2, unfolded d]
    by (auto simp: low_u128_def)
qed

text \<open>
  An account with a balance takes its reference; one without stores its code and takes none.
\<close>

theorem consumer_refs_invariant_witness:
  "refs_held sample_refs sample_cfg (\<lambda>_. 0) (create_account sample_host sample_cfg 9 [1, 2] sample_store) \<and>
   (let s = sample_store\<lparr>host := (\<lambda>_. 0, \<lambda>_. 0, \<lambda>_. 0)\<rparr> in
      codes (create_account sample_host sample_cfg 9 [1, 2] s) 9 = Some [1, 2] \<and>
      \<not> refs_held sample_refs sample_cfg (\<lambda>_. 0) (create_account sample_host sample_cfg 9 [1, 2] s))"
proof -
  have "refs_held sample_refs sample_cfg (\<lambda>_. 0) sample_store"
    by (simp add: refs_held_def sample_refs_def sample_store_def)
  note a = consumer_refs_invariant [OF sample_consumers_ok sample_into_inj this, of 9 "[1, 2]"]
  have "refs_held sample_refs sample_cfg (\<lambda>_. 0) (sample_store\<lparr>host := (\<lambda>_. 0, \<lambda>_. 0, \<lambda>_. 0)\<rparr>)"
    by (simp add: refs_held_def sample_refs_def sample_store_def)
  note b = consumer_refs_invariant [OF sample_consumers_ok sample_into_inj this, of 9 "[1, 2]"]
  show ?thesis
    using a b by (simp add: sample_providers_def sample_store_def Let_def)
qed

theorem genesis_breaks_refs_witness:
  "\<not> refs_held sample_refs sample_cfg (\<lambda>_. 0) (genesis_build sample_host sample_cfg
     [(9, \<lparr>ga_nonce = 1, ga_balance = 5, ga_storage = [], ga_code = []\<rparr>)] sample_store)"
proof -
  have "refs_held sample_refs sample_cfg (\<lambda>_. 0) sample_store"
    by (simp add: refs_held_def sample_refs_def sample_store_def)
  then show ?thesis
    using genesis_breaks_refs [of sample_refs sample_host "cfg_into_account_id sample_cfg 9"
        sample_cfg 9 sample_store "\<lambda>_. 0" "\<lparr>ga_nonce = 1, ga_balance = 5, ga_storage = [], ga_code = []\<rparr>"]
    by (simp add: sample_refs_def sample_host_def sample_store_def split: prod.splits)
qed

end
