(* ===== verification/Evm_Runner.thy ===== *)
theory Evm_Runner
  imports Evm_Pallet
begin

text \<open>
  \<open>frame/evm/src/runner/stack.rs\<close>: the stack-based runner. The substate of an execution is
  a chain of frames, each with the gas metadata of the \<open>evm\<close> crate (the parameter
  \<open>meta_lib\<close>), the accounts it deletes and its logs; every frame but the root has one
  storage transaction open. The callbacks the executor makes are the operations on
  \<open>stack_state\<close>, and \<open>evm_step\<close> is the relation of single callbacks. The executor itself
  belongs to the \<open>evm\<close> crate: it is the parameter of \<open>execute\<close>, which wraps the checks,
  the fee, the deletions and the log events around it. The storage of contracts, seen through
  sequences of callbacks, is shown to refine a stack of memories.
\<close>

section \<open>Substates\<close>

record 'm meta_lib =
  meta_new :: "u64 \<Rightarrow> 'm"
  spit_child :: "'m \<Rightarrow> u64 \<Rightarrow> bool \<Rightarrow> 'm"
  swallow_commit :: "'m \<Rightarrow> ('m, exit_error, unit) act"
  swallow_revert :: "'m \<Rightarrow> ('m, exit_error, unit) act"
  swallow_discard :: "'m \<Rightarrow> ('m, exit_error, unit) act"

datatype 'm substate = Substate
  (metadata: 'm) (deletes: "h160 set") (logs: "eth_log list") (parent: "'m substate option")

fun set_metadata :: "'m \<Rightarrow> 'm substate \<Rightarrow> 'm substate" where
  "set_metadata m (Substate _ d l p) = Substate m d l p"

record ('c, 'm) stack_state =
  chain :: 'c
  substate :: "'m substate"

definition substate_new :: "'m \<Rightarrow> 'm substate" where
  "substate_new m = Substate m {} [] None"

definition enter ::
  "('v, 'c) storage_api \<Rightarrow> 'm meta_lib \<Rightarrow> u64 \<Rightarrow> bool \<Rightarrow> ('c, 'm) stack_state \<Rightarrow> ('c, 'm) stack_state" where
  "enter A M gas_limit is_static s =
     (let self = substate s;
          entering = Substate (spit_child M (metadata self) gas_limit is_static) {} [] (Some self)
      in s\<lparr>substate := entering, chain := start_transaction A (chain s)\<rparr>)"

text \<open>
  The three exits. \<open>parent.take().expect(..)\<close> panics on the root; the frame that exits is
  swapped out before its metadata is swallowed, so an error there leaves the parent in place.
\<close>

definition exit_commit ::
  "('v, 'c) storage_api \<Rightarrow> 'm meta_lib \<Rightarrow> (('c, 'm) stack_state, exit_error, unit) act" where
  "exit_commit A M = (\<lambda>s.
     case parent (substate s) of
       None \<Rightarrow> (Panic, s)
     | Some self \<Rightarrow>
         let exited = substate s in
         (case swallow_commit M (metadata exited) (metadata self) of
            (Ok _, m) \<Rightarrow>
              (Ok (), s\<lparr>substate := Substate m (deletes self \<union> deletes exited)
                          (logs self @ logs exited) (parent self),
                       chain := commit_transaction A (chain s)\<rparr>)
          | (Err e, m) \<Rightarrow> (Err e, s\<lparr>substate := set_metadata m self\<rparr>)
          | (Panic, m) \<Rightarrow> (Panic, s\<lparr>substate := set_metadata m self\<rparr>)))"

definition exit_revert ::
  "('v, 'c) storage_api \<Rightarrow> 'm meta_lib \<Rightarrow> (('c, 'm) stack_state, exit_error, unit) act" where
  "exit_revert A M = (\<lambda>s.
     case parent (substate s) of
       None \<Rightarrow> (Panic, s)
     | Some self \<Rightarrow>
         let exited = substate s in
         (case swallow_revert M (metadata exited) (metadata self) of
            (Ok _, m) \<Rightarrow>
              (Ok (), s\<lparr>substate := set_metadata m self, chain := rollback_transaction A (chain s)\<rparr>)
          | (Err e, m) \<Rightarrow> (Err e, s\<lparr>substate := set_metadata m self\<rparr>)
          | (Panic, m) \<Rightarrow> (Panic, s\<lparr>substate := set_metadata m self\<rparr>)))"

definition exit_discard ::
  "('v, 'c) storage_api \<Rightarrow> 'm meta_lib \<Rightarrow> (('c, 'm) stack_state, exit_error, unit) act" where
  "exit_discard A M = (\<lambda>s.
     case parent (substate s) of
       None \<Rightarrow> (Panic, s)
     | Some self \<Rightarrow>
         let exited = substate s in
         (case swallow_discard M (metadata exited) (metadata self) of
            (Ok _, m) \<Rightarrow>
              (Ok (), s\<lparr>substate := set_metadata m self, chain := rollback_transaction A (chain s)\<rparr>)
          | (Err e, m) \<Rightarrow> (Err e, s\<lparr>substate := set_metadata m self\<rparr>)
          | (Panic, m) \<Rightarrow> (Panic, s\<lparr>substate := set_metadata m self\<rparr>)))"

fun deleted :: "'m substate \<Rightarrow> h160 \<Rightarrow> bool" where
  "deleted (Substate m d l p) address =
     (address \<in> d \<or> (case p of Some q \<Rightarrow> deleted q address | None \<Rightarrow> False))"

fun set_deleted :: "h160 \<Rightarrow> 'm substate \<Rightarrow> 'm substate" where
  "set_deleted address (Substate m d l p) = Substate m (insert address d) l p"

fun add_log :: "h160 \<Rightarrow> h256 list \<Rightarrow> bytes \<Rightarrow> 'm substate \<Rightarrow> 'm substate" where
  "add_log address topics data (Substate m d l p) =
     Substate m d (l @ [\<lparr>log_address = address, log_topics = topics, log_data = data\<rparr>]) p"

section \<open>Reading the chain\<close>

definition backend_block_hash ::
  "('acct, 'h, 'neg, 'pos) host_api \<Rightarrow> u256 \<Rightarrow> ('acct, 'h) evm_store \<Rightarrow> h256" where
  "backend_block_hash H number v =
     (if number > ucast (- 1 :: u32) then 0 else sys_block_hash H (ucast number) (host v))"

definition backend_block_number ::
  "('acct, 'h, 'neg, 'pos) host_api \<Rightarrow> ('acct, 'h) evm_store \<Rightarrow> u256" where
  "backend_block_number H v = ucast (saturated_into (sys_block_number H (host v)) :: u128)"

definition backend_block_timestamp ::
  "('acct, 'h, 'neg, 'pos) host_api \<Rightarrow> ('acct, 'h) evm_store \<Rightarrow> u256" where
  "backend_block_timestamp H v =
     (let now = (saturated_into (timestamp_get H (host v)) :: u128) in ucast (now div 1000))"

definition backend_block_coinbase :: h160 where "backend_block_coinbase = 0"
definition backend_block_difficulty :: u256 where "backend_block_difficulty = 0"
definition backend_block_gas_limit :: u256 where "backend_block_gas_limit = 0"

definition backend_chain_id :: "('acct, 'o, 'csucc, 'h) evm_cfg \<Rightarrow> u256" where
  "backend_chain_id K = ucast (cfg_chain_id K)"

definition backend_code :: "h160 \<Rightarrow> ('acct, 'h) evm_store \<Rightarrow> bytes" where
  "backend_code address v = (case codes v address of Some c \<Rightarrow> c | None \<Rightarrow> [])"

definition backend_storage :: "h160 \<Rightarrow> h256 \<Rightarrow> ('acct, 'h) evm_store \<Rightarrow> h256" where
  "backend_storage address index v = (case storages v address index of Some x \<Rightarrow> x | None \<Rightarrow> 0)"

definition backend_exists :: "h160 \<Rightarrow> bool" where
  "backend_exists address = True"

definition backend_original_storage :: "h160 \<Rightarrow> h256 \<Rightarrow> h256 option" where
  "backend_original_storage address index = None"

section \<open>Writing the chain\<close>

definition inc_nonce ::
  "('acct, 'h, 'neg, 'pos) host_api \<Rightarrow> ('acct, 'o, 'csucc, 'h) evm_cfg \<Rightarrow>
     h160 \<Rightarrow> ('acct, 'h) evm_store \<Rightarrow> ('acct, 'h) evm_store" where
  "inc_nonce H K address v = v\<lparr>host := inc_account_nonce H (cfg_into_account_id K address) (host v)\<rparr>"

definition set_storage :: "h160 \<Rightarrow> h256 \<Rightarrow> h256 \<Rightarrow> ('acct, 'h) evm_store \<Rightarrow> ('acct, 'h) evm_store" where
  "set_storage address index value v =
     (if value = 0
      then v\<lparr>storages := (storages v)(address := (storages v address)(index := None))\<rparr>
      else v\<lparr>storages := (storages v)(address := (storages v address)(index \<mapsto> value))\<rparr>)"

definition reset_storage :: "h160 \<Rightarrow> ('acct, 'h) evm_store \<Rightarrow> ('acct, 'h) evm_store" where
  "reset_storage address v = v\<lparr>storages := (storages v)(address := (\<lambda>_. None))\<rparr>"

definition set_code ::
  "('acct, 'h, 'neg, 'pos) host_api \<Rightarrow> ('acct, 'o, 'csucc, 'h) evm_cfg \<Rightarrow>
     h160 \<Rightarrow> bytes \<Rightarrow> ('acct, 'h) evm_store \<Rightarrow> ('acct, 'h) evm_store" where
  "set_code H K address code v = create_account H K address code v"

definition state_transfer ::
  "('acct, 'h, 'neg, 'pos) host_api \<Rightarrow> ('acct, 'o, 'csucc, 'h) evm_cfg \<Rightarrow>
     h160 \<Rightarrow> h160 \<Rightarrow> u256 \<Rightarrow> (('acct, 'h) evm_store, exit_error, unit) act" where
  "state_transfer H K source target value = (\<lambda>v.
     case on_host (currency_transfer H (cfg_into_account_id K source) (cfg_into_account_id K target)
            (low_u128 value)) v of
       (r, v') \<Rightarrow> (map_err (\<lambda>_. OutOfFund) r, v'))"

definition reset_balance :: "h160 \<Rightarrow> ('acct, 'h) evm_store \<Rightarrow> ('acct, 'h) evm_store" where
  "reset_balance address v = v"

definition touch :: "h160 \<Rightarrow> ('acct, 'h) evm_store \<Rightarrow> ('acct, 'h) evm_store" where
  "touch address v = v"

text \<open>A callback that only writes the current view of the storage.\<close>

definition write_view ::
  "('v, 'c) storage_api \<Rightarrow> ('v \<Rightarrow> 'v) \<Rightarrow> ('c, 'm) stack_state \<Rightarrow> ('c, 'm) stack_state" where
  "write_view A f s = s\<lparr>chain := set_view A (f (view A (chain s))) (chain s)\<rparr>"

section \<open>Callbacks as steps\<close>

text \<open>
  One callback of the executor: entering and leaving a frame, a write to the current view, a
  change of the current frame's metadata, logs or deletions. The exits of the relation are the
  successful ones.
\<close>

inductive evm_step ::
  "(('acct, 'h) evm_store, 'c) storage_api \<Rightarrow> 'm meta_lib \<Rightarrow> ('acct, 'h, 'neg, 'pos) host_api \<Rightarrow>
     ('acct, 'o, 'csucc, 'h) evm_cfg \<Rightarrow> ('c, 'm) stack_state \<Rightarrow> ('c, 'm) stack_state \<Rightarrow> bool"
  for A M H K where
  step_enter: "evm_step A M H K s (enter A M gas st s)"
| step_commit: "exit_commit A M s = (Ok (), t) \<Longrightarrow> evm_step A M H K s t"
| step_revert: "exit_revert A M s = (Ok (), t) \<Longrightarrow> evm_step A M H K s t"
| step_discard: "exit_discard A M s = (Ok (), t) \<Longrightarrow> evm_step A M H K s t"
| step_inc_nonce: "evm_step A M H K s (write_view A (inc_nonce H K a) s)"
| step_set_storage: "evm_step A M H K s (write_view A (set_storage a i x) s)"
| step_reset_storage: "evm_step A M H K s (write_view A (reset_storage a) s)"
| step_set_code: "evm_step A M H K s (write_view A (set_code H K a code) s)"
| step_transfer: "evm_step A M H K s (write_view A (\<lambda>v. snd (state_transfer H K a b x v)) s)"
| step_metadata: "evm_step A M H K s (s\<lparr>substate := set_metadata m (substate s)\<rparr>)"
| step_log: "evm_step A M H K s (s\<lparr>substate := add_log a ts d (substate s)\<rparr>)"
| step_set_deleted: "evm_step A M H K s (s\<lparr>substate := set_deleted a (substate s)\<rparr>)"

inductive_cases evm_stepE: "evm_step A M H K s t"

section \<open>Execution\<close>

text \<open>
  The executor of the \<open>evm\<close> crate, created with the runtime's precompiles: it runs a call or
  a creation from a state to its exit reason and a final state, which it reaches by callbacks.
\<close>

datatype create_scheme =
    Legacy h160
  | Create2 h160 h256 h256

record ('c, 'm) executor =
  used_gas :: "('c, 'm) stack_state \<Rightarrow> u64"
  executor_fee :: "('c, 'm) stack_state \<Rightarrow> u256 \<Rightarrow> u256"
  create_address :: "create_scheme \<Rightarrow> ('c, 'm) stack_state \<Rightarrow> h160"
  transact_call :: "vicinity \<Rightarrow> h160 \<Rightarrow> h160 \<Rightarrow> u256 \<Rightarrow> bytes \<Rightarrow> u64 \<Rightarrow>
     ('c, 'm) stack_state \<Rightarrow> (exit_reason \<times> bytes) \<times> ('c, 'm) stack_state"
  transact_create :: "vicinity \<Rightarrow> h160 \<Rightarrow> u256 \<Rightarrow> bytes \<Rightarrow> u64 \<Rightarrow>
     ('c, 'm) stack_state \<Rightarrow> exit_reason \<times> ('c, 'm) stack_state"
  transact_create2 :: "vicinity \<Rightarrow> h160 \<Rightarrow> u256 \<Rightarrow> bytes \<Rightarrow> h256 \<Rightarrow> u64 \<Rightarrow>
     ('c, 'm) stack_state \<Rightarrow> exit_reason \<times> ('c, 'm) stack_state"

type_synonym ('c, 'm, 'r) transact =
  "vicinity \<Rightarrow> ('c, 'm) stack_state \<Rightarrow> (exit_reason \<times> 'r) \<times> ('c, 'm) stack_state"

definition delete_accounts ::
  "('acct, 'h, 'neg, 'pos) host_api \<Rightarrow> ('acct, 'o, 'csucc, 'h) evm_cfg \<Rightarrow>
     h160 set \<Rightarrow> ('acct, 'h) evm_store \<Rightarrow> ('acct, 'h) evm_store" where
  "delete_accounts H K D v = fold (remove_account H K) (sorted_list_of_set D) v"

definition deposit_logs :: "eth_log list \<Rightarrow> ('acct, 'h) evm_store \<Rightarrow> ('acct, 'h) evm_store" where
  "deposit_logs ls v = fold (\<lambda>l. deposit_event (Event_Log l)) ls v"

text \<open>The checks before the execution, in the order of the source; they return the price and the fee.\<close>

definition execute_checks ::
  "('acct, 'h, 'neg, 'pos) host_api \<Rightarrow> ('acct, 'o, 'csucc, 'h) evm_cfg \<Rightarrow>
     h160 \<Rightarrow> u256 \<Rightarrow> u64 \<Rightarrow> u256 option \<Rightarrow> u256 option \<Rightarrow> ('acct, 'h) evm_store \<Rightarrow>
     (evm_error, u256 \<times> u256) res" where
  "execute_checks H K source value gas_limit gas_price nonce v =
     res_bind (case gas_price of
         Some p \<Rightarrow> if p \<ge> cfg_min_gas_price K (host v) then Ok p else Err GasPriceTooLow
       | None \<Rightarrow> Ok 0) (\<lambda>gas_price.
     res_bind (ok_or (checked_mul gas_price (ucast gas_limit)) FeeOverflow) (\<lambda>total_fee.
     res_bind (ok_or (checked_add value total_fee) PaymentOverflow) (\<lambda>total_payment.
     let source_account = account_basic H K source v in
     res_bind (if ac_balance source_account \<ge> total_payment then Ok () else Err BalanceLow) (\<lambda>_.
     res_bind (case nonce of
         Some n \<Rightarrow> if ac_nonce source_account = n then Ok () else Err InvalidNonce
       | None \<Rightarrow> Ok ()) (\<lambda>_.
       Ok (gas_price, total_fee))))))"

definition execute ::
  "(('acct, 'h) evm_store, 'c) storage_api \<Rightarrow> 'm meta_lib \<Rightarrow> ('acct, 'h, 'neg, 'pos) host_api \<Rightarrow>
     ('acct, 'o, 'csucc, 'h) evm_cfg \<Rightarrow> ('c, 'm) executor \<Rightarrow> h160 \<Rightarrow> u256 \<Rightarrow> u64 \<Rightarrow>
     u256 option \<Rightarrow> u256 option \<Rightarrow> ('c, 'm, 'r) transact \<Rightarrow> ('c, evm_error, 'r execution_info) act" where
  "execute A M H K X source value gas_limit gas_price nonce f =
     act_bind (\<lambda>c. (execute_checks H K source value gas_limit gas_price nonce (view A c), c))
       (\<lambda>(price, total_fee).
     let vicinity = \<lparr>vc_gas_price = price, vc_origin = source\<rparr>;
         substate0 = substate_new (meta_new M gas_limit) in
     act_bind (on_view A (on_host (withdraw_fee H K source total_fee))) (\<lambda>fee c.
     case f vicinity \<lparr>chain = c, substate = substate0\<rparr> of
       ((reason, retv), st) \<Rightarrow>
         act_bind (on_view A (on_host
           (correct_and_deposit_fee H K source (executor_fee X st price) fee))) (\<lambda>_.
         act_bind (on_view A (act_modify (delete_accounts H K (deletes (substate st))))) (\<lambda>_.
         act_bind (on_view A (act_modify (deposit_logs (logs (substate st))))) (\<lambda>_.
           act_return \<lparr>ei_exit_reason = reason, ei_value = retv, ei_used_gas = ucast (used_gas X st),
                       ei_logs = logs (substate st)\<rparr>))) (chain st)))"

definition stack_call ::
  "(('acct, 'h) evm_store, 'c) storage_api \<Rightarrow> 'm meta_lib \<Rightarrow> ('acct, 'h, 'neg, 'pos) host_api \<Rightarrow>
     ('acct, 'o, 'csucc, 'h) evm_cfg \<Rightarrow> ('c, 'm) executor \<Rightarrow> h160 \<Rightarrow> h160 \<Rightarrow> bytes \<Rightarrow> u256 \<Rightarrow>
     u64 \<Rightarrow> u256 option \<Rightarrow> u256 option \<Rightarrow> ('c, evm_error, call_info) act" where
  "stack_call A M H K X source target input value gas_limit gas_price nonce =
     execute A M H K X source value gas_limit gas_price nonce
       (\<lambda>vic. transact_call X vic source target value input gas_limit)"

definition stack_create ::
  "(('acct, 'h) evm_store, 'c) storage_api \<Rightarrow> 'm meta_lib \<Rightarrow> ('acct, 'h, 'neg, 'pos) host_api \<Rightarrow>
     ('acct, 'o, 'csucc, 'h) evm_cfg \<Rightarrow> ('c, 'm) executor \<Rightarrow> h160 \<Rightarrow> bytes \<Rightarrow> u256 \<Rightarrow>
     u64 \<Rightarrow> u256 option \<Rightarrow> u256 option \<Rightarrow> ('c, evm_error, create_info) act" where
  "stack_create A M H K X source init value gas_limit gas_price nonce =
     execute A M H K X source value gas_limit gas_price nonce (\<lambda>vic s.
       let address = create_address X (Legacy source) s in
       case transact_create X vic source value init gas_limit s of (reason, t) \<Rightarrow> ((reason, address), t))"

definition stack_create2 ::
  "(bytes \<Rightarrow> bytes) \<Rightarrow> (('acct, 'h) evm_store, 'c) storage_api \<Rightarrow> 'm meta_lib \<Rightarrow>
     ('acct, 'h, 'neg, 'pos) host_api \<Rightarrow> ('acct, 'o, 'csucc, 'h) evm_cfg \<Rightarrow> ('c, 'm) executor \<Rightarrow>
     h160 \<Rightarrow> bytes \<Rightarrow> h256 \<Rightarrow> u256 \<Rightarrow> u64 \<Rightarrow> u256 option \<Rightarrow> u256 option \<Rightarrow>
     ('c, evm_error, create_info) act" where
  "stack_create2 keccak A M H K X source init salt value gas_limit gas_price nonce =
     (let code_hash = h256_from_slice (keccak init) in
     execute A M H K X source value gas_limit gas_price nonce (\<lambda>vic s.
       let address = create_address X (Create2 source code_hash salt) s in
       case transact_create2 X vic source value init salt gas_limit s of
         (reason, t) \<Rightarrow> ((reason, address), t)))"

definition stack_runner ::
  "(bytes \<Rightarrow> bytes) \<Rightarrow> (('acct, 'h) evm_store, 'c) storage_api \<Rightarrow> 'm meta_lib \<Rightarrow>
     ('acct, 'h, 'neg, 'pos) host_api \<Rightarrow> ('acct, 'o, 'csucc, 'h) evm_cfg \<Rightarrow> ('c, 'm) executor \<Rightarrow>
     'c runner" where
  "stack_runner keccak A M H K X = \<lparr>
     runner_call = stack_call A M H K X,
     runner_create = stack_create A M H K X,
     runner_create2 = stack_create2 keccak A M H K X\<rparr>"

section \<open>Leaving a frame\<close>

text \<open>
  What the three exits share: a way to swallow the metadata of the frame that exits, a way to
  merge the frame into its parent, and the storage function that closes the transaction.
\<close>

fun depth :: "'m substate \<Rightarrow> nat" where
  "depth (Substate m d l p) = (case p of None \<Rightarrow> 0 | Some q \<Rightarrow> Suc (depth q))"

lemma depth_parent: "depth s = (case parent s of None \<Rightarrow> 0 | Some q \<Rightarrow> Suc (depth q))"
  by (cases s) simp

lemma depth_Some: "parent s = Some q \<Longrightarrow> depth s = Suc (depth q)"
  by (cases s) simp

lemma depth_cong: "parent s = parent t \<Longrightarrow> depth s = depth t"
  by (cases s; cases t) simp

lemma substate_simps [simp]:
  "parent (set_metadata m s) = parent s" "deletes (set_metadata m s) = deletes s"
  "logs (set_metadata m s) = logs s" "depth (set_metadata m s) = depth s"
  "parent (set_deleted a s) = parent s" "depth (set_deleted a s) = depth s"
  "parent (add_log a ts d s) = parent s" "depth (add_log a ts d s) = depth s"
  by (cases s; simp)+

locale frame_exit =
  fixes swallow :: "'m \<Rightarrow> ('m, exit_error, unit) act"
    and merge :: "'m \<Rightarrow> 'm substate \<Rightarrow> 'm substate \<Rightarrow> 'm substate"
    and close :: "'c \<Rightarrow> 'c"
    and exit_op :: "(('c, 'm) stack_state, exit_error, unit) act"
  assumes merge_parent: "parent (merge m self exited) = parent self"
    and exit_eq: "exit_op s = (case parent (substate s) of
       None \<Rightarrow> (Panic, s)
     | Some self \<Rightarrow>
        (case swallow (metadata (substate s)) (metadata self) of
           (Ok _, m) \<Rightarrow> (Ok (), s\<lparr>substate := merge m self (substate s), chain := close (chain s)\<rparr>)
         | (Err e, m) \<Rightarrow> (Err e, s\<lparr>substate := set_metadata m self\<rparr>)
         | (Panic, m) \<Rightarrow> (Panic, s\<lparr>substate := set_metadata m self\<rparr>)))"
begin

lemma exit_Ok:
  "exit_op s = (Ok x, t) \<longleftrightarrow> (\<exists>self m. parent (substate s) = Some self \<and>
     swallow (metadata (substate s)) (metadata self) = (Ok (), m) \<and>
     t = s\<lparr>substate := merge m self (substate s), chain := close (chain s)\<rparr>)"
  by (auto simp: exit_eq split: option.splits prod.splits res.splits)

lemma exit_depth: "exit_op s = (Ok x, t) \<Longrightarrow> depth (substate s) = Suc (depth (substate t))"
  using depth_cong [OF merge_parent] by (auto simp: exit_Ok depth_Some)

lemma exit_close: "exit_op s = (Ok x, t) \<Longrightarrow> chain t = close (chain s)"
  by (auto simp: exit_Ok)

lemma exit_failed: "exit_op s = (r, t) \<Longrightarrow> r \<noteq> Ok () \<Longrightarrow> chain t = chain s"
  by (auto simp: exit_eq split: option.splits prod.splits res.splits)

lemma exit_root: "parent (substate s) = None \<Longrightarrow> exit_op s = (Panic, s)"
  by (simp add: exit_eq)

text \<open>An error in the metadata pops the frame and leaves the storage transaction open.\<close>

lemma exit_Err:
  "exit_op s = (Err e, t) \<Longrightarrow>
     depth (substate s) = Suc (depth (substate t)) \<and> chain t = chain s"
  by (auto simp: exit_eq depth_Some split: option.splits prod.splits res.splits)

end

interpretation commit: frame_exit "swallow_commit M"
  "\<lambda>m self exited. Substate m (deletes self \<union> deletes exited) (logs self @ logs exited) (parent self)"
  "commit_transaction A" "exit_commit A M" for A M
  by unfold_locales
    (auto simp: exit_commit_def Let_def split: option.splits prod.splits res.splits)

interpretation revert: frame_exit "swallow_revert M" "\<lambda>m self exited. set_metadata m self"
  "rollback_transaction A" "exit_revert A M" for A M
  by unfold_locales
    (auto simp: exit_revert_def Let_def split: option.splits prod.splits res.splits)

interpretation discard: frame_exit "swallow_discard M" "\<lambda>m self exited. set_metadata m self"
  "rollback_transaction A" "exit_discard A M" for A M
  by unfold_locales
    (auto simp: exit_discard_def Let_def split: option.splits prod.splits res.splits)

section \<open>Frames and storage transactions\<close>

text \<open>Sequences of callbacks that never leave the frame at depth \<open>k\<close>.\<close>

inductive evm_run ::
  "(('acct, 'h) evm_store, 'c) storage_api \<Rightarrow> 'm meta_lib \<Rightarrow> ('acct, 'h, 'neg, 'pos) host_api \<Rightarrow>
     ('acct, 'o, 'csucc, 'h) evm_cfg \<Rightarrow> nat \<Rightarrow> ('c, 'm) stack_state \<Rightarrow> ('c, 'm) stack_state \<Rightarrow> bool"
  for A M H K k where
  run_refl: "k \<le> depth (substate s) \<Longrightarrow> evm_run A M H K k s s"
| run_step: "evm_run A M H K k s t \<Longrightarrow> evm_step A M H K t u \<Longrightarrow> k \<le> depth (substate u) \<Longrightarrow>
    evm_run A M H K k s u"

text \<open>The strict ancestors of a frame, nearest first.\<close>

fun ancestors :: "'m substate \<Rightarrow> 'm substate list" where
  "ancestors (Substate m d l p) = (case p of None \<Rightarrow> [] | Some q \<Rightarrow> q # ancestors q)"

lemma ancestors_simps [simp]:
  "ancestors (set_metadata m s) = ancestors s"
  "ancestors (set_deleted a s) = ancestors s" "ancestors (add_log a ts d s) = ancestors s"
  by (cases s; simp)+

lemma ancestors_Some: "parent s = Some q \<Longrightarrow> ancestors s = q # ancestors q"
  by (cases s) simp

lemma ancestors_cong: "parent s = parent t \<Longrightarrow> ancestors s = ancestors t"
  by (cases s; cases t) simp

lemma ancestors_case [simp]:
  "(case parent s of None \<Rightarrow> [] | Some q \<Rightarrow> q # ancestors q) = ancestors s"
  by (cases s) simp

lemma length_ancestors: "length (ancestors s) = depth s"
  by (induction s rule: ancestors.induct) (auto split: option.splits)

lemma storage_api_start:
  "storage_api_ok A pending \<Longrightarrow> view A (start_transaction A c) = view A c \<and>
     pending (start_transaction A c) = view A c # pending c"
  by (simp add: storage_api_ok_def)

lemma storage_api_set:
  "storage_api_ok A pending \<Longrightarrow> view A (set_view A v c) = v \<and> pending (set_view A v c) = pending c"
  by (simp add: storage_api_ok_def)

lemma storage_api_commit:
  "storage_api_ok A pending \<Longrightarrow> pending c = v # vs \<Longrightarrow>
     view A (commit_transaction A c) = view A c \<and> pending (commit_transaction A c) = vs"
  unfolding storage_api_ok_def by blast

lemma storage_api_rollback:
  "storage_api_ok A pending \<Longrightarrow> pending c = v # vs \<Longrightarrow>
     view A (rollback_transaction A c) = v \<and> pending (rollback_transaction A c) = vs"
  unfolding storage_api_ok_def by blast

text \<open>The three effects a callback can have on the frames and on the open transactions.\<close>

lemma evm_step_shape:
  assumes A: "storage_api_ok A pending" and step: "evm_step A M H K s t"
    and p: "length (pending (chain s)) \<ge> depth (substate s)"
  shows "(ancestors (substate t) = substate s # ancestors (substate s) \<and>
      pending (chain t) = view A (chain s) # pending (chain s)) \<or>
    (ancestors (substate t) = ancestors (substate s) \<and> pending (chain t) = pending (chain s)) \<or>
    (depth (substate s) > 0 \<and> ancestors (substate t) = tl (ancestors (substate s)) \<and>
      pending (chain t) = tl (pending (chain s)))"
  (is "?push \<or> ?keep \<or> ?pop")
proof -
  note w = storage_api_set [OF A] and st = storage_api_start [OF A]
  have pop: "pending (commit_transaction A c) = tl (pending c)"
    "pending (rollback_transaction A c) = tl (pending c)" if "pending c \<noteq> []" for c
    using that storage_api_commit [OF A] storage_api_rollback [OF A] by (cases "pending c"; force)+
  have ne: "parent (substate s) = Some q \<Longrightarrow> pending (chain s) \<noteq> []" for q
    using p by (auto simp: depth_Some)
  from step show ?thesis
    by cases
      (auto simp: enter_def Let_def st write_view_def w commit.exit_Ok revert.exit_Ok discard.exit_Ok
        pop ne ancestors_Some depth_Some intro: ancestors_cong)
qed

text \<open>
  The invariant of a run from the state \<open>s\<close> at depth \<open>k\<close>: as many transactions have been
  opened as frames entered, and what lies below the frame at depth \<open>k\<close> is untouched.
\<close>

definition frame_inv ::
  "('c \<Rightarrow> 'v list) \<Rightarrow> ('c, 'm) stack_state \<Rightarrow> ('c, 'm) stack_state \<Rightarrow> bool" where
  "frame_inv pending s u \<longleftrightarrow>
     (\<exists>e. depth (substate u) = depth (substate s) + e \<and>
        length (pending (chain u)) = length (pending (chain s)) + e \<and>
        drop e (ancestors (substate u)) = ancestors (substate s) \<and>
        drop e (pending (chain u)) = pending (chain s))"

lemma frame_inv_step:
  assumes A: "storage_api_ok A pending" and inv: "frame_inv pending s t"
    and step: "evm_step A M H K t u" and k: "depth (substate s) \<le> depth (substate u)"
    and p: "depth (substate s) \<le> length (pending (chain s))"
  shows "frame_inv pending s u"
proof -
  obtain e where d: "depth (substate t) = depth (substate s) + e"
    and l: "length (pending (chain t)) = length (pending (chain s)) + e"
    and a: "drop e (ancestors (substate t)) = ancestors (substate s)"
    and q: "drop e (pending (chain t)) = pending (chain s)"
    using inv unfolding frame_inv_def by blast
  have "depth (substate t) \<le> length (pending (chain t))" using d l p by simp
  from evm_step_shape [OF A step this] show ?thesis
  proof (elim disjE conjE)
    assume "ancestors (substate u) = substate t # ancestors (substate t)"
      "pending (chain u) = view A (chain t) # pending (chain t)"
    then show ?thesis
      using d l a q unfolding frame_inv_def length_ancestors [symmetric]
      by (intro exI [of _ "Suc e"]) simp
  next
    assume "ancestors (substate u) = ancestors (substate t)" "pending (chain u) = pending (chain t)"
    then show ?thesis
      using d l a q unfolding frame_inv_def length_ancestors [symmetric]
      by (intro exI [of _ e]) simp
  next
    assume dp: "0 < depth (substate t)"
      and u: "ancestors (substate u) = tl (ancestors (substate t))"
        "pending (chain u) = tl (pending (chain t))"
    have "depth (substate u) = depth (substate t) - 1"
      using u by (simp add: length_ancestors [symmetric])
    then obtain e' where e: "e = Suc e'" using k d dp by (cases e) auto
    then show ?thesis
      using d l a q u unfolding frame_inv_def length_ancestors [symmetric]
      by (intro exI [of _ e']) (simp add: drop_Suc)
  qed
qed

lemma evm_run_frame_inv:
  assumes A: "storage_api_ok A pending" and run: "evm_run A M H K k s u"
    and p: "depth (substate s) \<le> length (pending (chain s))" and k: "k = depth (substate s)"
  shows "frame_inv pending s u"
  using run p k
proof (induction rule: evm_run.induct)
  case (run_refl s)
  then show ?case by (simp add: frame_inv_def)
next
  case (run_step s t u)
  then show ?case using frame_inv_step [OF A] by blast
qed

text \<open>
  C1: reverting restores the chain. Enter a frame, let the executor make any callbacks inside it
  (nested frames, committed or reverted, included), and leave by \<open>exit_revert\<close> or
  \<open>exit_discard\<close>: the storage reads exactly as it did before entering, the transactions still
  open are the ones that were open, and the frame left current has the logs, the deletions and
  the parent it had.
\<close>

theorem revert_restores:
  assumes A: "storage_api_ok A pending"
    and p: "depth (substate s) \<le> length (pending (chain s))"
    and run: "evm_run A M H K (Suc (depth (substate s))) (enter A M gas static s) u"
    and d: "depth (substate u) = Suc (depth (substate s))"
    and exit: "exit_revert A M u = (Ok (), t) \<or> exit_discard A M u = (Ok (), t)"
  shows "view A (chain t) = view A (chain s) \<and> pending (chain t) = pending (chain s) \<and>
    logs (substate t) = logs (substate s) \<and> deletes (substate t) = deletes (substate s) \<and>
    parent (substate t) = parent (substate s)"
proof -
  let ?s1 = "enter A M gas static s"
  have s1: "depth (substate ?s1) = Suc (depth (substate s))"
    "pending (chain ?s1) = view A (chain s) # pending (chain s)"
    "ancestors (substate ?s1) = substate s # ancestors (substate s)"
    by (simp_all add: enter_def Let_def storage_api_start [OF A])
  have "frame_inv pending ?s1 u"
    by (rule evm_run_frame_inv [OF A run]) (simp_all add: s1 p)
  then obtain e where "depth (substate u) = depth (substate ?s1) + e"
    "drop e (ancestors (substate u)) = ancestors (substate ?s1)"
    "drop e (pending (chain u)) = pending (chain ?s1)"
    unfolding frame_inv_def by blast
  moreover from this have "e = 0" using d s1(1) by linarith
  ultimately have u: "pending (chain u) = view A (chain s) # pending (chain s)"
    "ancestors (substate u) = substate s # ancestors (substate s)"
    using s1 by simp_all
  have par: "parent (substate u) = Some (substate s)"
    using u(2) by (cases "substate u") (auto split: option.splits)
  obtain m where t: "t = u\<lparr>substate := set_metadata m (substate s),
      chain := rollback_transaction A (chain u)\<rparr>"
    using exit
  proof
    assume "exit_revert A M u = (Ok (), t)"
    then show thesis using that par unfolding revert.exit_Ok by fastforce
  next
    assume "exit_discard A M u = (Ok (), t)"
    then show thesis using that par unfolding discard.exit_Ok by fastforce
  qed
  have "view A (rollback_transaction A (chain u)) = view A (chain s) \<and>
      pending (rollback_transaction A (chain u)) = pending (chain s)"
    using storage_api_rollback [OF A u(1)] by simp
  then show ?thesis using t by simp
qed

text \<open>
  C15: when the gas metadata of a frame cannot be swallowed, the three exits return early: the frame
  is gone and its storage transaction stays open, with all its writes. From then on the frames and
  the open transactions no longer match, so a later exit closes the wrong transaction.
\<close>

theorem swallow_error_leaks_transaction:
  assumes "exit_commit A M s = (Err e, t) \<or> exit_revert A M s = (Err e, t) \<or>
    exit_discard A M s = (Err e, t)"
  shows "depth (substate s) = Suc (depth (substate t)) \<and> pending (chain t) = pending (chain s) \<and>
    view A (chain t) = view A (chain s)"
  using assms commit.exit_Err revert.exit_Err discard.exit_Err by metis

section \<open>Deletions and logs of nested frames\<close>

text \<open>
  Committing a frame loses nothing: an address is deleted afterwards exactly if it was before,
  the logs of the frame follow those of its parent, and the storage keeps the frame's writes while
  the innermost transaction is closed.
\<close>

theorem commit_merges:
  assumes "storage_api_ok A pending" and "exit_commit A M s = (Ok (), t)"
    and "pending (chain s) = v # vs" and "parent (substate s) = Some self"
  shows "deleted (substate t) a = deleted (substate s) a \<and>
    logs (substate t) = logs self @ logs (substate s) \<and>
    view A (chain t) = view A (chain s) \<and> pending (chain t) = vs"
proof -
  obtain m where t: "t = s\<lparr>substate := Substate m (deletes self \<union> deletes (substate s))
      (logs self @ logs (substate s)) (parent self), chain := commit_transaction A (chain s)\<rparr>"
    using assms(2,4) by (auto simp: commit.exit_Ok)
  have "deleted (substate s) a \<longleftrightarrow> a \<in> deletes (substate s) \<or> deleted self a"
    using assms(4) by (cases "substate s") auto
  then show ?thesis
    using t storage_api_commit [OF assms(1,3)] by (cases self) auto
qed

section \<open>Contract storage\<close>

text \<open>
  The callbacks that can reach the contract storage, as the executor calls them one after another
  until one fails.
\<close>

datatype callback =
    Do_enter u64 bool
  | Do_commit
  | Do_revert
  | Do_discard
  | Do_inc_nonce h160
  | Do_set_storage h160 h256 h256
  | Do_reset_storage h160
  | Do_set_code h160 bytes
  | Do_transfer h160 h160 u256
  | Do_set_deleted h160
  | Do_log h160 "h256 list" bytes

fun callback_op ::
  "(('acct, 'h) evm_store, 'c) storage_api \<Rightarrow> 'm meta_lib \<Rightarrow> ('acct, 'h, 'neg, 'pos) host_api \<Rightarrow>
     ('acct, 'o, 'csucc, 'h) evm_cfg \<Rightarrow> callback \<Rightarrow> (('c, 'm) stack_state, exit_error, unit) act" where
  "callback_op A M H K (Do_enter gas st) = act_modify (enter A M gas st)"
| "callback_op A M H K Do_commit = exit_commit A M"
| "callback_op A M H K Do_revert = exit_revert A M"
| "callback_op A M H K Do_discard = exit_discard A M"
| "callback_op A M H K (Do_inc_nonce a) = act_modify (write_view A (inc_nonce H K a))"
| "callback_op A M H K (Do_set_storage a i x) = act_modify (write_view A (set_storage a i x))"
| "callback_op A M H K (Do_reset_storage a) = act_modify (write_view A (reset_storage a))"
| "callback_op A M H K (Do_set_code a code) = act_modify (write_view A (set_code H K a code))"
| "callback_op A M H K (Do_transfer a b x) = (\<lambda>s.
     (fst (state_transfer H K a b x (view A (chain s))),
      write_view A (\<lambda>v. snd (state_transfer H K a b x v)) s))"
| "callback_op A M H K (Do_set_deleted a) = act_modify (\<lambda>s. s\<lparr>substate := set_deleted a (substate s)\<rparr>)"
| "callback_op A M H K (Do_log a ts d) = act_modify (\<lambda>s. s\<lparr>substate := add_log a ts d (substate s)\<rparr>)"

fun run_callbacks ::
  "(('acct, 'h) evm_store, 'c) storage_api \<Rightarrow> 'm meta_lib \<Rightarrow> ('acct, 'h, 'neg, 'pos) host_api \<Rightarrow>
     ('acct, 'o, 'csucc, 'h) evm_cfg \<Rightarrow> callback list \<Rightarrow> (('c, 'm) stack_state, exit_error, unit) act" where
  "run_callbacks A M H K [] = act_return ()"
| "run_callbacks A M H K (k # ks) = act_bind (callback_op A M H K k) (\<lambda>_. run_callbacks A M H K ks)"

text \<open>
  What the storage of contracts is meant to be: a stack of memories, the current one first, each
  giving every slot of every address a value, zero where nothing was written.
\<close>

type_synonym slots = "h160 \<Rightarrow> h256 \<Rightarrow> h256"

fun slots_step :: "callback \<Rightarrow> slots list \<Rightarrow> slots list" where
  "slots_step (Do_enter gas st) ms = hd ms # ms"
| "slots_step Do_commit ms = hd ms # tl (tl ms)"
| "slots_step Do_revert ms = tl ms"
| "slots_step Do_discard ms = tl ms"
| "slots_step (Do_set_storage a i x) ms = (hd ms)(a := (hd ms a)(i := x)) # tl ms"
| "slots_step (Do_reset_storage a) ms = (hd ms)(a := (\<lambda>_. 0)) # tl ms"
| "slots_step _ ms = ms"

definition slots_of :: "('acct, 'h) evm_store \<Rightarrow> slots" where
  "slots_of v = (\<lambda>a i. backend_storage a i v)"

definition slots_abs ::
  "(('acct, 'h) evm_store, 'c) storage_api \<Rightarrow> ('c \<Rightarrow> ('acct, 'h) evm_store list) \<Rightarrow> 'c \<Rightarrow> slots list" where
  "slots_abs A pending c = map slots_of (view A c # pending c)"

lemma slots_of_simps [simp]:
  "slots_of (set_storage a i x v) = (slots_of v)(a := (slots_of v a)(i := x))"
  "slots_of (reset_storage a v) = (slots_of v)(a := (\<lambda>_. 0))"
  "slots_of (set_code H K a code v) = slots_of v"
  "slots_of (inc_nonce H K a v) = slots_of v"
  "slots_of (snd (state_transfer H K a b y v)) = slots_of v"
  by (auto simp: slots_of_def backend_storage_def set_storage_def reset_storage_def set_code_def
      create_account_def Let_def inc_nonce_def state_transfer_def on_host_def fun_eq_iff
      split: prod.splits)

text \<open>The stack has a memory for every open frame, and the current one.\<close>

definition slots_sound :: "('c \<Rightarrow> 'v list) \<Rightarrow> ('c, 'm) stack_state \<Rightarrow> bool" where
  "slots_sound pending s \<longleftrightarrow> depth (substate s) \<le> length (pending (chain s))"

lemma callback_refines:
  assumes A: "storage_api_ok A pending" and p: "slots_sound pending s"
    and op: "callback_op A M H K k s = (r, t)"
  shows "slots_abs A pending (chain t) =
      (if r = Ok () then slots_step k (slots_abs A pending (chain s)) else slots_abs A pending (chain s)) \<and>
    (r = Ok () \<longrightarrow> slots_sound pending t)"
proof -
  note w = storage_api_set [OF A] and st = storage_api_start [OF A]
  show ?thesis
  proof (cases "k \<in> {Do_commit, Do_revert, Do_discard}")
    case exits: True
    show ?thesis
    proof (cases "r = Ok ()")
      case True
      have d: "depth (substate s) = Suc (depth (substate t))"
        using exits op True commit.exit_depth revert.exit_depth discard.exit_depth by auto
      then obtain v vs where v: "pending (chain s) = v # vs" "depth (substate t) \<le> length vs"
        using p by (cases "pending (chain s)") (auto simp: slots_sound_def)
      have "chain t = (if k = Do_commit then commit_transaction A else rollback_transaction A) (chain s)"
        using exits op True commit.exit_close revert.exit_close discard.exit_close by auto
      then show ?thesis
        using exits True v storage_api_commit [OF A v(1)] storage_api_rollback [OF A v(1)]
        by (auto simp: slots_abs_def slots_sound_def)
    next
      case False
      have "chain t = chain s"
        using exits op False commit.exit_failed revert.exit_failed discard.exit_failed by auto
      then show ?thesis using False by simp
    qed
  next
    case False
    then show ?thesis
      using op p w st
      by (cases k)
        (auto simp: act_simps slots_abs_def slots_sound_def write_view_def enter_def Let_def)
  qed
qed

text \<open>
  C14: the storage of contracts. Whatever sequence of callbacks the executor makes, frames entered,
  committed, reverted and discarded included, every slot of every address reads as in the stack of
  memories: the value last written to it, a zero included, in the frames that were not undone.
  A callback that fails ends the sequence and changes no slot.
\<close>

theorem storage_refines:
  assumes "storage_api_ok A pending" and "depth (substate s) \<le> length (pending (chain s))"
    and "run_callbacks A M H K ks s = (r, t)"
  shows "\<exists>n \<le> length ks. (r = Ok () \<longleftrightarrow> n = length ks) \<and>
    map slots_of (view A (chain t) # pending (chain t)) =
      fold slots_step (take n ks) (map slots_of (view A (chain s) # pending (chain s))) \<and>
    backend_storage a i (view A (chain t)) =
      hd (fold slots_step (take n ks) (map slots_of (view A (chain s) # pending (chain s)))) a i"
proof -
  have "\<exists>n \<le> length ks. (r = Ok () \<longleftrightarrow> n = length ks) \<and>
      slots_abs A pending (chain t) = fold slots_step (take n ks) (slots_abs A pending (chain s))"
    if "slots_sound pending s" "run_callbacks A M H K ks s = (r, t)"
    using that
  proof (induction ks arbitrary: s)
    case Nil
    then show ?case by (simp add: act_simps)
  next
    case (Cons k ks)
    obtain r1 s1 where k: "callback_op A M H K k s = (r1, s1)" by (cases "callback_op A M H K k s")
    note ref = callback_refines [OF assms(1) Cons.prems(1) k]
    show ?case
    proof (cases "r1 = Ok ()")
      case True
      then obtain n where "n \<le> length ks" "r = Ok () \<longleftrightarrow> n = length ks"
        "slots_abs A pending (chain t) = fold slots_step (take n ks) (slots_abs A pending (chain s1))"
        using Cons.IH [of s1] Cons.prems(2) k ref by (auto simp: act_bind_def)
      then show ?thesis using True ref by (intro exI [of _ "Suc n"]) simp
    next
      case False
      then have "r \<noteq> Ok ()" "t = s1"
        using Cons.prems(2) k by (cases r1; auto simp: act_bind_def)+
      then show ?thesis using False ref by (intro exI [of _ 0]) simp
    qed
  qed
  then obtain n where n: "n \<le> length ks" "r = Ok () \<longleftrightarrow> n = length ks"
    "slots_abs A pending (chain t) = fold slots_step (take n ks) (slots_abs A pending (chain s))"
    using assms(2,3) by (auto simp: slots_sound_def)
  have "slots_of (view A (chain t)) = hd (slots_abs A pending (chain t))" by (simp add: slots_abs_def)
  then have "backend_storage a i (view A (chain t)) =
      hd (fold slots_step (take n ks) (slots_abs A pending (chain s))) a i"
    unfolding n(3) by (metis slots_of_def)
  then show ?thesis using n unfolding slots_abs_def by (intro exI [of _ n] conjI)
qed

section \<open>Executions\<close>

lemma execute_checks_eq:
  "execute_checks H K source value gas_limit gas_price nonce v =
     (let p = (case gas_price of Some p \<Rightarrow> p | None \<Rightarrow> 0);
          fee = unat p * unat gas_limit;
          acc = cfg_into_account_id K source
      in if \<exists>g. gas_price = Some g \<and> g < cfg_min_gas_price K (host v) then Err GasPriceTooLow
         else if 2 ^ 256 \<le> fee then Err FeeOverflow
         else if 2 ^ 256 \<le> unat value + fee then Err PaymentOverflow
         else if unat (free_balance H acc (host v)) < unat value + fee then Err BalanceLow
         else if \<exists>n. nonce = Some n \<and> unat n \<noteq> unat (account_nonce H acc (host v)) then Err InvalidNonce
         else Ok (p, word_of_nat fee))"
proof -
  let ?p = "case gas_price of Some p \<Rightarrow> p | None \<Rightarrow> 0"
  let ?acc = "account_basic H K source v"
  define F where "F = unat ?p * unat gas_limit"
  define T where "T = unat value + F"
  have g: "unat (ucast gas_limit :: u256) = unat gas_limit"
    using unat_bound [of gas_limit] by (simp add: unat_ucast_id)
  have price: "(case gas_price of
         Some p \<Rightarrow> if p \<ge> cfg_min_gas_price K (host v) then Ok p else Err GasPriceTooLow
       | None \<Rightarrow> Ok 0) =
      (if \<exists>g. gas_price = Some g \<and> g < cfg_min_gas_price K (host v) then Err GasPriceTooLow else Ok ?p)"
    by (auto simp: not_le split: option.splits)
  have mul: "checked_mul ?p (ucast gas_limit) = (if 2 ^ 256 \<le> F then None else Some (word_of_nat F))"
    by (auto simp: checked_mul_def g F_def)
  have add: "checked_add value (word_of_nat F) =
      (if 2 ^ 256 \<le> T then None else Some (word_of_nat T))"
    if "\<not> 2 ^ 256 \<le> F"
    using that by (auto simp: checked_add_def unat_of_nat T_def)
  have bal: "word_of_nat T \<le> ac_balance ?acc \<longleftrightarrow>
      \<not> unat (free_balance H (cfg_into_account_id K source) (host v)) < T"
    if "\<not> 2 ^ 256 \<le> T"
    using that by (simp add: word_le_nat_alt account_basic_exact unat_of_nat not_less)
  have non: "(case nonce of Some n \<Rightarrow> if ac_nonce ?acc = n then Ok () else Err InvalidNonce
       | None \<Rightarrow> Ok ()) =
      (if \<exists>n. nonce = Some n \<and> unat n \<noteq> unat (account_nonce H (cfg_into_account_id K source) (host v))
       then Err InvalidNonce else Ok ())"
    by (auto simp: word_unat_eq_iff account_basic_exact split: option.splits)
  show ?thesis
    unfolding execute_checks_def price non Let_def F_def [symmetric] T_def [symmetric]
    by (auto simp: mul add bal)
qed

lemma execute_checks_Ok_fee:
  assumes "execute_checks H K source value gas_limit gas_price nonce v = Ok (price, fee)"
  shows "unat fee = unat price * unat gas_limit" and "unat value + unat fee < 2 ^ 128"
    and "unat (low_u128 fee) = unat fee"
proof -
  let ?p = "case gas_price of Some p \<Rightarrow> p | None \<Rightarrow> 0"
  have r: "price = ?p" "fee = word_of_nat (unat ?p * unat gas_limit)" "unat ?p * unat gas_limit < 2 ^ 256"
    "unat value + unat ?p * unat gas_limit \<le> unat (free_balance H (cfg_into_account_id K source) (host v))"
    using assms by (auto simp: execute_checks_eq Let_def not_less split: if_splits)
  show fee: "unat fee = unat price * unat gas_limit"
    using r(1-3) by (simp only: unat_of_nat) simp
  show b: "unat value + unat fee < 2 ^ 128"
    using r(1,4) fee unat_bound [of "free_balance H (cfg_into_account_id K source) (host v)"] by simp
  show "unat (low_u128 fee) = unat fee"
    using b by (simp add: unat_low_u128)
qed

text \<open>
  C2: the checks in front of an execution. They are made in this order: the gas price against the
  minimum (skipped for an estimation), the fee and the payment against overflow of 256 bits, the
  balance, the nonce. A failed check is the result and the chain is not touched. When all pass,
  the fee is the price times the gas limit, computed without wrap-around, and fits the 128 bits
  of a balance, so that nothing is lost when it is truncated for the withdrawal.
\<close>

theorem execute_guards:
  "(let p = (case gas_price of Some p \<Rightarrow> p | None \<Rightarrow> 0);
        fee = unat p * unat gas_limit;
        v = view A c;
        acc = cfg_into_account_id K source;
        failed = (\<lambda>e. execute A M H K X source value gas_limit gas_price nonce f c = (Err e, c))
    in if \<exists>g. gas_price = Some g \<and> g < cfg_min_gas_price K (host v) then failed GasPriceTooLow
       else if 2 ^ 256 \<le> fee then failed FeeOverflow
       else if 2 ^ 256 \<le> unat value + fee then failed PaymentOverflow
       else if unat (free_balance H acc (host v)) < unat value + fee then failed BalanceLow
       else if \<exists>n. nonce = Some n \<and> unat n \<noteq> unat (account_nonce H acc (host v)) then failed InvalidNonce
       else execute_checks H K source value gas_limit gas_price nonce v = Ok (p, word_of_nat fee) \<and>
            fee < 2 ^ 128 \<and> unat (low_u128 (word_of_nat fee)) = fee)"
proof (cases "execute_checks H K source value gas_limit gas_price nonce (view A c)")
  case (Ok pf)
  then obtain price fee where pf: "pf = (price, fee)" by (cases pf)
  show ?thesis
    using execute_checks_Ok_fee [OF Ok [unfolded pf]] Ok pf
    unfolding execute_checks_eq Let_def by (auto split: if_splits)
next
  case (Err e)
  then have "execute A M H K X source value gas_limit gas_price nonce f c = (Err e, c)"
    by (simp add: execute_def act_bind_def)
  then show ?thesis using Err unfolding execute_checks_eq Let_def by (auto split: if_splits)
next
  case Panic
  then show ?thesis unfolding execute_checks_eq Let_def by (auto split: if_splits)
qed

text \<open>
  What the executor documents: it reaches its final state by callbacks, never leaving the frame it
  was started in, and ends in that frame.
\<close>

definition transact_ok ::
  "(('acct, 'h) evm_store, 'c) storage_api \<Rightarrow> 'm meta_lib \<Rightarrow> ('acct, 'h, 'neg, 'pos) host_api \<Rightarrow>
     ('acct, 'o, 'csucc, 'h) evm_cfg \<Rightarrow> ('c, 'm, 'r) transact \<Rightarrow> bool" where
  "transact_ok A M H K f \<longleftrightarrow>
     (\<forall>vic s. evm_run A M H K (depth (substate s)) s (snd (f vic s)) \<and>
        depth (substate (snd (f vic s))) = depth (substate s))"

lemma remove_account_simps [simp]:
  "codes (remove_account H K a v) = (codes v)(a := None)"
  "storages (remove_account H K a v) = (storages v)(a := (\<lambda>_. None))"
  "events (remove_account H K a v) = events v"
  by (simp_all add: remove_account_def Let_def)

lemma fold_remove_account:
  "codes (fold (remove_account H K) as v) = (\<lambda>a. if a \<in> set as then None else codes v a)"
  "storages (fold (remove_account H K) as v) = (\<lambda>a. if a \<in> set as then (\<lambda>_. None) else storages v a)"
  "events (fold (remove_account H K) as v) = events v"
  by (induction as arbitrary: v) (auto simp: fun_eq_iff)

lemma delete_accounts_simps [simp]:
  "codes (delete_accounts H K D v) = (\<lambda>a. if a \<in> D then None else codes v a)"
  "storages (delete_accounts H K D v) = (\<lambda>a. if a \<in> D then (\<lambda>_. None) else storages v a)"
  "events (delete_accounts H K D v) = events v"
  by (simp_all add: delete_accounts_def fold_remove_account)

lemma deposit_logs_simps [simp]:
  "codes (deposit_logs ls v) = codes v" "storages (deposit_logs ls v) = storages v"
  "events (deposit_logs ls v) = events v @ map Event_Log ls"
  by (induction ls arbitrary: v) (simp_all add: deposit_logs_def deposit_event_def)

lemma execute_after_checks:
  assumes A: "storage_api_ok A pending" and cur: "currency_ok H pos_peek"
    and ok: "execute_checks H K source value gas_limit gas_price nonce (view A c) = Ok (price, fee)"
    and wd: "withdraw_fee H K source fee (host (view A c)) = (Ok imb, h1)"
    and f: "f \<lparr>vc_gas_price = price, vc_origin = source\<rparr>
      \<lparr>chain = set_view A ((view A c)\<lparr>host := h1\<rparr>) c, substate = substate_new (meta_new M gas_limit)\<rparr> =
      ((reason, retv), st)"
  obtains h c' where
    "execute A M H K X source value gas_limit gas_price nonce f c =
      (Ok \<lparr>ei_exit_reason = reason, ei_value = retv, ei_used_gas = ucast (used_gas X st),
          ei_logs = logs (substate st)\<rparr>, c')"
    "view A c' = deposit_logs (logs (substate st)) (delete_accounts H K (deletes (substate st))
       ((view A (chain st))\<lparr>host := h\<rparr>))"
    "pending c' = pending (chain st)"
proof -
  obtain n where n: "imb = Some n" using withdraw_fee_Ok [OF cur wd] by blast
  obtain kept h2 where cd: "correct_and_deposit_fee H K source (executor_fee X st price) imb
      (host (view A (chain st))) = (Ok (), on_unbalanced H kept h2)"
    using correct_and_deposit_fee_settles [OF cur, of K source "executor_fee X st price" n] n by blast
  define v1 where "v1 = (view A (chain st))\<lparr>host := on_unbalanced H kept h2\<rparr>"
  define v2 where "v2 = delete_accounts H K (deletes (substate st)) v1"
  define v3 where "v3 = deposit_logs (logs (substate st)) v2"
  show thesis
    by (rule that [of "set_view A v3 (set_view A v2 (set_view A v1 (chain st)))" "on_unbalanced H kept h2"])
      (auto simp: v1_def v2_def v3_def execute_def act_bind_def on_view_def on_host_def act_simps ok wd f cd
        Let_def storage_api_set [OF A])
qed

text \<open>
  C3: an execution whose checks pass and whose fee is withdrawn completes, whatever the EVM code
  does: the outcome reports the executor's exit reason, value and logs; exactly the logs of the
  outcome are deposited as events, in order, after those of the execution itself; the accounts the
  execution marked for deletion lose their code and storage and no other account does; and as many
  storage transactions are open as before.
\<close>

theorem execute_completes:
  assumes A: "storage_api_ok A pending" and cur: "currency_ok H pos_peek"
    and T: "transact_ok A M H K f"
    and ok: "execute_checks H K source value gas_limit gas_price nonce (view A c) = Ok (price, fee)"
    and wd: "withdraw_fee H K source fee (host (view A c)) = (Ok imb, h1)"
    and f: "f \<lparr>vc_gas_price = price, vc_origin = source\<rparr>
      \<lparr>chain = set_view A ((view A c)\<lparr>host := h1\<rparr>) c, substate = substate_new (meta_new M gas_limit)\<rparr> =
      ((reason, retv), st)"
  shows "\<exists>info c'. execute A M H K X source value gas_limit gas_price nonce f c = (Ok info, c') \<and>
    ei_exit_reason info = reason \<and> ei_value info = retv \<and> ei_logs info = logs (substate st) \<and>
    events (view A c') = events (view A (chain st)) @ map Event_Log (ei_logs info) \<and>
    (\<forall>a. if a \<in> deletes (substate st)
         then codes (view A c') a = None \<and> storages (view A c') a = (\<lambda>_. None)
         else codes (view A c') a = codes (view A (chain st)) a \<and>
           storages (view A c') a = storages (view A (chain st)) a) \<and>
    pending c' = pending c"
proof -
  let ?s0 = "\<lparr>chain = set_view A ((view A c)\<lparr>host := h1\<rparr>) c,
    substate = substate_new (meta_new M gas_limit)\<rparr>"
  have "evm_run A M H K (depth (substate ?s0)) ?s0 st" "depth (substate st) = depth (substate ?s0)"
    using T f unfolding transact_ok_def by (metis snd_conv)+
  then have "frame_inv pending ?s0 st" "depth (substate st) = depth (substate ?s0)"
    using evm_run_frame_inv [OF A, of M H K _ ?s0 st] by (simp_all add: substate_new_def)
  then have p: "pending (chain st) = pending c"
    using storage_api_set [OF A] by (auto simp: frame_inv_def)
  show ?thesis
    by (rule execute_after_checks [where f = f and X = X and M = M, OF A cur ok wd f]) (auto simp: p)
qed

section \<open>Witnesses\<close>

text \<open>Gas metadata as a counter; a frame with more than nine units cannot be swallowed.\<close>

definition sample_meta :: "nat meta_lib" where
  "sample_meta = \<lparr>
     meta_new = (\<lambda>g. unat g),
     spit_child = (\<lambda>m g st. m + unat g),
     swallow_commit = (\<lambda>c m. if c > 9 then (Err OutOfGas, m) else (Ok (), m + 1)),
     swallow_revert = (\<lambda>c m. if c > 9 then (Err OutOfGas, m) else (Ok (), m + 2)),
     swallow_discard = (\<lambda>c m. if c > 9 then (Err OutOfGas, m) else (Ok (), m))\<rparr>"

definition sample_executor ::
  "((h256, sample_h) evm_store \<times> (h256, sample_h) evm_store list, nat) executor" where
  "sample_executor = \<lparr>
     used_gas = (\<lambda>_. 5),
     executor_fee = (\<lambda>_ p. 5 * p),
     create_address = (\<lambda>_ _. 77),
     transact_call = (\<lambda>vic a b x i g s.
       ((Succeed Stopped, i), s\<lparr>substate := add_log b [] i (substate s)\<rparr>)),
     transact_create = (\<lambda>vic a x i g s. (Revert, s)),
     transact_create2 = (\<lambda>vic a x i salt g s. (Revert, s))\<rparr>"

definition sample_state ::
  "((h256, sample_h) evm_store \<times> (h256, sample_h) evm_store list, nat) stack_state" where
  "sample_state = \<lparr>chain = (sample_store, []), substate = substate_new 0\<rparr>"

theorem revert_restores_witness:
  "\<exists>t. exit_revert sample_storage sample_meta (enter sample_storage sample_meta 3 False sample_state) =
       (Ok (), t) \<and> view sample_storage (chain t) = sample_store \<and> snd (chain t) = []"
proof -
  let ?u = "enter sample_storage sample_meta 3 False sample_state"
  have d: "depth (substate ?u) = Suc (depth (substate sample_state))"
    by (simp add: enter_def Let_def sample_state_def substate_new_def)
  have r: "evm_run sample_storage sample_meta sample_host sample_cfg
      (Suc (depth (substate sample_state))) ?u ?u"
    by (rule run_refl) (simp add: d)
  obtain t where t: "exit_revert sample_storage sample_meta ?u = (Ok (), t)"
    by (simp add: exit_revert_def enter_def Let_def sample_meta_def sample_state_def substate_new_def)
  have "depth (substate sample_state) \<le> length (snd (chain sample_state))"
    by (simp add: sample_state_def substate_new_def)
  from revert_restores [OF sample_storage_ok this r d, of t] t show ?thesis
    by (simp add: sample_state_def sample_storage_def)
qed

theorem swallow_error_leaks_transaction_witness:
  "\<exists>t. exit_commit sample_storage sample_meta (enter sample_storage sample_meta 30 False sample_state) =
       (Err OutOfGas, t) \<and> depth (substate t) = 0 \<and> snd (chain t) = [sample_store]"
proof -
  let ?u = "enter sample_storage sample_meta 30 False sample_state"
  obtain t where t: "exit_commit sample_storage sample_meta ?u = (Err OutOfGas, t)"
    by (simp add: exit_commit_def enter_def Let_def sample_meta_def sample_state_def substate_new_def)
  have "depth (substate ?u) = 1" "snd (chain ?u) = [sample_store]"
    by (simp_all add: enter_def Let_def sample_state_def sample_storage_def substate_new_def)
  then show ?thesis
    using t swallow_error_leaks_transaction [of sample_storage sample_meta ?u OutOfGas t snd] by simp
qed

theorem commit_merges_witness:
  "\<exists>t. exit_commit sample_storage sample_meta (enter sample_storage sample_meta 3 False sample_state) =
       (Ok (), t) \<and> logs (substate t) = [] \<and> snd (chain t) = []"
proof -
  let ?u = "enter sample_storage sample_meta 3 False sample_state"
  obtain t where t: "exit_commit sample_storage sample_meta ?u = (Ok (), t)"
    by (simp add: exit_commit_def enter_def Let_def sample_meta_def sample_state_def substate_new_def)
  have "snd (chain ?u) = sample_store # []" "parent (substate ?u) = Some (substate_new 0)"
    "logs (substate ?u) = []"
    by (simp_all add: enter_def Let_def sample_state_def sample_storage_def substate_new_def)
  then show ?thesis
    using t commit_merges [OF sample_storage_ok t] by (simp add: substate_new_def)
qed

text \<open>
  A write of 9 that stays, one of 5 in a frame that is reverted, and one of zero in a frame that
  is committed.
\<close>

theorem storage_refines_witness:
  "\<exists>t. run_callbacks sample_storage sample_meta sample_host sample_cfg
       [Do_set_storage 1 2 9, Do_set_storage 1 3 9, Do_enter 3 False, Do_set_storage 1 2 5, Do_revert,
        Do_enter 3 False, Do_set_storage 1 3 0, Do_commit] sample_state = (Ok (), t) \<and>
     backend_storage 1 2 (view sample_storage (chain t)) = 9 \<and>
     backend_storage 1 3 (view sample_storage (chain t)) = 0"
proof -
  let ?ks = "[Do_set_storage 1 2 9, Do_set_storage 1 3 9, Do_enter 3 False, Do_set_storage 1 2 5, Do_revert,
    Do_enter 3 False, Do_set_storage 1 3 0, Do_commit]"
  obtain t where t: "run_callbacks sample_storage sample_meta sample_host sample_cfg ?ks sample_state =
      (Ok (), t)"
    by (simp add: act_simps exit_commit_def exit_revert_def enter_def Let_def write_view_def
        sample_meta_def sample_state_def substate_new_def)
  have "depth (substate sample_state) \<le> length (snd (chain sample_state))"
    by (simp add: sample_state_def substate_new_def)
  note r = storage_refines [OF sample_storage_ok this t]
  show ?thesis using t r [of 1 2] r [of 1 3] by auto
qed

lemma sample_transact_ok:
  "transact_ok sample_storage sample_meta sample_host sample_cfg
     (\<lambda>vic. transact_call sample_executor vic 3 8 0 [1] 10)"
proof -
  have "evm_run sample_storage sample_meta sample_host sample_cfg (depth (substate s)) s
      (s\<lparr>substate := add_log 8 [] [1] (substate s)\<rparr>)" for s
    by (rule run_step [OF run_refl step_log]) simp_all
  then show ?thesis by (simp add: transact_ok_def sample_executor_def)
qed

theorem execute_completes_witness:
  "\<exists>info c'. stack_call sample_storage sample_meta sample_host sample_cfg sample_executor 3 8 [1] 0 10
       (Some 2) (Some 0) (sample_store, []) = (Ok info, c') \<and>
     length (events (view sample_storage c')) = 1 \<and> snd c' = []"
proof -
  let ?f = "\<lambda>vic. transact_call sample_executor vic 3 8 0 [1] 10"
  let ?v = "\<lparr>vc_gas_price = 2, vc_origin = 3\<rparr>"
  let ?h = "((\<lambda>_. 1000)(3 := 980), \<lambda>_. 0, \<lambda>_. 0) :: sample_h"
  let ?s = "\<lparr>chain = set_view sample_storage ((view sample_storage (sample_store, []))\<lparr>host := ?h\<rparr>)
      (sample_store, []), substate = substate_new (meta_new sample_meta 10)\<rparr>"
  have ok: "execute_checks sample_host sample_cfg 3 0 10 (Some 2) (Some 0)
      (view sample_storage (sample_store, [])) = Ok (2, 20)"
    by (simp add: execute_checks_eq Let_def sample_host_def sample_cfg_def sample_storage_def sample_store_def)
  have wd: "withdraw_fee sample_host sample_cfg 3 20 (host (view sample_storage (sample_store, []))) =
      (Ok (Some 20), ?h)"
    by (simp add: withdraw_fee_def sample_host_def sample_cfg_def low_u128_def sample_storage_def sample_store_def)
  have f: "?f ?v ?s = ((Succeed Stopped, [1]), ?s\<lparr>substate := add_log 8 [] [1] (substate ?s)\<rparr>)"
    by (simp add: sample_executor_def)
  show ?thesis
    using execute_completes [where f = ?f and X = sample_executor and M = sample_meta,
        OF sample_storage_ok sample_currency_ok sample_transact_ok ok wd f]
    by (auto simp: stack_call_def sample_storage_def sample_store_def substate_new_def)
qed

end
