(* ===== verification/Eth_Pallet.thy ===== *)
theory Eth_Pallet
  imports Evm_Runner Consensus_Log
begin

text \<open>
  \<open>frame/ethereum/src/lib.rs\<close>: the Ethereum pallet. It validates and executes Ethereum
  transactions through the EVM runner, collects them in \<open>Pending\<close>, and turns them into an
  Ethereum block, with a log in the header's digest, when the Substrate block is finalised.
  The pallet's storage, the digest of the current header and the chain state of the EVM pallet
  form \<open>eth_state\<close>. Hashing, RLP, block assembly, bloom filters and signature recovery are the
  parameter \<open>eth_lib\<close>; the author lookup, the state root and the block gas limit are the
  configuration \<open>eth_cfg\<close>.
\<close>

section \<open>State and configuration\<close>

datatype eth_event = Event_EthExecuted h160 h160 h256 exit_reason

datatype eth_error = InvalidSignature | PreLogExists

fun eth_error_name :: "eth_error \<Rightarrow> string" where
  "eth_error_name InvalidSignature = ''InvalidSignature''"
| "eth_error_name PreLogExists = ''PreLogExists''"

datatype storage_schema = Schema_Undefined | Schema_V1

type_synonym pending_entry = "transaction \<times> transaction_status \<times> receipt"

record ('d, 'c) eth_state =
  pending_txs :: "pending_entry list"
  cur_block :: "block option"
  cur_receipts :: "receipt list option"
  cur_statuses :: "transaction_status list option"
  schema :: "storage_schema option"
  eth_events :: "eth_event list"
  digest :: "'d list"
  evm :: 'c

record ('d, 'c) eth_cfg =
  ec_find_author :: "'d list \<Rightarrow> h160 option"
  ec_state_root :: "'c \<Rightarrow> h256"
  ec_block_gas_limit :: u256

section \<open>Signatures and blooms\<close>

definition recover_signer :: "eth_lib \<Rightarrow> transaction \<Rightarrow> h160 option" where
  "recover_signer L transaction =
     (let sig = h256_bytes (sig_r (tx_signature transaction)) @
                h256_bytes (sig_s (tx_signature transaction)) @
                [standard_v L (sig_v (tx_signature transaction))];
          msg = h256_bytes (message_hash L transaction)
      in case ecdsa_recover L sig msg of
           None \<Rightarrow> None
         | Some pubkey \<Rightarrow> Some (h160_from_h256 (h256_from_slice (keccak256 L pubkey))))"

fun accrue_topics :: "eth_lib \<Rightarrow> h256 list \<Rightarrow> bloom \<Rightarrow> bloom" where
  "accrue_topics L [] b = b"
| "accrue_topics L (t # ts) b = accrue_topics L ts (bloom_accrue L (h256_bytes t) b)"

fun logs_bloom :: "eth_lib \<Rightarrow> eth_log list \<Rightarrow> bloom \<Rightarrow> bloom" where
  "logs_bloom L [] b = b"
| "logs_bloom L (l # ls) b =
     logs_bloom L ls (accrue_topics L (log_topics l) (bloom_accrue L (h160_bytes (log_address l)) b))"

section \<open>Validation\<close>

datatype invalid_transaction = Invalid_Custom u8 | Invalid_Stale | Invalid_Payment | Invalid_Call

datatype transaction_validation_error = UnknownError | InvalidChainId | InvalidSignatureTx

fun validation_code :: "transaction_validation_error \<Rightarrow> u8" where
  "validation_code UnknownError = 0"
| "validation_code InvalidChainId = 1"
| "validation_code InvalidSignatureTx = 2"

record valid_transaction =
  vt_provides :: "(h160 \<times> u256) list"
  vt_requires :: "(h160 \<times> u256) list"

text \<open>The calls of the pallet: \<open>transact\<close>; \<open>Other_Call\<close> stands for the variants the macro adds.\<close>

datatype eth_call = Call_transact transaction | Other_Call

definition validate_unsigned ::
  "eth_lib \<Rightarrow> (('acct, 'h) evm_store, 'c) storage_api \<Rightarrow> ('acct, 'h, 'neg, 'pos) host_api \<Rightarrow>
     ('acct, 'o, 'csucc, 'h) evm_cfg \<Rightarrow> eth_call \<Rightarrow> ('d, 'c) eth_state \<Rightarrow>
     (invalid_transaction, valid_transaction) res" where
  "validate_unsigned L A H K c s =
     (case c of
        Other_Call \<Rightarrow> Err Invalid_Call
      | Call_transact transaction \<Rightarrow>
          res_bind
            (case chain_id_of_v L (sig_v (tx_signature transaction)) of
               Some chain_id \<Rightarrow>
                 if chain_id \<noteq> cfg_chain_id K then Err (Invalid_Custom (validation_code InvalidChainId))
                 else Ok ()
             | None \<Rightarrow> Ok ()) (\<lambda>_.
          res_bind (ok_or (recover_signer L transaction)
            (Invalid_Custom (validation_code InvalidSignatureTx))) (\<lambda>origin.
          let account_data = account_basic H K origin (view A (evm s)) in
          if tx_nonce transaction < ac_nonce account_data then Err Invalid_Stale
          else
            let fee = saturating_mul (tx_gas_price transaction) (tx_gas_limit transaction);
                total_payment = saturating_add (tx_value transaction) fee in
            if ac_balance account_data < total_payment then Err Invalid_Payment
            else if tx_gas_price transaction < cfg_min_gas_price K (host (view A (evm s)))
            then Err Invalid_Payment
            else
              let builder = \<lparr>vt_provides = [(origin, tx_nonce transaction)], vt_requires = []\<rparr> in
              Ok (if tx_nonce transaction > ac_nonce account_data then
                    (case checked_sub (tx_nonce transaction) 1 of
                       Some prev_nonce \<Rightarrow> builder\<lparr>vt_requires := [(origin, prev_nonce)]\<rparr>
                     | None \<Rightarrow> builder)
                  else builder))))"

section \<open>Executing transactions\<close>

text \<open>An action of the EVM pallet, on the EVM part of the state; its error becomes a dispatch error.\<close>

definition on_evm :: "('c, evm_error, 'a) act \<Rightarrow> (('d, 'c) eth_state, dispatch_error, 'a) act" where
  "on_evm m = (\<lambda>s. case question m (evm s) of (r, c) \<Rightarrow> (r, s\<lparr>evm := c\<rparr>))"

definition eth_execute ::
  "'c runner \<Rightarrow> h160 \<Rightarrow> bytes \<Rightarrow> u256 \<Rightarrow> u256 \<Rightarrow> u256 option \<Rightarrow> u256 option \<Rightarrow> transaction_action \<Rightarrow>
     (('d, 'c) eth_state, dispatch_error, h160 option \<times> h160 option \<times> call_or_create_info) act" where
  "eth_execute R from input value gas_limit gas_price nonce action =
     (case action of
        Action_Call target \<Rightarrow>
          act_bind (on_evm (runner_call R from target input value (low_u64 gas_limit) gas_price nonce))
            (\<lambda>res. act_return (Some target, None, Info_Call res))
      | Action_Create \<Rightarrow>
          act_bind (on_evm (runner_create R from input value (low_u64 gas_limit) gas_price nonce))
            (\<lambda>res. act_return (None, Some (ei_value res), Info_Create res)))"

text \<open>The status of an executed transaction, with its exit reason and the gas it used.\<close>

fun transaction_outcome ::
  "eth_lib \<Rightarrow> h256 \<Rightarrow> u32 \<Rightarrow> h160 \<Rightarrow> h160 option \<Rightarrow> call_or_create_info \<Rightarrow>
     exit_reason \<times> transaction_status \<times> u256" where
  "transaction_outcome L tx_hash transaction_index source to (Info_Call info) =
     (ei_exit_reason info,
      \<lparr>st_transaction_hash = tx_hash, st_transaction_index = transaction_index,
       st_from = source, st_to = to, st_contract_address = None,
       st_logs = ei_logs info, st_logs_bloom = logs_bloom L (ei_logs info) 0\<rparr>,
      ei_used_gas info)"
| "transaction_outcome L tx_hash transaction_index source to (Info_Create info) =
     (ei_exit_reason info,
      \<lparr>st_transaction_hash = tx_hash, st_transaction_index = transaction_index,
       st_from = source, st_to = to, st_contract_address = Some (ei_value info),
       st_logs = ei_logs info, st_logs_bloom = logs_bloom L (ei_logs info) 0\<rparr>,
      ei_used_gas info)"

fun receipt_root :: "exit_reason \<Rightarrow> h256" where
  "receipt_root (Succeed _) = 1"
| "receipt_root (Error _) = 0"
| "receipt_root Revert = 0"
| "receipt_root (Fatal _) = 0"

definition do_transact ::
  "eth_lib \<Rightarrow> 'd digest_api \<Rightarrow> 'c runner \<Rightarrow> (u64 \<Rightarrow> u64) \<Rightarrow> transaction \<Rightarrow>
     (('d, 'c) eth_state, dispatch_error, post_dispatch_info) act" where
  "do_transact L D R gas_to_weight transaction =
     act_bind (\<lambda>s. ensure (is_err (find_pre_log D (digest s)))
       (Module_Error (eth_error_name PreLogExists)) s) (\<lambda>_.
     act_bind (act_lift (ok_or (recover_signer L transaction)
       (Module_Error (eth_error_name InvalidSignature)))) (\<lambda>source.
     let tx_hash = transaction_hash L transaction in
     act_bind (act_get (\<lambda>s. word_of_nat (length (pending_txs s)))) (\<lambda>transaction_index.
     act_bind (eth_execute R source (tx_input transaction) (tx_value transaction)
         (tx_gas_limit transaction) (Some (tx_gas_price transaction)) (Some (tx_nonce transaction))
         (tx_action transaction)) (\<lambda>(to, contract_address, info).
     case transaction_outcome L tx_hash transaction_index source to info of
       (reason, status, gas) \<Rightarrow>
         let receipt = \<lparr>rc_state_root = receipt_root reason, rc_used_gas = gas,
               rc_logs_bloom = st_logs_bloom status, rc_logs = st_logs status\<rparr> in
         act_bind (act_modify (\<lambda>s. s\<lparr>pending_txs := pending_txs s @ [(transaction, status, receipt)]\<rparr>)) (\<lambda>_.
         act_bind (act_modify (\<lambda>s. s\<lparr>eth_events := eth_events s @
           [Event_EthExecuted source (case contract_address of Some a \<Rightarrow> a | None \<Rightarrow> 0) tx_hash reason]\<rparr>)) (\<lambda>_.
           act_return \<lparr>pd_actual_weight = Some (gas_to_weight (saturated_into gas)),
                       pd_pays_fee = Pays_Yes\<rparr>))))))"

definition transact ::
  "eth_lib \<Rightarrow> 'd digest_api \<Rightarrow> 'c runner \<Rightarrow> (u64 \<Rightarrow> u64) \<Rightarrow> 'acc raw_origin \<Rightarrow> transaction \<Rightarrow>
     (('d, 'c) eth_state, dispatch_error, post_dispatch_info) act" where
  "transact L D R gas_to_weight origin transaction =
     act_bind (act_lift (ensure_none origin)) (\<lambda>_. do_transact L D R gas_to_weight transaction)"

section \<open>Blocks\<close>

definition find_author :: "('d, 'c) eth_cfg \<Rightarrow> ('d, 'c) eth_state \<Rightarrow> h160" where
  "find_author E s = (case ec_find_author E (digest s) of Some a \<Rightarrow> a | None \<Rightarrow> 0)"

definition current_block_hash :: "eth_lib \<Rightarrow> ('d, 'c) eth_state \<Rightarrow> h256 option" where
  "current_block_hash L s = map_option (\<lambda>b. header_hash L (bk_header b)) (cur_block s)"

text \<open>\<open>acc + r.used_gas\<close> on \<open>U256\<close> panics on overflow.\<close>

fun sum_gas :: "receipt list \<Rightarrow> u256 \<Rightarrow> (dispatch_error, u256) res" where
  "sum_gas [] acc = Ok acc"
| "sum_gas (r # rs) acc = res_bind (unwrap (checked_add acc (rc_used_gas r))) (\<lambda>acc'. sum_gas rs acc')"

fun collect_pending ::
  "eth_lib \<Rightarrow> pending_entry list \<Rightarrow> transaction list \<Rightarrow> transaction_status list \<Rightarrow> receipt list \<Rightarrow>
     bloom \<Rightarrow> transaction list \<times> transaction_status list \<times> receipt list \<times> bloom" where
  "collect_pending L [] ts sts rs b = (ts, sts, rs, b)"
| "collect_pending L ((t, st, r) # ps) ts sts rs b =
     collect_pending L ps (ts @ [t]) (sts @ [st]) (rs @ [r]) (logs_bloom L (rc_logs r) b)"

definition store_block ::
  "eth_lib \<Rightarrow> 'd digest_api \<Rightarrow> (('acct, 'h) evm_store, 'c) storage_api \<Rightarrow>
     ('acct, 'h, 'neg, 'pos) host_api \<Rightarrow> ('d, 'c) eth_cfg \<Rightarrow> bool \<Rightarrow>
     (('d, 'c) eth_state, dispatch_error, unit) act" where
  "store_block L D A H E post_log = (\<lambda>s.
     case collect_pending L (pending_txs s) [] [] [] 0 of
       (transactions, statuses, receipts, bloom) \<Rightarrow>
         (case sum_gas receipts 0 of
            Err e \<Rightarrow> (Err e, s)
          | Panic \<Rightarrow> (Panic, s)
          | Ok gas_used \<Rightarrow>
              let h = host (view A (evm s));
                  partial_header = \<lparr>
                    ph_parent_hash = (case current_block_hash L s of Some x \<Rightarrow> x | None \<Rightarrow> 0),
                    ph_beneficiary = find_author E s,
                    ph_state_root = 0,
                    ph_receipts_root = h256_from_slice (keccak256 L (rlp_receipts L receipts)),
                    ph_logs_bloom = bloom,
                    ph_difficulty = 0,
                    ph_number = ucast (saturated_into (sys_block_number H h) :: u128),
                    ph_gas_limit = ec_block_gas_limit E,
                    ph_gas_used = gas_used,
                    ph_timestamp = saturated_into (timestamp_get H h),
                    ph_extra_data = [],
                    ph_mix_hash = 0,
                    ph_nonce = 0\<rparr>;
                  block0 = block_new L partial_header transactions [];
                  blk = block0\<lparr>bk_header := (bk_header block0)\<lparr>hd_state_root := ec_state_root E (evm s)\<rparr>\<rparr>;
                  s1 = s\<lparr>cur_block := Some blk, cur_receipts := Some receipts, cur_statuses := Some statuses\<rparr>
              in (Ok (), if post_log
                  then s1\<lparr>digest := digest s1 @ [post_item D (PostLog_Hashes (from_block L blk))]\<rparr>
                  else s1)))"

definition eth_genesis_build ::
  "eth_lib \<Rightarrow> 'd digest_api \<Rightarrow> (('acct, 'h) evm_store, 'c) storage_api \<Rightarrow>
     ('acct, 'h, 'neg, 'pos) host_api \<Rightarrow> ('d, 'c) eth_cfg \<Rightarrow> (('d, 'c) eth_state, dispatch_error, unit) act" where
  "eth_genesis_build L D A H E =
     act_bind (store_block L D A H E False) (\<lambda>_. act_modify (\<lambda>s. s\<lparr>schema := Some Schema_V1\<rparr>))"

definition eth_on_finalize ::
  "eth_lib \<Rightarrow> 'd digest_api \<Rightarrow> (('acct, 'h) evm_store, 'c) storage_api \<Rightarrow>
     ('acct, 'h, 'neg, 'pos) host_api \<Rightarrow> ('d, 'c) eth_cfg \<Rightarrow> (('d, 'c) eth_state, dispatch_error, unit) act" where
  "eth_on_finalize L D A H E = (\<lambda>s. store_block L D A H E (is_err (find_pre_log D (digest s))) s)"

text \<open>The loop of \<open>on_initialize\<close>: an error of a transaction is an \<open>expect\<close> that panics.\<close>

fun transact_all ::
  "eth_lib \<Rightarrow> 'd digest_api \<Rightarrow> 'c runner \<Rightarrow> (u64 \<Rightarrow> u64) \<Rightarrow> transaction list \<Rightarrow>
     (('d, 'c) eth_state, dispatch_error, unit) act" where
  "transact_all L D R w [] s = (Ok (), s)"
| "transact_all L D R w (t # ts) s =
     (case do_transact L D R w t s of
        (Ok _, s') \<Rightarrow> transact_all L D R w ts s'
      | (Err e, s') \<Rightarrow> (Panic, s')
      | (Panic, s') \<Rightarrow> (Panic, s'))"

definition eth_on_initialize ::
  "eth_lib \<Rightarrow> 'd digest_api \<Rightarrow> 'c runner \<Rightarrow> (u64 \<Rightarrow> u64) \<Rightarrow> (('d, 'c) eth_state, dispatch_error, u64) act" where
  "eth_on_initialize L D R w =
     act_bind (act_modify (\<lambda>s. s\<lparr>pending_txs := []\<rparr>)) (\<lambda>_.
     act_bind (\<lambda>s. case find_pre_log D (digest s) of
         Ok (PreLog_Block b) \<Rightarrow> transact_all L D R w (bk_transactions b) s
       | _ \<Rightarrow> (Ok (), s)) (\<lambda>_.
       act_return 0))"

section \<open>What a transaction leaves behind\<close>

lemma on_evm_frame: "on_evm m s = (r, s') \<Longrightarrow> s' = s\<lparr>evm := evm s'\<rparr>"
  by (auto simp: on_evm_def split: prod.splits)

lemma eth_execute_frame: "eth_execute R f i v g p n a s = (r, s') \<Longrightarrow> s' = s\<lparr>evm := evm s'\<rparr>"
  by (auto simp: eth_execute_def act_bind_def act_simps split: transaction_action.splits prod.splits res.splits
      dest: on_evm_frame)

lemma eth_execute_Ok:
  assumes "eth_execute R f i v g p n a s = (Ok (to, ca, info), s')"
  shows "(\<exists>target r. a = Action_Call target \<and> to = Some target \<and> ca = None \<and> info = Info_Call r) \<or>
    (\<exists>r. a = Action_Create \<and> to = None \<and> ca = Some (ei_value r) \<and> info = Info_Create r)"
  using assms
  by (auto simp: eth_execute_def act_bind_def act_simps split: transaction_action.splits prod.splits res.splits)

text \<open>
  An entry of \<open>Pending\<close> at position \<open>i\<close>: the index, the hash and the signer of its
  transaction, logs and blooms of status and receipt that agree, and the recipient of a call or
  the contract of a creation.
\<close>

definition entry_ok :: "eth_lib \<Rightarrow> nat \<Rightarrow> pending_entry \<Rightarrow> bool" where
  "entry_ok L i = (\<lambda>(t, st, r).
     st_transaction_index st = word_of_nat i \<and>
     st_transaction_hash st = transaction_hash L t \<and>
     recover_signer L t = Some (st_from st) \<and>
     rc_logs r = st_logs st \<and> rc_logs_bloom r = st_logs_bloom st \<and>
     st_logs_bloom st = logs_bloom L (st_logs st) 0 \<and>
     (case tx_action t of
        Action_Call a \<Rightarrow> st_to st = Some a \<and> st_contract_address st = None
      | Action_Create \<Rightarrow> st_to st = None \<and> st_contract_address st \<noteq> None))"

definition pending_ok :: "eth_lib \<Rightarrow> pending_entry list \<Rightarrow> bool" where
  "pending_ok L ps \<longleftrightarrow> (\<forall>i < length ps. entry_ok L i (ps ! i))"

lemma pending_ok_Nil [simp]: "pending_ok L []"
  by (simp add: pending_ok_def)

lemma pending_ok_snoc: "pending_ok L (ps @ [e]) \<longleftrightarrow> pending_ok L ps \<and> entry_ok L (length ps) e"
  by (auto simp: pending_ok_def nth_append less_Suc_eq)

lemma do_transact_cases:
  assumes "do_transact L D R w t s = (r, s')"
  obtains (fail) "\<nexists>i. r = Ok i" "s' = s\<lparr>evm := evm s'\<rparr>"
  | (success) i st rc ev where "r = Ok i" "entry_ok L (length (pending_txs s)) (t, st, rc)"
      "s' = s\<lparr>evm := evm s', pending_txs := pending_txs s @ [(t, st, rc)], eth_events := eth_events s @ [ev]\<rparr>"
      "is_err (find_pre_log D (digest s))"
proof (cases "is_err (find_pre_log D (digest s))")
  case False
  then show thesis using assms fail by (auto simp: do_transact_def act_bind_def act_simps)
next
  case pre: True
  show thesis
  proof (cases "recover_signer L t")
    case None
    then show thesis using assms pre fail by (auto simp: do_transact_def act_bind_def act_simps)
  next
    case (Some source)
    obtain x s1 where x: "eth_execute R source (tx_input t) (tx_value t) (tx_gas_limit t)
        (Some (tx_gas_price t)) (Some (tx_nonce t)) (tx_action t) s = (x, s1)" by force
    obtain c where frame: "s1 = s\<lparr>evm := c\<rparr>" using eth_execute_frame [OF x] by blast
    show thesis
    proof (cases x)
      case (Ok y)
      obtain to ca info where y: "y = (to, ca, info)" by (cases y)
      obtain reason st gas where o: "transaction_outcome L (transaction_hash L t)
          (word_of_nat (length (pending_txs s))) source to info = (reason, st, gas)"
        by (cases "transaction_outcome L (transaction_hash L t)
          (word_of_nat (length (pending_txs s))) source to info")
      let ?rc = "\<lparr>rc_state_root = receipt_root reason, rc_used_gas = gas,
        rc_logs_bloom = st_logs_bloom st, rc_logs = st_logs st\<rparr>"
      have e: "entry_ok L (length (pending_txs s)) (t, st, ?rc)"
        using eth_execute_Ok [OF x [unfolded Ok y]] o Some by (auto simp: entry_ok_def)
      show thesis
        by (rule success [OF _ e _ pre]) (use assms pre Some x Ok y o frame in
          \<open>auto simp: do_transact_def act_bind_def act_simps Let_def\<close>)
    next
      case (Err z)
      then show thesis
        using assms pre Some x frame fail by (auto simp: do_transact_def act_bind_def act_simps Let_def)
    next
      case Panic
      then show thesis
        using assms pre Some x frame fail by (auto simp: do_transact_def act_bind_def act_simps Let_def)
    qed
  qed
qed

section \<open>The life of a block\<close>

text \<open>
  The calls the runtime makes while a block is executed: initialisation, then transactions, each
  applied or failed, whatever their origin. (A panic aborts the block.)
\<close>

inductive block_reach ::
  "eth_lib \<Rightarrow> 'd digest_api \<Rightarrow> 'c runner \<Rightarrow> (u64 \<Rightarrow> u64) \<Rightarrow> ('d, 'c) eth_state \<Rightarrow> ('d, 'c) eth_state \<Rightarrow> bool"
  for L D R w s0 where
  reach_init: "eth_on_initialize L D R w s0 = (Ok x, s) \<Longrightarrow> block_reach L D R w s0 s"
| reach_transact: "block_reach L D R w s0 s \<Longrightarrow> transact L D R w (origin :: h256 raw_origin) t s = (r, s') \<Longrightarrow>
    r \<noteq> Panic \<Longrightarrow>
    block_reach L D R w s0 s'"

lemma do_transact_pending:
  assumes "do_transact L D R w t s = (r, s')" and "pending_ok L (pending_txs s)"
  shows "pending_ok L (pending_txs s') \<and> digest s' = digest s \<and> cur_block s' = cur_block s"
  using assms(1)
proof (cases rule: do_transact_cases)
  case fail
  from fail(2) obtain c where "s' = s\<lparr>evm := c\<rparr>" by blast
  then show ?thesis using assms(2) by simp
next
  case (success i st rc ev)
  from success(3) obtain c where "s' = s\<lparr>evm := c, pending_txs := pending_txs s @ [(t, st, rc)],
      eth_events := eth_events s @ [ev]\<rparr>" by blast
  then show ?thesis using assms(2) success(2) by (simp add: pending_ok_snoc)
qed

lemma do_transact_prelog:
  "find_pre_log D (digest s) = Ok l \<Longrightarrow>
     do_transact L D R w t s = (Err (Module_Error ''PreLogExists''), s)"
  by (simp add: do_transact_def act_bind_def act_simps)

lemma eth_on_initialize_eq:
  "eth_on_initialize L D R w s =
     (case find_pre_log D (digest s) of
        Ok (PreLog_Block b) \<Rightarrow>
          (if bk_transactions b = [] then Ok 0 else Panic, s\<lparr>pending_txs := []\<rparr>)
      | _ \<Rightarrow> (Ok 0, s\<lparr>pending_txs := []\<rparr>))"
proof (cases "find_pre_log D (digest s)")
  case (Ok l)
  obtain b where l: "l = PreLog_Block b" by (cases l)
  have "find_pre_log D (digest (s\<lparr>pending_txs := []\<rparr>)) = Ok l" using Ok by simp
  then show ?thesis using Ok l
    by (cases "bk_transactions b")
      (auto simp: eth_on_initialize_def act_bind_def act_simps do_transact_prelog)
qed (simp_all add: eth_on_initialize_def act_bind_def act_simps)

lemma block_reach_pending:
  assumes "block_reach L D R w s0 s"
  shows "pending_ok L (pending_txs s) \<and> digest s = digest s0"
  using assms
proof (induction rule: block_reach.induct)
  case (reach_init x s)
  then show ?case
    by (auto simp: eth_on_initialize_eq split: res.splits pre_log.splits if_splits)
next
  case (reach_transact s origin t r s')
  show ?case
  proof (cases "ensure_none origin")
    case (Ok u)
    then have "do_transact L D R w t s = (r, s')"
      using reach_transact.hyps by (simp add: transact_def act_bind_def act_simps)
    from do_transact_pending [OF this] reach_transact.IH show ?thesis by simp
  next
    case (Err e)
    then show ?thesis using reach_transact by (simp add: transact_def act_bind_def act_simps)
  next
    case Panic
    then show ?thesis using reach_transact by (simp add: transact_def act_bind_def act_simps)
  qed
qed

text \<open>
  C7: the transactions of the block being built. In every state reached after initialisation by any
  sequence of transactions, applied or failed, the entry at position \<open>i\<close> of \<open>Pending\<close> has
  the index \<open>i\<close>, the hash and the recovered signer of its transaction, a status and a receipt
  with the same logs and bloom, and either the recipient of a call or the contract of a creation;
  the header's digest has not changed.
\<close>

theorem pending_invariant:
  assumes "block_reach L D R w s0 s"
  shows "pending_ok L (pending_txs s) \<and> digest s = digest s0"
  by (rule block_reach_pending [OF assms])

text \<open>
  C18: a block whose header carries a pre-runtime log cannot be initialised unless the logged block
  has no transaction: \<open>on_initialize\<close> executes the logged transactions, and executing a
  transaction is refused as long as that log is there, which is a panic.
\<close>

theorem prelog_block_panics:
  "(case find_pre_log D (digest s) of
      Ok (PreLog_Block b) \<Rightarrow>
        (if bk_transactions b = [] then fst (eth_on_initialize L D R w s) = Ok 0
         else fst (eth_on_initialize L D R w s) = Panic) \<and>
        do_transact L D R w t s = (Err (Module_Error ''PreLogExists''), s)
    | _ \<Rightarrow> eth_on_initialize L D R w s = (Ok 0, s\<lparr>pending_txs := []\<rparr>))"
proof (cases "find_pre_log D (digest s)")
  case (Ok l)
  then show ?thesis using do_transact_prelog [OF Ok]
    by (cases l) (simp add: eth_on_initialize_eq)
qed (simp_all add: eth_on_initialize_eq)

section \<open>Finalising a block\<close>

lemma collect_pending_eq:
  "collect_pending L ps ts sts rs b =
     (ts @ map fst ps, sts @ map (fst \<circ> snd) ps, rs @ map (snd \<circ> snd) ps,
      logs_bloom L (concat (map (\<lambda>p. rc_logs (snd (snd p))) ps)) b)"
proof (induction ps arbitrary: ts sts rs b)
  case (Cons p ps)
  have "logs_bloom L (xs @ ys) b = logs_bloom L ys (logs_bloom L xs b)" for xs ys b
    by (induction xs arbitrary: b) auto
  then show ?case using Cons by (cases p) simp
qed simp

definition gas_sum :: "receipt list \<Rightarrow> nat" where
  "gas_sum rs = sum_list (map (\<lambda>r. unat (rc_used_gas r)) rs)"

lemma sum_gas_eq:
  "sum_gas rs acc =
     (if unat acc + gas_sum rs < 2 ^ 256 then Ok (acc + word_of_nat (gas_sum rs)) else Panic)"
proof (induction rs arbitrary: acc)
  case Nil
  show ?case using unat_bound [of acc] by (simp add: gas_sum_def)
next
  case (Cons r rs)
  show ?case
  proof (cases "unat acc + unat (rc_used_gas r) < 2 ^ 256")
    case True
    then have "unat (acc + rc_used_gas r) = unat acc + unat (rc_used_gas r)"
      by (simp add: unat_word_ariths)
    moreover have "gas_sum (r # rs) = unat (rc_used_gas r) + gas_sum rs" by (simp add: gas_sum_def)
    moreover have "checked_add acc (rc_used_gas r) = Some (acc + rc_used_gas r)"
      using True by (simp add: checked_add_def)
    ultimately show ?thesis using Cons [of "acc + rc_used_gas r"] by (simp add: add.assoc)
  next
    case False
    then show ?thesis by (simp add: checked_add_def gas_sum_def)
  qed
qed

text \<open>The bloom of logs, as the union of the bits of their addresses and topics.\<close>

definition log_inputs :: "eth_log \<Rightarrow> bytes list" where
  "log_inputs l = h160_bytes (log_address l) # map h256_bytes (log_topics l)"

lemma accrue_topics_mono:
  assumes "bloom_lib_ok L bits"
  shows "bit b n \<Longrightarrow> bit (accrue_topics L ts b) n"
    and "t \<in> set ts \<Longrightarrow> bit (bits (h256_bytes t)) n \<Longrightarrow> bit (accrue_topics L ts b) n"
proof (induction ts arbitrary: b)
  case (Cons u ts)
  case 1
  then show ?case using Cons(1) assms by (simp add: bloom_lib_ok_def bit_or_iff)
  case 2
  then show ?case using Cons(1,2) assms by (auto simp: bloom_lib_ok_def bit_or_iff)
qed auto

lemma logs_bloom_mono:
  assumes "bloom_lib_ok L bits"
  shows "bit b n \<Longrightarrow> bit (logs_bloom L ls b) n"
    and "l \<in> set ls \<Longrightarrow> x \<in> set (log_inputs l) \<Longrightarrow> bit (bits x) n \<Longrightarrow> bit (logs_bloom L ls b) n"
proof (induction ls arbitrary: b)
  case (Cons k ls)
  have acc: "bit (bloom_accrue L y c) n \<longleftrightarrow> bit c n \<or> bit (bits y) n" for y c
    using assms by (simp add: bloom_lib_ok_def bit_or_iff)
  case 1
  then show ?case using Cons(1) accrue_topics_mono(1) [OF assms] acc by simp
  case 2
  then show ?case
    using Cons(1,2) accrue_topics_mono [OF assms] acc by (auto simp: log_inputs_def)
qed auto

text \<open>The block \<open>store_block\<close> leaves, when the gas sum does not overflow.\<close>

lemma store_block_stored:
  assumes B: "block_lib_ok L" and g: "gas_sum (map (snd \<circ> snd) (pending_txs s)) < 2 ^ 256"
  obtains blk where
    "store_block L D A H E post s = (Ok (), s\<lparr>
       cur_block := Some blk, cur_receipts := Some (map (snd \<circ> snd) (pending_txs s)),
       cur_statuses := Some (map (fst \<circ> snd) (pending_txs s)),
       digest := digest s @ (if post then [post_item D (PostLog_Hashes (from_block L blk))] else [])\<rparr>)"
    "bk_transactions blk = map fst (pending_txs s)"
    "hd_parent_hash (bk_header blk) = (case current_block_hash L s of Some x \<Rightarrow> x | None \<Rightarrow> 0)"
    "unat (hd_gas_used (bk_header blk)) = gas_sum (map (snd \<circ> snd) (pending_txs s))"
    "hd_logs_bloom (bk_header blk) = logs_bloom L (concat (map (\<lambda>p. rc_logs (snd (snd p))) (pending_txs s))) 0"
    "hd_number (bk_header blk) = ucast (sys_block_number H (host (view A (evm s))))"
    "hd_state_root (bk_header blk) = ec_state_root E (evm s)"
proof -
  have sg: "sum_gas (map (snd \<circ> snd) (pending_txs s)) 0 =
      Ok (word_of_nat (gas_sum (map (snd \<circ> snd) (pending_txs s))))"
    using g by (simp add: sum_gas_eq)
  have n: "ucast (saturated_into (sys_block_number H h) :: u128) = (ucast (sys_block_number H h) :: u256)" for h
    using unat_bound [of "sys_block_number H h"]
    by (simp add: word_unat_eq_iff unat_u128_into_u256 unat_ucast_id)
  show thesis
    by (rule that) (use g B in \<open>auto simp: store_block_def collect_pending_eq sg Let_def
      block_lib_ok_def unat_of_nat n\<close>)
qed

lemma finalized_state:
  assumes "block_lib_ok L" "eth_on_finalize L D A H E s = (Ok (), s')"
  obtains blk where "s' = s\<lparr>
       cur_block := Some blk, cur_receipts := Some (map (snd \<circ> snd) (pending_txs s)),
       cur_statuses := Some (map (fst \<circ> snd) (pending_txs s)),
       digest := digest s @ (if is_err (find_pre_log D (digest s))
         then [post_item D (PostLog_Hashes (from_block L blk))] else [])\<rparr>"
    "cur_block s' = Some blk" "cur_receipts s' = Some (map (snd \<circ> snd) (pending_txs s))"
    "cur_statuses s' = Some (map (fst \<circ> snd) (pending_txs s))" "pending_txs s' = pending_txs s"
    "evm s' = evm s" "bk_transactions blk = map fst (pending_txs s)"
proof -
  have "gas_sum (map (snd \<circ> snd) (pending_txs s)) < 2 ^ 256"
    using assms(2) by (auto simp: eth_on_finalize_def store_block_def collect_pending_eq sum_gas_eq
        split: prod.splits if_splits)
  from store_block_stored [OF assms(1) this, of D A H E "is_err (find_pre_log D (digest s))"]
  obtain blk where "store_block L D A H E (is_err (find_pre_log D (digest s))) s = (Ok (), s\<lparr>
       cur_block := Some blk, cur_receipts := Some (map (snd \<circ> snd) (pending_txs s)),
       cur_statuses := Some (map (fst \<circ> snd) (pending_txs s)),
       digest := digest s @ (if is_err (find_pre_log D (digest s))
         then [post_item D (PostLog_Hashes (from_block L blk))] else [])\<rparr>)"
    "bk_transactions blk = map fst (pending_txs s)"
    by metis
  then show thesis using assms(2) that [of blk] by (auto simp: eth_on_finalize_def)
qed

text \<open>
  C6: finalising a block. If the gas used by the pending receipts sums to less than \<open>2^256\<close>,
  the stored block has exactly the pending transactions in order, stored receipts and statuses in
  the same order, the parent hash of the previous block, the exact sum as its gas used, and a bloom
  that contains the address and every topic of every log of every receipt; otherwise it panics.
\<close>

theorem finalize_block:
  assumes B: "block_lib_ok L" and bl: "bloom_lib_ok L bits"
  shows "if gas_sum (map (snd \<circ> snd) (pending_txs s)) < 2 ^ 256 then
      \<exists>blk s'. eth_on_finalize L D A H E s = (Ok (), s') \<and> cur_block s' = Some blk \<and>
        bk_transactions blk = map fst (pending_txs s) \<and>
        cur_statuses s' = Some (map (fst \<circ> snd) (pending_txs s)) \<and>
        cur_receipts s' = Some (map (snd \<circ> snd) (pending_txs s)) \<and>
        hd_parent_hash (bk_header blk) = (case current_block_hash L s of Some x \<Rightarrow> x | None \<Rightarrow> 0) \<and>
        unat (hd_gas_used (bk_header blk)) = gas_sum (map (snd \<circ> snd) (pending_txs s)) \<and>
        (\<forall>p l x n. p \<in> set (pending_txs s) \<and> l \<in> set (rc_logs (snd (snd p))) \<and> x \<in> set (log_inputs l) \<and>
          bit (bits x) n \<longrightarrow> bit (hd_logs_bloom (bk_header blk)) n)
    else eth_on_finalize L D A H E s = (Panic, s)"
proof (cases "gas_sum (map (snd \<circ> snd) (pending_txs s)) < 2 ^ 256")
  case True
  obtain blk where b:
    "store_block L D A H E (is_err (find_pre_log D (digest s))) s = (Ok (), s\<lparr>
       cur_block := Some blk, cur_receipts := Some (map (snd \<circ> snd) (pending_txs s)),
       cur_statuses := Some (map (fst \<circ> snd) (pending_txs s)),
       digest := digest s @ (if is_err (find_pre_log D (digest s))
         then [post_item D (PostLog_Hashes (from_block L blk))] else [])\<rparr>)"
    "bk_transactions blk = map fst (pending_txs s)"
    "hd_parent_hash (bk_header blk) = (case current_block_hash L s of Some x \<Rightarrow> x | None \<Rightarrow> 0)"
    "unat (hd_gas_used (bk_header blk)) = gas_sum (map (snd \<circ> snd) (pending_txs s))"
    "hd_logs_bloom (bk_header blk) = logs_bloom L (concat (map (\<lambda>p. rc_logs (snd (snd p))) (pending_txs s))) 0"
    using store_block_stored [OF B True, of D A H E "is_err (find_pre_log D (digest s))"] by blast
  have "bit (hd_logs_bloom (bk_header blk)) n"
    if "p \<in> set (pending_txs s)" "l \<in> set (rc_logs (snd (snd p)))" "x \<in> set (log_inputs l)" "bit (bits x) n"
    for p l x n
    unfolding b(5) using that by (intro logs_bloom_mono(2) [OF bl, of l]) auto
  then show ?thesis using True b(1-4) by (auto simp: eth_on_finalize_def)
next
  case False
  then show ?thesis
    by (simp add: eth_on_finalize_def store_block_def collect_pending_eq sum_gas_eq split: prod.splits)
qed

lemma logs_of_post_item:
  "digest_api_ok D \<Longrightarrow> logs_of D (post_item D l) = [Log_Post l]"
  by (simp add: logs_of_def pre_of_def post_of_def digest_api_ok_def)

lemma pre_logs_of_logs:
  "concat (map (logs_of D) ds) = [] \<Longrightarrow> concat (map (pre_of D) ds) = []"
  by (auto simp: logs_of_def)

lemma pre_logs_single:
  "concat (map (logs_of D) ds) = [Log_Pre l] \<Longrightarrow> concat (map (pre_of D) ds) = [l]"
proof -
  have "concat (map (pre_of D) ds) =
      concat (map (\<lambda>x. case x of Log_Pre p \<Rightarrow> [p] | Log_Post q \<Rightarrow> []) (concat (map (logs_of D) ds)))" for ds
    by (induction ds) (auto simp: logs_of_def comp_def)
  then show "concat (map (logs_of D) ds) = [Log_Pre l] \<Longrightarrow> concat (map (pre_of D) ds) = [l]" by simp
qed

lemma finalized_digest:
  assumes D: "digest_api_ok D" and B: "block_lib_ok L"
    and ds: "concat (map (logs_of D) (digest s)) = [] \<or> (\<exists>l. concat (map (logs_of D) (digest s)) = [Log_Pre l])"
    and fin: "eth_on_finalize L D A H E s = (Ok (), s')"
  shows "ensure_log D (digest s') = Ok () \<and>
    (concat (map (logs_of D) (digest s)) = [] \<longrightarrow>
      (\<exists>blk. cur_block s' = Some blk \<and>
        map_ok (into_hashes L) (find_log D (digest s')) = Ok (from_block L blk)))"
proof -
  let ?post = "is_err (find_pre_log D (digest s))"
  obtain blk where b: "s' = s\<lparr>
       cur_block := Some blk, cur_receipts := Some (map (snd \<circ> snd) (pending_txs s)),
       cur_statuses := Some (map (fst \<circ> snd) (pending_txs s)),
       digest := digest s @ (if ?post then [post_item D (PostLog_Hashes (from_block L blk))] else [])\<rparr>"
    using finalized_state [OF B fin] by metis
  from ds show ?thesis
  proof (elim disjE exE)
    assume n: "concat (map (logs_of D) (digest s)) = []"
    have "?post" by (simp only: find_pre_log_unique pre_logs_of_logs [OF n] unique_log.simps is_err.simps)
    then have "concat (map (logs_of D) (digest s')) = [Log_Post (PostLog_Hashes (from_block L blk))]"
      using b by (simp add: n logs_of_post_item [OF D] del: concat_eq_Nil_conv)
    then show ?thesis using b by (simp add: ensure_log_unique find_log_eq)
  next
    fix l
    assume n: "concat (map (logs_of D) (digest s)) = [Log_Pre l]"
    then have "\<not> ?post" using pre_logs_single [OF n] by (simp add: find_pre_log_unique)
    then show ?thesis using b n by (simp add: ensure_log_unique)
  qed
qed

text \<open>
  C5: a finalised block can be imported. When the digest of the header being built carries no
  Ethereum log, or a single pre-runtime log, finalisation leaves a digest with exactly one log,
  so the import check accepts the header; without a pre-runtime log that log holds the hashes of
  the stored block, which is what the sync worker reads from it.
\<close>

theorem finalized_block_importable:
  assumes D: "digest_api_ok D" and B: "block_lib_ok L"
    and ds: "concat (map (logs_of D) (digest s)) = [] \<or> (\<exists>l. concat (map (logs_of D) (digest s)) = [Log_Pre l])"
    and fin: "eth_on_finalize L D A H E s = (Ok (), s')"
  shows "ensure_log D (digest s') = Ok () \<and>
    (concat (map (logs_of D) (digest s)) = [] \<longrightarrow>
      (\<exists>blk. cur_block s' = Some blk \<and>
        map_ok (into_hashes L) (find_log D (digest s')) = Ok (from_block L blk)))"
  by (rule finalized_digest [OF assms])

section \<open>Validation and execution agree\<close>

text \<open>
  C8: a transaction the pool accepts and whose nonce is the next one passes the checks of the
  runner in the same state, when its gas limit fits 64 bits: the pallet hands the runner only the
  low 64 bits of it.
\<close>

theorem validated_passes_checks:
  assumes "validate_unsigned L A H K (Call_transact t) s = Ok vt"
    and "recover_signer L t = Some source"
    and "tx_nonce t = ac_nonce (account_basic H K source (view A (evm s)))"
    and "unat (tx_gas_limit t) < 2 ^ 64"
  shows "\<exists>fee. execute_checks H K source (tx_value t) (low_u64 (tx_gas_limit t)) (Some (tx_gas_price t))
      (Some (tx_nonce t)) (view A (evm s)) = Ok (tx_gas_price t, fee) \<and>
    unat fee = unat (tx_gas_price t) * unat (tx_gas_limit t) \<and>
    vt_provides vt = [(source, tx_nonce t)] \<and> vt_requires vt = []"
proof -
  let ?bal = "free_balance H (cfg_into_account_id K source) (host (view A (evm s)))"
  let ?pay = "saturating_add (tx_value t) (saturating_mul (tx_gas_price t) (tx_gas_limit t))"
  have v: "\<not> ac_balance (account_basic H K source (view A (evm s))) < ?pay"
    "\<not> tx_gas_price t < cfg_min_gas_price K (host (view A (evm s)))"
    "vt_provides vt = [(source, tx_nonce t)]" "vt_requires vt = []"
    using assms(1-3) by (auto simp: validate_unsigned_def Let_def split: option.splits if_splits)
  have "unat ?pay \<le> unat ?bal"
    using v(1) by (simp add: word_le_nat_alt not_less account_basic_exact)
  moreover have "unat ?bal < 2 ^ 128" using unat_bound [of ?bal] by simp
  ultimately have pay: "min (unat (tx_value t) + min (unat (tx_gas_price t) * unat (tx_gas_limit t)) (2 ^ 256 - 1))
      (2 ^ 256 - 1) \<le> unat ?bal" "unat ?bal < 2 ^ 128"
    by (simp_all add: unat_saturating_add unat_saturating_mul)
  then have le: "unat (tx_value t) + unat (tx_gas_price t) * unat (tx_gas_limit t) \<le> unat ?bal"
    by (simp add: min_def split: if_splits)
  have g: "unat (low_u64 (tx_gas_limit t)) = unat (tx_gas_limit t)"
    using assms(4) by (simp add: unat_low_u64)
  have n: "unat (tx_nonce t) = unat (account_nonce H (cfg_into_account_id K source) (host (view A (evm s))))"
    using assms(3) by (simp add: account_basic_exact)
  have "execute_checks H K source (tx_value t) (low_u64 (tx_gas_limit t)) (Some (tx_gas_price t))
      (Some (tx_nonce t)) (view A (evm s)) =
      Ok (tx_gas_price t, word_of_nat (unat (tx_gas_price t) * unat (tx_gas_limit t)))"
    using le pay(2) v(2) n unfolding execute_checks_eq Let_def g by (auto simp: not_less)
  moreover have "unat (word_of_nat (unat (tx_gas_price t) * unat (tx_gas_limit t)) :: u256) =
      unat (tx_gas_price t) * unat (tx_gas_limit t)"
    using le pay(2) by (simp only: unat_of_nat) simp
  ultimately show ?thesis using v(3,4) by blast
qed

text \<open>
  The gas limit of a transaction counts modulo \<open>2^64\<close>. Validation prices the full 256-bit
  limit, but the execution is handed its low 64 bits: raising the limit by \<open>2^64\<close> changes
  nothing of what is executed, for a call and for a creation.
\<close>

theorem gas_limit_truncated:
  "eth_execute R from input value (gas_limit + 2 ^ 64) gas_price nonce action =
     eth_execute R from input value gas_limit gas_price nonce action"
proof -
  have "low_u64 (gas_limit + 2 ^ 64) = low_u64 gas_limit"
    by (simp add: low_u64_def unsigned_ucast_eq word_unat_eq_iff unat_word_ariths take_bit_eq_mod
        mod_mod_cancel mod_add_eq)
  then show ?thesis by (cases action) (simp_all add: eth_execute_def)
qed

section \<open>Witnesses\<close>

text \<open>
  A library with a trivial hash, a bloom with one bit per first byte, and a recovery that accepts
  every signature; digest items that are logs themselves.
\<close>

definition sample_bits :: "bytes \<Rightarrow> bloom" where
  "sample_bits x = push_bit (unat (hd (x @ [0]))) 1"

definition sample_block_new :: "partial_header \<Rightarrow> transaction list \<Rightarrow> header list \<Rightarrow> block" where
  "sample_block_new ph ts os = \<lparr>
     bk_header = \<lparr>hd_parent_hash = ph_parent_hash ph, hd_ommers_hash = 0,
       hd_beneficiary = ph_beneficiary ph, hd_state_root = ph_state_root ph, hd_transactions_root = 0,
       hd_receipts_root = ph_receipts_root ph, hd_logs_bloom = ph_logs_bloom ph,
       hd_difficulty = ph_difficulty ph, hd_number = ph_number ph, hd_gas_limit = ph_gas_limit ph,
       hd_gas_used = ph_gas_used ph, hd_timestamp = ph_timestamp ph, hd_extra_data = ph_extra_data ph,
       hd_mix_hash = ph_mix_hash ph, hd_nonce = ph_nonce ph\<rparr>,
     bk_transactions = ts, bk_ommers = os\<rparr>"

definition sample_eth :: eth_lib where
  "sample_eth = \<lparr>
     keccak256 = (\<lambda>m. take 32 (m @ replicate 32 3)),
     rlp_transaction = (\<lambda>t. tx_input t),
     rlp_header = (\<lambda>_. []),
     rlp_receipts = (\<lambda>_. []),
     header_hash = (\<lambda>h. hd_number h + 1),
     block_new = sample_block_new,
     bloom_accrue = (\<lambda>x b. or b (sample_bits x)),
     message_hash = (\<lambda>_. 0),
     standard_v = (\<lambda>_. 0),
     chain_id_of_v = (\<lambda>_. Some 42),
     ecdsa_recover = (\<lambda>_ _. Some (replicate 32 0))\<rparr>"

lemma sample_eth_ok: "block_lib_ok sample_eth" "bloom_lib_ok sample_eth sample_bits"
  by (simp_all add: block_lib_ok_def bloom_lib_ok_def sample_eth_def sample_block_new_def)

definition sample_digest :: "log digest_api" where
  "sample_digest = \<lparr>
     try_pre = (\<lambda>l. case l of Log_Pre p \<Rightarrow> Some p | Log_Post _ \<Rightarrow> None),
     try_post = (\<lambda>l. case l of Log_Post p \<Rightarrow> Some p | Log_Pre _ \<Rightarrow> None),
     post_item = Log_Post\<rparr>"

lemma sample_digest_ok: "digest_api_ok sample_digest"
  by (simp add: digest_api_ok_def sample_digest_def)

type_synonym sample_c = "(h256, sample_h) evm_store \<times> (h256, sample_h) evm_store list"

definition sample_runner :: "sample_c runner" where
  "sample_runner =
     stack_runner (keccak256 sample_eth) sample_storage sample_meta sample_host sample_cfg sample_executor"

definition sample_eth_cfg :: "(log, sample_c) eth_cfg" where
  "sample_eth_cfg = \<lparr>ec_find_author = (\<lambda>_. None), ec_state_root = (\<lambda>_. 9), ec_block_gas_limit = 8\<rparr>"

definition sample_eth_state :: "(log, sample_c) eth_state" where
  "sample_eth_state = \<lparr>pending_txs = [], cur_block = None, cur_receipts = None, cur_statuses = None,
     schema = None, eth_events = [], digest = [], evm = (sample_store, [])\<rparr>"

definition sample_tx :: transaction where
  "sample_tx = \<lparr>tx_nonce = 0, tx_gas_price = 2, tx_gas_limit = 10, tx_action = Action_Call 8, tx_value = 0,
     tx_input = [1], tx_signature = \<lparr>sig_v = 0, sig_r = 0, sig_s = 0\<rparr>\<rparr>"

theorem pending_invariant_witness:
  "\<exists>s. block_reach sample_eth sample_digest sample_runner unit_gas_to_weight sample_eth_state s \<and>
     pending_ok sample_eth (pending_txs s)"
proof -
  have "fst (eth_on_initialize sample_eth sample_digest sample_runner unit_gas_to_weight sample_eth_state) = Ok 0"
    by (simp add: eth_on_initialize_eq sample_eth_state_def find_pre_log_def)
  then obtain s where "eth_on_initialize sample_eth sample_digest sample_runner unit_gas_to_weight
      sample_eth_state = (Ok 0, s)" by (metis prod.collapse)
  then have "block_reach sample_eth sample_digest sample_runner unit_gas_to_weight sample_eth_state s"
    by (rule reach_init)
  from this pending_invariant [OF this] show ?thesis by blast
qed

theorem finalize_block_witness:
  "\<exists>blk s'. eth_on_finalize sample_eth sample_digest sample_storage sample_host sample_eth_cfg
     sample_eth_state = (Ok (), s') \<and> cur_block s' = Some blk \<and> bk_transactions blk = []"
  using finalize_block [OF sample_eth_ok, of sample_eth_state sample_digest sample_storage sample_host
      sample_eth_cfg]
  by (auto simp: sample_eth_state_def gas_sum_def)

theorem finalized_block_importable_witness:
  "\<exists>s'. eth_on_finalize sample_eth sample_digest sample_storage sample_host sample_eth_cfg
     sample_eth_state = (Ok (), s') \<and> ensure_log sample_digest (digest s') = Ok ()"
proof -
  have g: "gas_sum (map (snd \<circ> snd) (pending_txs sample_eth_state)) < 2 ^ 256"
    by (simp add: sample_eth_state_def gas_sum_def)
  have d: "concat (map (logs_of sample_digest) (digest sample_eth_state)) = [] \<or>
      (\<exists>l. concat (map (logs_of sample_digest) (digest sample_eth_state)) = [Log_Pre l])"
    by (simp add: sample_eth_state_def)
  obtain s' where s: "eth_on_finalize sample_eth sample_digest sample_storage sample_host sample_eth_cfg
      sample_eth_state = (Ok (), s')"
    using store_block_stored [OF sample_eth_ok(1) g] unfolding eth_on_finalize_def by metis
  from finalized_block_importable [OF sample_digest_ok sample_eth_ok(1) d s] s show ?thesis by blast
qed

theorem validated_passes_checks_witness:
  "\<exists>source fee. execute_checks sample_host sample_cfg source 0 10 (Some 2) (Some 0) sample_store = Ok (2, fee) \<and>
     unat fee = 20"
proof -
  let ?src = "h160_from_h256 (h256_from_slice (keccak256 sample_eth (replicate 32 0)))"
  have r: "recover_signer sample_eth sample_tx = Some ?src"
    by (simp add: recover_signer_def sample_eth_def)
  have v: "view sample_storage (evm sample_eth_state) = sample_store"
    by (simp add: sample_storage_def sample_eth_state_def)
  have a: "account_basic sample_host sample_cfg ?src sample_store = \<lparr>ac_nonce = 0, ac_balance = 1000\<rparr>"
    by (simp add: account_basic_def sample_host_def sample_store_def Let_def saturated_into_def)
  have "\<exists>vt. validate_unsigned sample_eth sample_storage sample_host sample_cfg (Call_transact sample_tx)
      sample_eth_state = Ok vt"
    using r a v by (simp add: validate_unsigned_def Let_def sample_tx_def sample_cfg_def sample_store_def
        sample_eth_def word_ops)
  then obtain vt where vt: "validate_unsigned sample_eth sample_storage sample_host sample_cfg
      (Call_transact sample_tx) sample_eth_state = Ok vt" by blast
  have "tx_nonce sample_tx = ac_nonce (account_basic sample_host sample_cfg ?src
      (view sample_storage (evm sample_eth_state)))" "unat (tx_gas_limit sample_tx) < 2 ^ 64"
    by (simp_all add: a v, simp_all add: sample_tx_def)
  from validated_passes_checks [OF vt r this] show ?thesis
    by (auto simp: sample_tx_def v low_u64_def)
qed

end
