(* ===== verification/Mapping_Db.thy ===== *)
theory Mapping_Db
  imports Prelude
begin

text \<open>
  \<open>client/db/src/lib.rs\<close>: the database that maps Ethereum blocks and transactions to
  Substrate blocks. The key-value store (\<open>sp_database\<close>) and the SCALE codec are parameters,
  with \<open>database_ok\<close> and \<open>codec_ok\<close> for what they document. An abstract mapping specifies
  the component: \<open>repr\<close> relates a database to the mapping it stores, every read returns the
  mapping's value and every write commits the mapping's update. The locale \<open>mapping_store\<close>
  is the interface the sync worker relies on.
\<close>

section \<open>Store and codec\<close>

type_synonym change = "u32 \<times> bytes \<times> bytes"

record 'db database =
  db_get :: "u32 \<Rightarrow> bytes \<Rightarrow> 'db \<Rightarrow> bytes option"
  db_commit :: "change list \<Rightarrow> ('db, string, unit) act"

text \<open>What a committed transaction stores: the last value set for a key.\<close>

fun last_set :: "u32 \<Rightarrow> bytes \<Rightarrow> change list \<Rightarrow> bytes option" where
  "last_set c k [] = None"
| "last_set c k ((c', k', v) # cs) =
     (case last_set c k cs of Some x \<Rightarrow> Some x | None \<Rightarrow> if c = c' \<and> k = k' then Some v else None)"

definition database_ok :: "'db database \<Rightarrow> bool" where
  "database_ok B \<longleftrightarrow>
     (\<forall>tx db r db'. db_commit B tx db = (r, db') \<longrightarrow>
        (case r of
           Ok _ \<Rightarrow> (\<forall>c k. db_get B c k db' =
             (case last_set c k tx of Some v \<Rightarrow> Some v | None \<Rightarrow> db_get B c k db))
         | Err e \<Rightarrow> db' = db
         | Panic \<Rightarrow> False))"

record transaction_metadata =
  tm_block_hash :: h256
  tm_ethereum_block_hash :: h256
  tm_ethereum_index :: u32

record codec =
  enc_hash :: "h256 \<Rightarrow> bytes"
  enc_hashes :: "h256 list \<Rightarrow> bytes"
  dec_hashes :: "bytes \<Rightarrow> h256 list option"
  enc_metadata :: "transaction_metadata list \<Rightarrow> bytes"
  dec_metadata :: "bytes \<Rightarrow> transaction_metadata list option"
  enc_bool :: "bool \<Rightarrow> bytes"
  dec_bool :: "bytes \<Rightarrow> bool option"
  dec_error :: string

definition codec_ok :: "codec \<Rightarrow> bool" where
  "codec_ok C \<longleftrightarrow> inj (enc_hash C) \<and>
     (\<forall>x. dec_hashes C (enc_hashes C x) = Some x) \<and>
     (\<forall>x. dec_metadata C (enc_metadata C x) = Some x) \<and>
     (\<forall>x. dec_bool C (enc_bool C x) = Some x)"

section \<open>Keys\<close>

definition META :: u32 where "META = 0"
definition BLOCK_MAPPING :: u32 where "BLOCK_MAPPING = 1"
definition TRANSACTION_MAPPING :: u32 where "TRANSACTION_MAPPING = 2"
definition SYNCED_MAPPING :: u32 where "SYNCED_MAPPING = 3"

text \<open>The bytes of the key: \<open>CURRENT_SYNCING_TIPS\<close>.\<close>

definition CURRENT_SYNCING_TIPS :: bytes where
  "CURRENT_SYNCING_TIPS =
     [0x43, 0x55, 0x52, 0x52, 0x45, 0x4e, 0x54, 0x5f, 0x53, 0x59, 0x4e, 0x43, 0x49, 0x4e, 0x47,
      0x5f, 0x54, 0x49, 0x50, 0x53]"

lemma columns_distinct [simp]:
  "META \<noteq> BLOCK_MAPPING" "META \<noteq> TRANSACTION_MAPPING" "META \<noteq> SYNCED_MAPPING"
  "BLOCK_MAPPING \<noteq> META" "BLOCK_MAPPING \<noteq> TRANSACTION_MAPPING" "BLOCK_MAPPING \<noteq> SYNCED_MAPPING"
  "TRANSACTION_MAPPING \<noteq> META" "TRANSACTION_MAPPING \<noteq> BLOCK_MAPPING" "TRANSACTION_MAPPING \<noteq> SYNCED_MAPPING"
  "SYNCED_MAPPING \<noteq> META" "SYNCED_MAPPING \<noteq> BLOCK_MAPPING" "SYNCED_MAPPING \<noteq> TRANSACTION_MAPPING"
  by (simp_all add: META_def BLOCK_MAPPING_def TRANSACTION_MAPPING_def SYNCED_MAPPING_def)

section \<open>MetaDb\<close>

definition current_syncing_tips :: "codec \<Rightarrow> 'db database \<Rightarrow> 'db \<Rightarrow> (string, h256 list) res" where
  "current_syncing_tips C B db =
     (case db_get B META CURRENT_SYNCING_TIPS db of
        Some raw \<Rightarrow> ok_or (dec_hashes C raw) (dec_error C)
      | None \<Rightarrow> Ok [])"

definition write_current_syncing_tips :: "codec \<Rightarrow> 'db database \<Rightarrow> h256 list \<Rightarrow> ('db, string, unit) act" where
  "write_current_syncing_tips C B tips =
     db_commit B [(META, CURRENT_SYNCING_TIPS, enc_hashes C tips)]"

section \<open>MappingDb\<close>

record mapping_commitment =
  mc_block_hash :: h256
  mc_ethereum_block_hash :: h256
  mc_ethereum_transaction_hashes :: "h256 list"

definition is_synced :: "codec \<Rightarrow> 'db database \<Rightarrow> h256 \<Rightarrow> 'db \<Rightarrow> (string, bool) res" where
  "is_synced C B block_hash db =
     (case db_get B SYNCED_MAPPING (enc_hash C block_hash) db of
        Some raw \<Rightarrow> ok_or (dec_bool C raw) (dec_error C)
      | None \<Rightarrow> Ok False)"

definition block_hashes :: "codec \<Rightarrow> 'db database \<Rightarrow> h256 \<Rightarrow> 'db \<Rightarrow> (string, h256 list) res" where
  "block_hashes C B ethereum_block_hash db =
     (case db_get B BLOCK_MAPPING (enc_hash C ethereum_block_hash) db of
        Some raw \<Rightarrow> ok_or (dec_hashes C raw) (dec_error C)
      | None \<Rightarrow> Ok [])"

definition transaction_metadata_of ::
  "codec \<Rightarrow> 'db database \<Rightarrow> h256 \<Rightarrow> 'db \<Rightarrow> (string, transaction_metadata list) res" where
  "transaction_metadata_of C B ethereum_transaction_hash db =
     (case db_get B TRANSACTION_MAPPING (enc_hash C ethereum_transaction_hash) db of
        Some raw \<Rightarrow> ok_or (dec_metadata C raw) (dec_error C)
      | None \<Rightarrow> Ok [])"

text \<open>The loop over the transaction hashes: the metadata is read from the database each time.\<close>

fun metadata_changes ::
  "codec \<Rightarrow> 'db database \<Rightarrow> mapping_commitment \<Rightarrow> nat \<Rightarrow> h256 list \<Rightarrow> 'db \<Rightarrow> (string, change list) res" where
  "metadata_changes C B c i [] db = Ok []"
| "metadata_changes C B c i (t # ts) db =
     res_bind (transaction_metadata_of C B t db) (\<lambda>metadata.
     let metadata' = metadata @ [\<lparr>tm_block_hash = mc_block_hash c,
           tm_ethereum_block_hash = mc_ethereum_block_hash c, tm_ethereum_index = word_of_nat i\<rparr>] in
     res_bind (metadata_changes C B c (Suc i) ts db) (\<lambda>cs.
       Ok ((TRANSACTION_MAPPING, enc_hash C t, enc_metadata C metadata') # cs)))"

definition write_hashes :: "codec \<Rightarrow> 'db database \<Rightarrow> mapping_commitment \<Rightarrow> ('db, string, unit) act" where
  "write_hashes C B c =
     act_bind (\<lambda>db. (block_hashes C B (mc_ethereum_block_hash c) db, db)) (\<lambda>bhs.
     act_bind (\<lambda>db. (metadata_changes C B c 0 (mc_ethereum_transaction_hashes c) db, db)) (\<lambda>cs.
       db_commit B ([(BLOCK_MAPPING, enc_hash C (mc_ethereum_block_hash c),
                      enc_hashes C (bhs @ [mc_block_hash c]))] @ cs @
                    [(SYNCED_MAPPING, enc_hash C (mc_block_hash c), enc_bool C True)])))"

section \<open>Backend\<close>

text \<open>The operations of \<open>meta()\<close> and \<open>mapping()\<close>, over one store.\<close>

record 'db backend =
  be_tips :: "'db \<Rightarrow> (string, h256 list) res"
  be_write_tips :: "h256 list \<Rightarrow> ('db, string, unit) act"
  be_is_synced :: "h256 \<Rightarrow> 'db \<Rightarrow> (string, bool) res"
  be_block_hashes :: "h256 \<Rightarrow> 'db \<Rightarrow> (string, h256 list) res"
  be_transaction_metadata :: "h256 \<Rightarrow> 'db \<Rightarrow> (string, transaction_metadata list) res"
  be_write_hashes :: "mapping_commitment \<Rightarrow> ('db, string, unit) act"

definition backend_new :: "codec \<Rightarrow> 'db database \<Rightarrow> 'db backend" where
  "backend_new C B = \<lparr>
     be_tips = current_syncing_tips C B,
     be_write_tips = write_current_syncing_tips C B,
     be_is_synced = is_synced C B,
     be_block_hashes = block_hashes C B,
     be_transaction_metadata = transaction_metadata_of C B,
     be_write_hashes = write_hashes C B\<rparr>"

section \<open>The abstract mapping\<close>

record mapping =
  m_synced :: "h256 \<Rightarrow> bool"
  m_blocks :: "h256 \<Rightarrow> h256 list"
  m_transactions :: "h256 \<Rightarrow> transaction_metadata list"
  m_tips :: "h256 list"

definition repr :: "codec \<Rightarrow> 'db database \<Rightarrow> 'db \<Rightarrow> mapping \<Rightarrow> bool" where
  "repr C B db m \<longleftrightarrow>
     (\<forall>b. is_synced C B b db = Ok (m_synced m b)) \<and>
     (\<forall>e. block_hashes C B e db = Ok (m_blocks m e)) \<and>
     (\<forall>t. transaction_metadata_of C B t db = Ok (m_transactions m t)) \<and>
     current_syncing_tips C B db = Ok (m_tips m)"

definition metadata_entry :: "mapping_commitment \<Rightarrow> nat \<Rightarrow> transaction_metadata" where
  "metadata_entry c i = \<lparr>tm_block_hash = mc_block_hash c,
     tm_ethereum_block_hash = mc_ethereum_block_hash c, tm_ethereum_index = word_of_nat i\<rparr>"

text \<open>A transaction listed more than once in one commitment keeps its last index only.\<close>

fun last_index :: "nat \<Rightarrow> h256 list \<Rightarrow> h256 \<Rightarrow> nat option" where
  "last_index i [] t = None"
| "last_index i (u # us) t =
     (case last_index (Suc i) us t of Some j \<Rightarrow> Some j | None \<Rightarrow> if t = u then Some i else None)"

definition m_write :: "mapping_commitment \<Rightarrow> mapping \<Rightarrow> mapping" where
  "m_write c m = m\<lparr>
     m_synced := (m_synced m)(mc_block_hash c := True),
     m_blocks := (m_blocks m)(mc_ethereum_block_hash c :=
       m_blocks m (mc_ethereum_block_hash c) @ [mc_block_hash c]),
     m_transactions := (\<lambda>t. m_transactions m t @
       (case last_index 0 (mc_ethereum_transaction_hashes c) t of
          Some i \<Rightarrow> [metadata_entry c i] | None \<Rightarrow> []))\<rparr>"

section \<open>Refinement\<close>

lemma reprD:
  assumes "repr C B db m"
  shows "is_synced C B b db = Ok (m_synced m b)" "block_hashes C B b db = Ok (m_blocks m b)"
    "transaction_metadata_of C B b db = Ok (m_transactions m b)" "current_syncing_tips C B db = Ok (m_tips m)"
  using assms by (auto simp: repr_def)

lemma metadata_changes_Ok:
  assumes "repr C B db m"
  shows "metadata_changes C B c i ts db =
    Ok (map (\<lambda>(j, t). (TRANSACTION_MAPPING, enc_hash C t,
      enc_metadata C (m_transactions m t @ [metadata_entry c j]))) (enumerate i ts))"
  using assms
  by (induction ts arbitrary: i) (auto simp: repr_def metadata_entry_def)

lemma last_set_append:
  "last_set c k (xs @ ys) = (case last_set c k ys of Some v \<Rightarrow> Some v | None \<Rightarrow> last_set c k xs)"
  by (induction xs rule: last_set.induct) (auto split: option.splits)

lemma last_set_metadata:
  assumes "inj (enc_hash C)"
  shows "last_set TRANSACTION_MAPPING (enc_hash C t)
      (map (\<lambda>(j, t). (TRANSACTION_MAPPING, enc_hash C t, f j t)) (enumerate i ts)) =
    map_option (\<lambda>j. f j t) (last_index i ts t)"
  using assms by (induction ts arbitrary: i) (auto simp: inj_eq split: option.splits)

lemma last_set_other:
  "c \<noteq> TRANSACTION_MAPPING \<Longrightarrow>
     last_set c k (map (\<lambda>(j, t). (TRANSACTION_MAPPING, enc_hash C t, f j t)) (enumerate i ts)) = None"
  by (induction ts arbitrary: i) auto

lemma commit_get:
  assumes "database_ok B" and "db_commit B tx db = (Ok u, db')"
  shows "db_get B c k db' = (case last_set c k tx of Some v \<Rightarrow> Some v | None \<Rightarrow> db_get B c k db)"
  using assms unfolding database_ok_def by fastforce

lemma commit_not_Ok:
  assumes "database_ok B" and "db_commit B tx db = (r, db')"
  shows "r \<noteq> Panic \<and> (r = Err e \<longrightarrow> db' = db)"
  using assms unfolding database_ok_def by fastforce

lemma write_hashes_commits:
  assumes "repr C B db m"
  shows "write_hashes C B c db = db_commit B
    ([(BLOCK_MAPPING, enc_hash C (mc_ethereum_block_hash c),
       enc_hashes C (m_blocks m (mc_ethereum_block_hash c) @ [mc_block_hash c]))] @
     map (\<lambda>(j, t). (TRANSACTION_MAPPING, enc_hash C t,
       enc_metadata C (m_transactions m t @ [metadata_entry c j])))
       (enumerate 0 (mc_ethereum_transaction_hashes c)) @
     [(SYNCED_MAPPING, enc_hash C (mc_block_hash c), enc_bool C True)]) db"
  using assms metadata_changes_Ok [OF assms]
  by (simp add: write_hashes_def act_bind_def repr_def)

lemma write_hashes_repr:
  assumes C: "codec_ok C" and B: "database_ok B" and r: "repr C B db m"
    and w: "write_hashes C B c db = (Ok u, db')"
  shows "repr C B db' (m_write c m)"
proof -
  let ?f = "\<lambda>j t. enc_metadata C (m_transactions m t @ [metadata_entry c j])"
  have inj: "inj (enc_hash C)" using C by (simp add: codec_ok_def)
  note get = commit_get [OF B w [unfolded write_hashes_commits [OF r]]]
  note last = last_set_append last_set_metadata [OF inj, where f = ?f] last_set_other [where f = ?f]
  have "is_synced C B b db' = Ok (m_synced (m_write c m) b)" for b
  proof -
    have "db_get B SYNCED_MAPPING (enc_hash C b) db' =
        (if b = mc_block_hash c then Some (enc_bool C True) else db_get B SYNCED_MAPPING (enc_hash C b) db)"
      by (simp add: get last inj_eq [OF inj])
    then show ?thesis
      using C reprD(1) [OF r, of b] by (simp add: is_synced_def m_write_def codec_ok_def)
  qed
  moreover have "block_hashes C B e db' = Ok (m_blocks (m_write c m) e)" for e
  proof -
    have "db_get B BLOCK_MAPPING (enc_hash C e) db' =
        (if e = mc_ethereum_block_hash c
         then Some (enc_hashes C (m_blocks m (mc_ethereum_block_hash c) @ [mc_block_hash c]))
         else db_get B BLOCK_MAPPING (enc_hash C e) db)"
      by (simp add: get last inj_eq [OF inj])
    then show ?thesis
      using C reprD(2) [OF r, of e] by (simp add: block_hashes_def m_write_def codec_ok_def)
  qed
  moreover have "transaction_metadata_of C B t db' = Ok (m_transactions (m_write c m) t)" for t
  proof -
    have "db_get B TRANSACTION_MAPPING (enc_hash C t) db' =
        (case last_index 0 (mc_ethereum_transaction_hashes c) t of
           Some j \<Rightarrow> Some (?f j t) | None \<Rightarrow> db_get B TRANSACTION_MAPPING (enc_hash C t) db)"
      by (simp add: get last split: option.splits)
    then show ?thesis
      using C reprD(3) [OF r, of t]
      by (simp add: transaction_metadata_of_def m_write_def codec_ok_def split: option.splits)
  qed
  moreover have "current_syncing_tips C B db' = Ok (m_tips (m_write c m))"
    using reprD(4) [OF r] by (simp add: current_syncing_tips_def get last m_write_def)
  ultimately show ?thesis by (simp add: repr_def)
qed

lemma write_hashes_not_Ok:
  assumes B: "database_ok B" and r: "repr C B db m" and w: "write_hashes C B c db = (x, db')"
  shows "x \<noteq> Panic \<and> (x = Err e \<longrightarrow> db' = db)"
  by (rule commit_not_Ok [OF B w [unfolded write_hashes_commits [OF r]]])

lemma write_tips_repr:
  assumes C: "codec_ok C" and B: "database_ok B" and r: "repr C B db m"
    and w: "write_current_syncing_tips C B ts db = (Ok u, db')"
  shows "repr C B db' (m\<lparr>m_tips := ts\<rparr>)"
proof -
  note get = commit_get [OF B w [unfolded write_current_syncing_tips_def]]
  have "current_syncing_tips C B db' = Ok ts"
    using C by (simp add: current_syncing_tips_def get codec_ok_def)
  moreover have "is_synced C B b db' = is_synced C B b db" "block_hashes C B b db' = block_hashes C B b db"
    "transaction_metadata_of C B b db' = transaction_metadata_of C B b db" for b
    by (simp_all add: is_synced_def block_hashes_def transaction_metadata_of_def get)
  ultimately show ?thesis using r by (simp add: repr_def)
qed

text \<open>
  The interface the sync worker and the RPC rely on: a backend that represents an abstract mapping.
\<close>

locale mapping_store =
  fixes S :: "'db backend" and lib_ok :: bool and rel :: "'db \<Rightarrow> mapping \<Rightarrow> bool"
  assumes read_synced: "rel db m \<Longrightarrow> be_is_synced S b db = Ok (m_synced m b)"
    and read_blocks: "rel db m \<Longrightarrow> be_block_hashes S x db = Ok (m_blocks m x)"
    and read_transactions: "rel db m \<Longrightarrow> be_transaction_metadata S t db = Ok (m_transactions m t)"
    and read_tips: "rel db m \<Longrightarrow> be_tips S db = Ok (m_tips m)"
    and write_Ok: "lib_ok \<Longrightarrow> rel db m \<Longrightarrow> be_write_hashes S c db = (Ok u, db') \<Longrightarrow> rel db' (m_write c m)"
    and write_Err: "lib_ok \<Longrightarrow> rel db m \<Longrightarrow> be_write_hashes S c db = (r, db') \<Longrightarrow>
      r \<noteq> Panic \<and> (r = Err e \<longrightarrow> db' = db)"
    and tips_Ok: "lib_ok \<Longrightarrow> rel db m \<Longrightarrow> be_write_tips S ts db = (Ok u, db') \<Longrightarrow> rel db' (m\<lparr>m_tips := ts\<rparr>)"
    and tips_Err: "lib_ok \<Longrightarrow> rel db m \<Longrightarrow> be_write_tips S ts db = (r, db') \<Longrightarrow>
      r \<noteq> Panic \<and> (r = Err e \<longrightarrow> db' = db)"

interpretation mapping_db: mapping_store "backend_new C B" "codec_ok C \<and> database_ok B" "repr C B" for C B
proof (standard, goal_cases)
  case (5 db m c u db')
  then show ?case using write_hashes_repr by (auto simp: backend_new_def)
next
  case (6 db m c r db' e)
  then show ?case using write_hashes_not_Ok [of B C db m c r db' e] by (simp add: backend_new_def)
next
  case (7 db m ts u db')
  then show ?case using write_tips_repr by (auto simp: backend_new_def)
next
  case (8 db m ts r db' e)
  then show ?case
    using commit_not_Ok [of B "[(META, CURRENT_SYNCING_TIPS, enc_hashes C ts)]" db r db' e]
    by (simp add: backend_new_def write_current_syncing_tips_def)
qed (simp_all add: backend_new_def repr_def)

lemma last_index_distinct:
  "distinct us \<Longrightarrow> j < length us \<Longrightarrow> last_index i us (us ! j) = Some (i + j)"
proof (induction us arbitrary: i j)
  case (Cons u us)
  have none: "t \<notin> set us \<Longrightarrow> last_index k us t = None" for k t
    by (induction us arbitrary: k) auto
  then show ?case using Cons by (cases j) auto
qed simp

text \<open>
  C20: writing a block refines the abstract mapping, for any commitment, one without transactions
  or with a transaction listed twice included. From a database that represents a mapping,
  \<open>write_hashes\<close> never panics; when it fails the database is unchanged; when it succeeds the
  new database represents the mapping in which the block is synced, appended to the blocks of
  its Ethereum hash, and each transaction listed has one more entry, with the block and the last
  position at which it is listed; every other entry and the stored tips are kept.
\<close>

theorem write_hashes_refines:
  assumes "codec_ok C" and "database_ok B" and "repr C B db m"
    and "write_hashes C B c db = (r, db')"
  shows "case r of
      Ok _ \<Rightarrow> repr C B db' (m_write c m) \<and>
        (\<forall>b. is_synced C B b db' = (if b = mc_block_hash c then Ok True else is_synced C B b db)) \<and>
        (\<forall>e. block_hashes C B e db' = Ok (m_blocks m e @
           (if e = mc_ethereum_block_hash c then [mc_block_hash c] else []))) \<and>
        (\<forall>t. transaction_metadata_of C B t db' = Ok (m_transactions m t @
           (case last_index 0 (mc_ethereum_transaction_hashes c) t of
              Some i \<Rightarrow> [\<lparr>tm_block_hash = mc_block_hash c,
                tm_ethereum_block_hash = mc_ethereum_block_hash c, tm_ethereum_index = word_of_nat i\<rparr>]
            | None \<Rightarrow> []))) \<and>
        current_syncing_tips C B db' = current_syncing_tips C B db
    | Err e \<Rightarrow> db' = db
    | Panic \<Rightarrow> False"
proof (cases r)
  case (Ok u)
  then have r: "repr C B db' (m_write c m)"
    using mapping_db.write_Ok [of C B db m c u db'] assms by (simp add: backend_new_def)
  from reprD [OF this] reprD [OF assms(3)] show ?thesis
    using Ok r by (simp add: m_write_def metadata_entry_def split: option.splits)
qed (use write_hashes_not_Ok [OF assms(2-4)] in auto)

section \<open>Witness\<close>

text \<open>A store in memory, and a codec that writes every field as 32 bytes.\<close>

definition sample_db :: "(u32 \<Rightarrow> bytes \<Rightarrow> bytes option) database" where
  "sample_db = \<lparr>db_get = (\<lambda>c k db. db c k),
     db_commit = (\<lambda>tx db. (Ok (), \<lambda>c k. case last_set c k tx of Some v \<Rightarrow> Some v | None \<Rightarrow> db c k))\<rparr>"

lemma sample_db_ok: "database_ok sample_db"
  by (auto simp: database_ok_def sample_db_def split: option.splits)

fun dec_words :: "nat \<Rightarrow> bytes \<Rightarrow> h256 list" where
  "dec_words 0 bs = []"
| "dec_words (Suc n) bs = h256_from_slice (take 32 bs) # dec_words n (drop 32 bs)"

definition sample_enc_hashes :: "h256 list \<Rightarrow> bytes" where
  "sample_enc_hashes hs = concat (map h256_bytes hs)"

definition sample_dec_hashes :: "bytes \<Rightarrow> h256 list option" where
  "sample_dec_hashes bs = Some (dec_words (length bs div 32) bs)"

lemma length_sample_enc_hashes: "length (sample_enc_hashes hs) = 32 * length hs"
  by (induction hs) (auto simp: sample_enc_hashes_def)

lemma dec_words_enc: "dec_words (length hs) (sample_enc_hashes hs) = hs"
  by (induction hs) (auto simp: sample_enc_hashes_def)

fun metadata_words :: "transaction_metadata list \<Rightarrow> h256 list" where
  "metadata_words [] = []"
| "metadata_words (t # ts) =
     tm_block_hash t # tm_ethereum_block_hash t # ucast (tm_ethereum_index t) # metadata_words ts"

fun words_metadata :: "h256 list \<Rightarrow> transaction_metadata list" where
  "words_metadata (a # b # c # ws) =
     \<lparr>tm_block_hash = a, tm_ethereum_block_hash = b, tm_ethereum_index = ucast c\<rparr> # words_metadata ws"
| "words_metadata ws = []"

lemma words_metadata_words: "words_metadata (metadata_words ts) = ts"
proof (induction ts)
  case (Cons t ts)
  have "ucast (ucast (tm_ethereum_index t) :: h256) = tm_ethereum_index t"
    using unat_bound [of "tm_ethereum_index t"] by (simp add: word_unat_eq_iff unat_ucast_id)
  then show ?case using Cons by simp
qed simp

definition sample_codec :: codec where
  "sample_codec = \<lparr>
     enc_hash = h256_bytes,
     enc_hashes = sample_enc_hashes,
     dec_hashes = sample_dec_hashes,
     enc_metadata = (\<lambda>ts. sample_enc_hashes (metadata_words ts)),
     dec_metadata = (\<lambda>bs. map_option words_metadata (sample_dec_hashes bs)),
     enc_bool = (\<lambda>b. [if b then 1 else 0]),
     dec_bool = (\<lambda>bs. Some (bs = [1])),
     dec_error = ''decode''\<rparr>"

lemma sample_codec_ok: "codec_ok sample_codec"
proof -
  have "inj h256_bytes" by (metis h256_from_slice_bytes injI)
  moreover have "sample_dec_hashes (sample_enc_hashes hs) = Some hs" for hs
    by (simp add: sample_dec_hashes_def length_sample_enc_hashes dec_words_enc)
  ultimately show ?thesis by (simp add: codec_ok_def sample_codec_def words_metadata_words)
qed

definition empty_mapping :: mapping where
  "empty_mapping = \<lparr>m_synced = (\<lambda>_. False), m_blocks = (\<lambda>_. []), m_transactions = (\<lambda>_. []), m_tips = []\<rparr>"

lemma sample_repr: "repr sample_codec sample_db (\<lambda>_ _. None) empty_mapping"
  by (simp add: repr_def is_synced_def block_hashes_def transaction_metadata_of_def current_syncing_tips_def
      sample_db_def empty_mapping_def)

text \<open>A commitment that lists a transaction twice, and one without transactions.\<close>

theorem write_hashes_refines_witness:
  "(\<exists>db'. write_hashes sample_codec sample_db
       \<lparr>mc_block_hash = 1, mc_ethereum_block_hash = 2, mc_ethereum_transaction_hashes = [3, 4, 3]\<rparr> (\<lambda>_ _. None) =
       (Ok (), db') \<and>
     transaction_metadata_of sample_codec sample_db 3 db' =
       Ok [\<lparr>tm_block_hash = 1, tm_ethereum_block_hash = 2, tm_ethereum_index = 2\<rparr>]) \<and>
   (\<exists>db'. write_hashes sample_codec sample_db
       \<lparr>mc_block_hash = 1, mc_ethereum_block_hash = 2, mc_ethereum_transaction_hashes = []\<rparr> (\<lambda>_ _. None) =
       (Ok (), db') \<and> is_synced sample_codec sample_db 1 db' = Ok True)"
proof
  let ?c = "\<lparr>mc_block_hash = 1, mc_ethereum_block_hash = 2, mc_ethereum_transaction_hashes = [3, 4, 3]\<rparr>"
  obtain db' where w: "write_hashes sample_codec sample_db ?c (\<lambda>_ _. None) = (Ok (), db')"
    using write_hashes_commits [OF sample_repr, of ?c] by (simp add: sample_db_def)
  from write_hashes_refines [OF sample_codec_ok sample_db_ok sample_repr w] w
  show "\<exists>db'. write_hashes sample_codec sample_db ?c (\<lambda>_ _. None) = (Ok (), db') \<and>
     transaction_metadata_of sample_codec sample_db 3 db' =
       Ok [\<lparr>tm_block_hash = 1, tm_ethereum_block_hash = 2, tm_ethereum_index = 2\<rparr>]"
    by (simp add: empty_mapping_def)
next
  let ?c = "\<lparr>mc_block_hash = 1, mc_ethereum_block_hash = 2, mc_ethereum_transaction_hashes = []\<rparr>"
  obtain db' where w: "write_hashes sample_codec sample_db ?c (\<lambda>_ _. None) = (Ok (), db')"
    using write_hashes_commits [OF sample_repr, of ?c] by (simp add: sample_db_def)
  from write_hashes_refines [OF sample_codec_ok sample_db_ok sample_repr w] w
  show "\<exists>db'. write_hashes sample_codec sample_db ?c (\<lambda>_ _. None) = (Ok (), db') \<and>
     is_synced sample_codec sample_db 1 db' = Ok True"
    by simp
qed

end
