(* ===== verification/Mapping_Sync.thy ===== *)
theory Mapping_Sync
  imports Mapping_Db Consensus_Log
begin

text \<open>
  \<open>client/mapping-sync\<close>: the worker that walks the Substrate chain from its leaves towards
  genesis and writes the Ethereum hashes of each block into the mapping database. The
  Substrate client (leaves, headers, the runtime's current block) is the parameter
  \<open>chain_api\<close>. The client lemmas are proved once, in the interface \<open>mapping_store\<close> of the
  database, and reach the code through its interpretation on the database's own operations.
\<close>

section \<open>The Substrate client\<close>

record 'd sub_header =
  sh_hash :: h256
  sh_number :: u32
  sh_parent :: h256
  sh_digest :: "'d list"

record 'd chain_api =
  ch_leaves :: "(string, h256 list) res"
  ch_header :: "h256 \<Rightarrow> (string, 'd sub_header option) res"
  ch_current_block :: "h256 \<Rightarrow> (string, block option) res"

text \<open>A header is found under its own hash.\<close>

definition chain_ok :: "'d chain_api \<Rightarrow> bool" where
  "chain_ok H \<longleftrightarrow> (\<forall>b h. ch_header H b = Ok (Some h) \<longrightarrow> sh_hash h = b) \<and>
     ch_leaves H \<noteq> Panic \<and> (\<forall>b. ch_header H b \<noteq> Panic) \<and> (\<forall>b. ch_current_block H b \<noteq> Panic)"

text \<open>\<open>format!("{:?}", e)\<close> on a string and on a search error.\<close>

definition debug_char :: "char \<Rightarrow> string" where
  "debug_char c =
     (if c = CHR 0x22 \<or> c = CHR 0x5C then [CHR 0x5C, c]
      else if c = CHR 0x0A then [CHR 0x5C, CHR ''n'']
      else if c = CHR 0x0D then [CHR 0x5C, CHR ''r'']
      else if c = CHR 0x09 then [CHR 0x5C, CHR ''t'']
      else [c])"

definition debug_string :: "string \<Rightarrow> string" where
  "debug_string s = [CHR 0x22] @ concat (map debug_char s) @ [CHR 0x22]"

fun debug_find_error :: "find_log_error \<Rightarrow> string" where
  "debug_find_error NotFound = ''NotFound''"
| "debug_find_error MultipleLogs = ''MultipleLogs''"

section \<open>Syncing\<close>

definition sync_block ::
  "eth_lib \<Rightarrow> 'd digest_api \<Rightarrow> 'db backend \<Rightarrow> 'd sub_header \<Rightarrow> ('db, string, unit) act" where
  "sync_block L D S header =
     act_bind (act_lift (map_err debug_find_error (find_log D (sh_digest header)))) (\<lambda>lg.
     let post_hashes = into_hashes L lg in
       be_write_hashes S \<lparr>mc_block_hash = sh_hash header,
         mc_ethereum_block_hash = hs_block_hash post_hashes,
         mc_ethereum_transaction_hashes = hs_transaction_hashes post_hashes\<rparr>)"

definition sync_genesis_block ::
  "eth_lib \<Rightarrow> 'd chain_api \<Rightarrow> 'db backend \<Rightarrow> 'd sub_header \<Rightarrow> ('db, string, unit) act" where
  "sync_genesis_block L H S header =
     act_bind (act_lift (ch_current_block H (sh_hash header))) (\<lambda>blk.
     act_bind (act_lift (ok_or blk ''Ethereum genesis block not found'')) (\<lambda>b.
       be_write_hashes S \<lparr>mc_block_hash = sh_hash header,
         mc_ethereum_block_hash = header_hash L (bk_header b),
         mc_ethereum_transaction_hashes = []\<rparr>))"

text \<open>
  The loop that pops tips until one is not synced. The stack is given top first; the result is the
  tip to work on, if any, and what is left of the stack.
\<close>

fun pop_unsynced :: "'db backend \<Rightarrow> h256 list \<Rightarrow> 'db \<Rightarrow> (string, h256 option \<times> h256 list) res" where
  "pop_unsynced S [] db = Ok (None, [])"
| "pop_unsynced S (checking_tip # tips) db =
     res_bind (map_err debug_string (be_is_synced S checking_tip db)) (\<lambda>synced.
       if \<not> synced then Ok (Some checking_tip, tips) else pop_unsynced S tips db)"

definition sync_tip ::
  "eth_lib \<Rightarrow> 'd digest_api \<Rightarrow> 'd chain_api \<Rightarrow> 'db backend \<Rightarrow> h256 \<Rightarrow> h256 list \<Rightarrow> ('db, string, bool) act" where
  "sync_tip L D H S operating_tip tips =
     act_bind (act_lift (ch_header H operating_tip)) (\<lambda>found.
     act_bind (act_lift (ok_or found ''Header not found'')) (\<lambda>operating_header.
       if sh_number operating_header = 0 then
         act_bind (sync_genesis_block L H S operating_header) (\<lambda>_.
         act_bind (be_write_tips S tips) (\<lambda>_. act_return True))
       else
         act_bind (sync_block L D S operating_header) (\<lambda>_.
         act_bind (be_write_tips S (tips @ [sh_parent operating_header])) (\<lambda>_. act_return True))))"

definition sync_one_block ::
  "eth_lib \<Rightarrow> 'd digest_api \<Rightarrow> 'd chain_api \<Rightarrow> 'db backend \<Rightarrow> ('db, string, bool) act" where
  "sync_one_block L D H S =
     act_bind (\<lambda>db. (be_tips S db, db)) (\<lambda>stored.
     act_bind (if stored = [] then act_lift (ch_leaves H) else act_return stored) (\<lambda>tips.
       if tips = [] then act_return False
       else
         act_bind (\<lambda>db. (pop_unsynced S (rev tips) db, db)) (\<lambda>(operating_tip, rest).
           case operating_tip of
             Some tip \<Rightarrow> sync_tip L D H S tip (rev rest)
           | None \<Rightarrow> act_bind (be_write_tips S (rev rest)) (\<lambda>_. act_return False))))"

text \<open>\<open>synced_any = synced_any || sync_one_block(..)?\<close>, \<open>limit\<close> times.\<close>

fun sync_loop ::
  "eth_lib \<Rightarrow> 'd digest_api \<Rightarrow> 'd chain_api \<Rightarrow> 'db backend \<Rightarrow> nat \<Rightarrow> bool \<Rightarrow> ('db, string, bool) act" where
  "sync_loop L D H S 0 synced_any = act_return synced_any"
| "sync_loop L D H S (Suc n) synced_any =
     act_bind (if synced_any then act_return True else sync_one_block L D H S)
       (\<lambda>b. sync_loop L D H S n b)"

definition sync_blocks ::
  "eth_lib \<Rightarrow> 'd digest_api \<Rightarrow> 'd chain_api \<Rightarrow> 'db backend \<Rightarrow> nat \<Rightarrow> ('db, string, bool) act" where
  "sync_blocks L D H S limit = sync_loop L D H S limit False"

section \<open>The worker\<close>

text \<open>
  One poll: what the notification stream yields before it is pending (or closed), and whether the
  delay has elapsed. The worker keeps whether a delay is armed and whether more is to do.
\<close>

datatype import_note = Note_Imported | Note_Closed

record sync_worker =
  w_delay_armed :: bool
  w_have_next :: bool

datatype poll = Poll_Pending | Poll_Ready | Poll_Closed | Poll_Panic

definition SYNC_LIMIT :: nat where "SYNC_LIMIT = 8"

definition worker_new :: sync_worker where
  "worker_new = \<lparr>w_delay_armed = False, w_have_next = True\<rparr>"

fun drain :: "import_note list \<Rightarrow> bool \<Rightarrow> bool option" where
  "drain [] fire = Some fire"
| "drain (Note_Imported # ns) fire = drain ns True"
| "drain (Note_Closed # ns) fire = None"

definition poll_next ::
  "eth_lib \<Rightarrow> 'd digest_api \<Rightarrow> 'd chain_api \<Rightarrow> 'db backend \<Rightarrow> import_note list \<Rightarrow> bool \<Rightarrow> sync_worker \<Rightarrow> 'db \<Rightarrow>
     poll \<times> sync_worker \<times> 'db" where
  "poll_next L D H S notes delay_ready w db =
     (case drain notes False of
        None \<Rightarrow> (Poll_Closed, w, db)
      | Some fire \<Rightarrow>
          let w1 = w\<lparr>w_delay_armed := True\<rparr> in
          if fire \<or> delay_ready \<or> w_have_next w then
            (case sync_blocks L D H S SYNC_LIMIT db of
               (Ok have_next, db') \<Rightarrow> (Poll_Ready, w1\<lparr>w_delay_armed := False, w_have_next := have_next\<rparr>, db')
             | (Err e, db') \<Rightarrow> (Poll_Ready, w1\<lparr>w_delay_armed := False, w_have_next := False\<rparr>, db')
             | (Panic, db') \<Rightarrow> (Poll_Panic, w1\<lparr>w_delay_armed := False\<rparr>, db'))
          else (Poll_Pending, w1, db))"

section \<open>What one step does to the mapping\<close>

text \<open>The entry a header yields, if it has one.\<close>

definition commitment_of ::
  "eth_lib \<Rightarrow> 'd digest_api \<Rightarrow> 'd chain_api \<Rightarrow> 'd sub_header \<Rightarrow> mapping_commitment option" where
  "commitment_of L D H h =
     (if sh_number h = 0 then
        (case ch_current_block H (sh_hash h) of
           Ok (Some b) \<Rightarrow> Some \<lparr>mc_block_hash = sh_hash h, mc_ethereum_block_hash = header_hash L (bk_header b),
             mc_ethereum_transaction_hashes = []\<rparr>
         | _ \<Rightarrow> None)
      else
        (case find_log D (sh_digest h) of
           Ok lg \<Rightarrow> Some \<lparr>mc_block_hash = sh_hash h,
             mc_ethereum_block_hash = hs_block_hash (into_hashes L lg),
             mc_ethereum_transaction_hashes = hs_transaction_hashes (into_hashes L lg)\<rparr>
         | _ \<Rightarrow> None))"

lemma commitment_of_hash: "commitment_of L D H h = Some c \<Longrightarrow> mc_block_hash c = sh_hash h"
  by (auto simp: commitment_of_def split: if_splits res.splits option.splits)

text \<open>The tips left after a header was written: its parent is pushed, unless it is genesis.\<close>

definition next_tips :: "h256 list \<Rightarrow> 'd sub_header \<Rightarrow> h256 list" where
  "next_tips rest h = rev rest @ (if sh_number h = 0 then [] else [sh_parent h])"

definition work_tips :: "'d chain_api \<Rightarrow> mapping \<Rightarrow> h256 list" where
  "work_tips H m = (if m_tips m = [] then (case ch_leaves H of Ok ls \<Rightarrow> ls | _ \<Rightarrow> []) else m_tips m)"

text \<open>The effects of a step: nothing to do, one block written, or an error, which may come after the write.\<close>

inductive sync_effect ::
  "eth_lib \<Rightarrow> 'd digest_api \<Rightarrow> 'd chain_api \<Rightarrow> mapping \<Rightarrow> (string, bool) res \<Rightarrow> mapping \<Rightarrow> bool"
  for L D H m where
  effect_idle: "(\<forall>t \<in> set (m_tips m). m_synced m t) \<Longrightarrow> m' = m\<lparr>m_tips := []\<rparr> \<Longrightarrow>
    sync_effect L D H m (Ok False) m'"
| effect_block: "dropWhile (m_synced m) (rev (work_tips H m)) = tip # rest \<Longrightarrow> ch_header H tip = Ok (Some h) \<Longrightarrow>
    commitment_of L D H h = Some c \<Longrightarrow>
    sync_effect L D H m (Ok True) ((m_write c m)\<lparr>m_tips := next_tips rest h\<rparr>)"
| effect_error: "sync_effect L D H m (Err e) m"
| effect_half: "dropWhile (m_synced m) (rev (work_tips H m)) = tip # rest \<Longrightarrow> ch_header H tip = Ok (Some h) \<Longrightarrow>
    commitment_of L D H h = Some c \<Longrightarrow> sync_effect L D H m (Err e) (m_write c m)"

lemma write_header_eq:
  assumes "chain_ok H"
  shows "(if sh_number h = 0 then sync_genesis_block L H S h else sync_block L D S h) db =
    (case commitment_of L D H h of
       Some c \<Rightarrow> be_write_hashes S c db
     | None \<Rightarrow> (Err (if sh_number h = 0 then
           (case ch_current_block H (sh_hash h) of Err e \<Rightarrow> e | _ \<Rightarrow> ''Ethereum genesis block not found'')
         else (case find_log D (sh_digest h) of Err e \<Rightarrow> debug_find_error e | _ \<Rightarrow> [])), db))"
proof -
  have "ch_current_block H (sh_hash h) \<noteq> Panic" using assms by (simp add: chain_ok_def)
  moreover have "find_log D (sh_digest h) \<noteq> Panic" by (simp add: find_log_eq)
  ultimately show ?thesis
    by (auto simp: sync_genesis_block_def sync_block_def commitment_of_def act_bind_def act_simps Let_def
        split: res.splits option.splits)
qed

lemma sync_tip_eq:
  assumes "chain_ok H" and "ch_header H tip = Ok (Some h)"
  shows "sync_tip L D H S tip (rev rest) db =
    act_bind (if sh_number h = 0 then sync_genesis_block L H S h else sync_block L D S h)
      (\<lambda>_. act_bind (be_write_tips S (next_tips rest h)) (\<lambda>_. act_return True)) db"
  using assms(2)
  by (cases "sh_number h = 0") (simp_all add: sync_tip_def next_tips_def act_bind_def act_simps)

context mapping_store
begin

lemma pop_unsynced_Ok:
  assumes "rel db m"
  shows "pop_unsynced S ts db =
    Ok (case dropWhile (m_synced m) ts of [] \<Rightarrow> (None, []) | t # us \<Rightarrow> (Some t, us))"
  by (induction ts) (auto simp: read_synced [OF assms])

lemma sync_tip_effect:
  assumes lib: lib_ok and r: "rel db m" and H: "chain_ok H"
    and d: "dropWhile (m_synced m) (rev (work_tips H m)) = tip # rest"
    and h: "ch_header H tip = Ok (Some h)" and c: "commitment_of L D H h = Some c"
    and s: "sync_tip L D H S tip (rev rest) db = (x, db')"
  shows "\<exists>m'. rel db' m' \<and> sync_effect L D H m x m'"
proof -
  obtain y db1 where w: "be_write_hashes S c db = (y, db1)" by force
  obtain z db2 where t: "be_write_tips S (next_tips rest h) db1 = (z, db2)" by force
  have s': "(x, db') = (case y of
      Ok u \<Rightarrow> (case z of Ok u \<Rightarrow> (Ok True, db2) | Err e \<Rightarrow> (Err e, db2) | Panic \<Rightarrow> (Panic, db2))
    | Err e \<Rightarrow> (Err e, db1) | Panic \<Rightarrow> (Panic, db1))"
    using s unfolding sync_tip_eq [OF H h] act_bind_def write_header_eq [OF H] c
    by (auto simp: act_simps w t split: res.splits)
  show ?thesis
  proof (cases y)
    case (Ok u)
    note r1 = write_Ok [OF lib r w [unfolded Ok]]
    show ?thesis
    proof (cases z)
      case Ok2: (Ok v)
      then show ?thesis
        using s' Ok tips_Ok [OF lib r1 t [unfolded Ok2]] effect_block [OF d h c] by auto
    next
      case (Err e)
      then show ?thesis using s' Ok tips_Err [OF lib r1 t] r1 effect_half [OF d h c] by auto
    next
      case Panic
      then show ?thesis using tips_Err [OF lib r1 t] by blast
    qed
  next
    case (Err e)
    then have "x = Err e" "db' = db" using s' write_Err [OF lib r w] by auto
    then show ?thesis using r effect_error by blast
  next
    case Panic
    then show ?thesis using write_Err [OF lib r w] by blast
  qed
qed

lemma sync_tip_no_commitment:
  assumes H: "chain_ok H"
    and n: "\<nexists>h c. ch_header H tip = Ok (Some h) \<and> commitment_of L D H h = Some c"
  shows "\<exists>e. sync_tip L D H S tip (rev rest) db = (Err e, db)"
proof (cases "\<exists>h. ch_header H tip = Ok (Some h)")
  case True
  then obtain h where h: "ch_header H tip = Ok (Some h)" by blast
  then have "commitment_of L D H h = None" using n by (cases "commitment_of L D H h") auto
  then show ?thesis unfolding sync_tip_eq [OF H h] act_bind_def write_header_eq [OF H] by auto
next
  case False
  moreover have "ch_header H tip \<noteq> Panic" using H by (simp add: chain_ok_def)
  ultimately show ?thesis
    by (cases "ch_header H tip") (auto simp: sync_tip_def act_bind_def act_simps ok_or.simps
        split: option.splits elim!: ok_or.elims)
qed

lemma sync_one_block_effect:
  assumes lib: lib_ok and r: "rel db m" and H: "chain_ok H"
    and s: "sync_one_block L D H S db = (x, db')"
  shows "\<exists>m'. rel db' m' \<and> (sync_effect L D H m x m' \<or> x = Ok False \<and> m' = m \<and> m_tips m = [])"
proof -
  have leaves: "ch_leaves H \<noteq> Panic" using H by (simp add: chain_ok_def)
  consider (err) e where "m_tips m = []" "ch_leaves H = Err e"
    | (none) "work_tips H m = []" "m_tips m = []" "ch_leaves H = Ok []"
    | (some) "work_tips H m \<noteq> []" "m_tips m = [] \<longrightarrow> ch_leaves H = Ok (work_tips H m)"
    using leaves by (cases "m_tips m = []"; cases "ch_leaves H") (auto simp: work_tips_def)
  then show ?thesis
  proof cases
    case err
    then show ?thesis
      using s r by (auto simp: sync_one_block_def act_bind_def act_simps read_tips [OF r] intro: effect_error)
  next
    case none
    then show ?thesis
      using s r by (auto simp: sync_one_block_def act_bind_def act_simps read_tips [OF r])
  next
    case some
    have eq: "sync_one_block L D H S db =
        (case dropWhile (m_synced m) (rev (work_tips H m)) of
           [] \<Rightarrow> act_bind (be_write_tips S []) (\<lambda>_. act_return False) db
         | tip # rest \<Rightarrow> sync_tip L D H S tip (rev rest) db)"
    proof -
      have st: "act_bind (if m_tips m = [] then act_lift (ch_leaves H) else act_return (m_tips m)) f db =
          f (work_tips H m) db" for f :: "h256 list \<Rightarrow> ('db, string, bool) act"
      proof (cases "m_tips m = []")
        case True
        then have "ch_leaves H = Ok (work_tips H m)" using some(2) by blast
        then show ?thesis using True by (simp add: act_bind_def act_simps)
      next
        case False
        then show ?thesis by (simp add: act_bind_def act_simps work_tips_def)
      qed
      have "sync_one_block L D H S db =
          act_bind (\<lambda>db. (pop_unsynced S (rev (work_tips H m)) db, db)) (\<lambda>(operating_tip, rest).
           case operating_tip of
             Some tip \<Rightarrow> sync_tip L D H S tip (rev rest)
           | None \<Rightarrow> act_bind (be_write_tips S (rev rest)) (\<lambda>_. act_return False)) db"
        using some(1) unfolding sync_one_block_def
        by (subst act_bind_Ok [of _ db "m_tips m" db]) (simp_all add: read_tips [OF r] st)
      then show ?thesis
        by (cases "dropWhile (m_synced m) (rev (work_tips H m))")
          (simp_all add: act_bind_def pop_unsynced_Ok [OF r] del: dropWhile_eq_Nil_conv)
    qed
    show ?thesis
    proof (cases "dropWhile (m_synced m) (rev (work_tips H m))")
      case Nil
      then have all: "\<forall>t \<in> set (work_tips H m). m_synced m t" by simp
      then have tips: "\<forall>t \<in> set (m_tips m). m_synced m t"
        by (cases "m_tips m = []") (auto simp: work_tips_def)
      obtain z db2 where t: "be_write_tips S [] db = (z, db2)" by force
      have "(x, db') = (case z of Ok u \<Rightarrow> (Ok False, db2) | Err e \<Rightarrow> (Err e, db2) | Panic \<Rightarrow> (Panic, db2))"
        using s eq Nil by (auto simp: act_bind_def act_simps t split: res.splits)
      note z = this
      show ?thesis
      proof (cases z)
        case (Ok u)
        then have "x = Ok False" "db' = db2" using z by auto
        then show ?thesis using tips_Ok [OF lib r t [unfolded Ok]] effect_idle [OF tips refl] by blast
      next
        case (Err e)
        then have "x = Err e" "db' = db" using z tips_Err [OF lib r t] by auto
        then show ?thesis using r effect_error by blast
      next
        case Panic
        then show ?thesis using tips_Err [OF lib r t] by blast
      qed
    next
      case (Cons tip rest)
      then have s': "sync_tip L D H S tip (rev rest) db = (x, db')" using s eq by simp
      show ?thesis
      proof (cases "\<exists>h c. ch_header H tip = Ok (Some h) \<and> commitment_of L D H h = Some c")
        case True
        then show ?thesis using sync_tip_effect [OF lib r H Cons _ _ s'] by blast
      next
        case False
        then obtain e where "sync_tip L D H S tip (rev rest) db = (Err e, db)"
          using sync_tip_no_commitment [OF H] by blast
        then have "x = Err e" "db' = db" using s' by auto
        then show ?thesis using r effect_error by blast
      qed
    qed
  qed
qed

end

section \<open>No gap below a synced block\<close>

text \<open>The parent of a synced block is synced or waits among the tips.\<close>

definition tips_closed :: "'d chain_api \<Rightarrow> mapping \<Rightarrow> bool" where
  "tips_closed H m \<longleftrightarrow> (\<forall>b h. m_synced m b \<and> ch_header H b = Ok (Some h) \<and> sh_number h \<noteq> 0 \<longrightarrow>
     m_synced m (sh_parent h) \<or> sh_parent h \<in> set (m_tips m))"

lemma dropWhile_rest:
  "dropWhile P (rev ts) = t # us \<Longrightarrow> x \<in> set ts \<Longrightarrow> P x \<or> x = t \<or> x \<in> set us"
  using takeWhile_dropWhile_id [of P "rev ts"] set_takeWhileD [of x P "rev ts"]
  by (metis Un_iff set_ConsD set_append set_rev)

lemma sync_effect_closed:
  assumes H: "chain_ok H" and c: "tips_closed H m" and e: "sync_effect L D H m (Ok b) m'"
  shows "tips_closed H m'"
  using e
proof cases
  case effect_idle
  then show ?thesis using c by (auto simp: tips_closed_def)
next
  case (effect_block tip rest h k)
  have k: "mc_block_hash k = tip"
    using commitment_of_hash [OF effect_block(5)] H effect_block(4) by (simp add: chain_ok_def)
  have cases: "m_synced m x \<or> x = tip \<or> x \<in> set rest" if "x \<in> set (m_tips m)" for x
  proof -
    have "m_tips m \<noteq> []" using that by auto
    then have "work_tips H m = m_tips m" by (simp add: work_tips_def)
    then show ?thesis using dropWhile_rest [OF effect_block(3)] that by simp
  qed
  show ?thesis unfolding tips_closed_def
  proof (intro allI impI, elim conjE)
    fix b' h'
    assume s: "m_synced m' b'" and h: "ch_header H b' = Ok (Some h')" "sh_number h' \<noteq> 0"
    show "m_synced m' (sh_parent h') \<or> sh_parent h' \<in> set (m_tips m')"
    proof (cases "b' = tip")
      case True
      then have "h' = h" using h(1) effect_block(4) by simp
      then show ?thesis using h(2) effect_block(2) by (simp add: next_tips_def)
    next
      case False
      then have "m_synced m b'" using s effect_block(2) k by (simp add: m_write_def)
      then have "m_synced m (sh_parent h') \<or> sh_parent h' \<in> set (m_tips m)"
        using c h unfolding tips_closed_def by blast
      then show ?thesis using cases effect_block(2) k by (auto simp: m_write_def next_tips_def)
    qed
  qed
qed

text \<open>
  C21: syncing leaves no gap. If the parent of every synced block is synced or among the stored tips,
  a successful \<open>sync_one_block\<close> keeps it so, whatever leaves and headers the client reports, and
  syncs at most one block more; it never un-syncs a block.
\<close>

theorem sync_keeps_closed:
  assumes "codec_ok C" and "database_ok B" and "repr C B db m" and "chain_ok H" and "tips_closed H m"
    and "sync_one_block L D H (backend_new C B) db = (Ok b, db')"
  shows "\<exists>m'. repr C B db' m' \<and> tips_closed H m' \<and> (\<forall>x. m_synced m x \<longrightarrow> m_synced m' x) \<and>
    (\<exists>t. \<forall>x. m_synced m' x \<longrightarrow> m_synced m x \<or> (b \<and> x = t))"
proof -
  obtain m' where m': "repr C B db' m'" "sync_effect L D H m (Ok b) m' \<or> Ok b = Ok False \<and> m' = m \<and> m_tips m = []"
    using mapping_db.sync_one_block_effect [of C B db m H L D] assms(1-4,6) by blast
  from m'(2) have "tips_closed H m' \<and> (\<forall>x. m_synced m x \<longrightarrow> m_synced m' x) \<and>
    (\<exists>t. \<forall>x. m_synced m' x \<longrightarrow> m_synced m x \<or> (b \<and> x = t))"
  proof
    assume e: "sync_effect L D H m (Ok b) m'"
    from e have "(\<forall>x. m_synced m x \<longrightarrow> m_synced m' x) \<and>
        (\<exists>t. \<forall>x. m_synced m' x \<longrightarrow> m_synced m x \<or> (b \<and> x = t))"
      by cases (auto simp: m_write_def)
    then show ?thesis using sync_effect_closed [OF assms(4,5) e] by blast
  qed (use assms(5) in auto)
  then show ?thesis using m'(1) by blast
qed

text \<open>Once every stored tip and every leaf is synced, no further round syncs anything.\<close>

context mapping_store
begin

lemma sync_one_block_done:
  assumes "lib_ok" "rel db m" "chain_ok H" "ch_leaves H = Ok ls"
    and all: "\<forall>x \<in> set ls \<union> set (m_tips m). m_synced m x"
    and s: "sync_one_block L D H S db = (x, db')"
  shows "\<exists>m'. rel db' m' \<and> m_synced m' = m_synced m \<and> set (m_tips m') \<subseteq> set (m_tips m) \<and> x \<noteq> Ok True"
proof -
  have none: "dropWhile (m_synced m) (rev (work_tips H m)) = []" using all assms(4) by (auto simp: work_tips_def)
  obtain m' where m': "rel db' m'"
    "sync_effect L D H m x m' \<or> x = Ok False \<and> m' = m \<and> m_tips m = []"
    using sync_one_block_effect [OF assms(1-3) s] by blast
  from m'(2) have "m_synced m' = m_synced m \<and> set (m_tips m') \<subseteq> set (m_tips m) \<and> x \<noteq> Ok True"
  proof
    assume "sync_effect L D H m x m'"
    then show ?thesis by cases (simp_all only: none list.distinct, simp_all)
  qed simp
  then show ?thesis using m'(1) by blast
qed

lemma sync_loop_done:
  assumes "lib_ok" "rel db m" "chain_ok H" "ch_leaves H = Ok ls"
    and "\<forall>x \<in> set ls \<union> set (m_tips m). m_synced m x"
  shows "\<exists>m'. rel (snd (sync_loop L D H S n False db)) m' \<and> m_synced m' = m_synced m"
  using assms(2,5)
proof (induction n arbitrary: db m)
  case (Suc n)
  obtain x db' where s: "sync_one_block L D H S db = (x, db')" by force
  obtain m' where m': "rel db' m'" "m_synced m' = m_synced m" "set (m_tips m') \<subseteq> set (m_tips m)" "x \<noteq> Ok True"
    using sync_one_block_done [OF assms(1) Suc.prems(1) assms(3,4) Suc.prems(2) s] by blast
  have "\<forall>y \<in> set ls \<union> set (m_tips m'). m_synced m' y" using m'(2,3) Suc.prems(2) by auto
  from Suc.IH [OF m'(1) this] show ?case using s m' by (cases x) (auto simp: act_bind_def)
qed (auto simp: act_simps)

end

text \<open>
  C23: an interrupted step leaves a gap for good. If the hashes of the stored tip are written and
  the write of the tips after it fails, \<open>sync_one_block\<close> returns the error and leaves the database
  with the tip synced and still stored, and its parent not synced. However often syncing is retried
  after that, with writes that work or fail again, the parent stays unsynced, as long as the leaves
  of the chain are synced blocks: the tip is skipped, and nothing else leads to the parent.
\<close>

theorem interrupted_step_leaves_gap:
  assumes "codec_ok C" and "database_ok B" and "repr C B db m" and "chain_ok H"
    and "m_tips m = [tip]" and "\<not> m_synced m tip"
    and "ch_header H tip = Ok (Some h)" and "sh_number h \<noteq> 0" and "commitment_of L D H h = Some c"
    and "\<not> m_synced m (sh_parent h)" and "sh_parent h \<noteq> tip"
    and "write_hashes C B c db = (Ok (), db1)"
    and "write_current_syncing_tips C B [sh_parent h] db1 = (Err e, db2)"
    and "ch_leaves H = Ok ls" and "\<forall>l \<in> set ls. m_synced m l \<or> l = tip"
  shows "sync_one_block L D H (backend_new C B) db = (Err e, db1) \<and>
    is_synced C B tip db1 = Ok True \<and> current_syncing_tips C B db1 = Ok [tip] \<and>
    (\<forall>n. is_synced C B (sh_parent h) (snd (sync_blocks L D H (backend_new C B) n db1)) = Ok False)"
proof -
  let ?S = "backend_new C B" and ?m = "m_write c m"
  note lib = conjI [OF assms(1,2)]
  have k: "mc_block_hash c = tip"
    using commitment_of_hash [OF assms(9)] assms(4,7) by (simp add: chain_ok_def)
  have w: "be_write_hashes ?S c db = (Ok (), db1)" using assms(12) by (simp add: backend_new_def)
  have t: "be_write_tips ?S (next_tips [] h) db1 = (Err e, db2)"
    using assms(8,13) by (simp add: backend_new_def next_tips_def)
  note r1 = mapping_db.write_Ok [OF lib assms(3) w]
  have db2: "db2 = db1" using mapping_db.tips_Err [OF lib r1 t] by blast
  have "sync_one_block L D H ?S db = sync_tip L D H ?S tip (rev []) db"
    using assms(5,6) mapping_db.read_tips [OF assms(3)] mapping_db.read_synced [OF assms(3)]
    by (simp add: sync_one_block_def act_bind_def act_simps)
  also have "\<dots> = (Err e, db1)"
    unfolding sync_tip_eq [OF assms(4,7)] act_bind_def write_header_eq [OF assms(4)] assms(9)
    by (simp add: w t db2)
  finally have step: "sync_one_block L D H ?S db = (Err e, db1)" .
  have m: "m_tips ?m = [tip]" "m_synced ?m tip" "\<not> m_synced ?m (sh_parent h)"
    "\<forall>x \<in> set ls \<union> set (m_tips ?m). m_synced ?m x"
    using assms(5,10,11,15) k by (auto simp: m_write_def)
  have "is_synced C B (sh_parent h) (snd (sync_blocks L D H ?S n db1)) = Ok False" for n
    using mapping_db.sync_loop_done [OF lib r1 assms(4,14) m(4), of L D n] m(3)
    by (auto simp: sync_blocks_def repr_def)
  then show ?thesis using step m(1,2) reprD(1,4) [OF r1] by simp
qed

section \<open>Progress\<close>

text \<open>A step that writes a block ends the loop of \<open>sync_blocks\<close>: the later rounds do nothing.\<close>

lemma sync_loop_True: "sync_loop L D H S n True db = (Ok True, db)"
  by (induction n) (simp_all add: act_bind_def act_simps)

lemma sync_blocks_once:
  "sync_one_block L D H S db = (Ok True, db') \<Longrightarrow> 0 < n \<Longrightarrow> sync_blocks L D H S n db = (Ok True, db')"
  by (cases n) (simp_all add: sync_blocks_def act_bind_def sync_loop_True)

text \<open>
  C24: a call of \<open>sync_blocks\<close> writes at most one block, whatever its limit: its result is that of
  the first step that wrote one, and the remaining rounds are skipped. Only rounds that find
  nothing to do are repeated.
\<close>

theorem sync_blocks_at_most_one:
  "sync_blocks L D H S (Suc n) db =
     (case sync_one_block L D H S db of
        (Ok True, db') \<Rightarrow> (Ok True, db')
      | (Ok False, db') \<Rightarrow> sync_blocks L D H S n db'
      | (Err e, db') \<Rightarrow> (Err e, db')
      | (Panic, db') \<Rightarrow> (Panic, db'))"
  by (auto simp: sync_blocks_def act_bind_def sync_loop_True split: res.splits prod.splits bool.splits)

text \<open>A backend whose writes do not fail.\<close>

locale reliable_store = mapping_store +
  fixes reliable :: bool
  assumes write_total: "reliable \<Longrightarrow> rel db m \<Longrightarrow> fst (be_write_hashes S c db) = Ok ()"
    and tips_total: "reliable \<Longrightarrow> rel db m \<Longrightarrow> fst (be_write_tips S ts db) = Ok ()"
begin

lemma sync_one_progress:
  assumes lib: lib_ok and re: reliable and r: "rel db m" and H: "chain_ok H"
    and t: "m_tips m = [tip]" "\<not> m_synced m tip" and h: "ch_header H tip = Ok (Some h)"
    and c: "commitment_of L D H h = Some c"
  shows "\<exists>db'. sync_one_block L D H S db = (Ok True, db') \<and>
    rel db' ((m_write c m)\<lparr>m_tips := next_tips [] h\<rparr>)"
proof -
  obtain db1 where w: "be_write_hashes S c db = (Ok (), db1)"
    using write_total [OF re r, of c] by (cases "be_write_hashes S c db") auto
  note r1 = write_Ok [OF lib r w]
  obtain db2 where tw: "be_write_tips S (next_tips [] h) db1 = (Ok (), db2)"
    using tips_total [OF re r1, of "next_tips [] h"] by (cases "be_write_tips S (next_tips [] h) db1") auto
  have "sync_one_block L D H S db = sync_tip L D H S tip (rev []) db"
    using t by (simp add: sync_one_block_def act_bind_def act_simps read_tips [OF r] read_synced [OF r])
  also have "\<dots> = (Ok True, db2)"
    unfolding sync_tip_eq [OF H h] act_bind_def write_header_eq [OF H] c by (simp add: w tw act_simps)
  finally show ?thesis using tips_Ok [OF lib r1 tw] by blast
qed

end

definition commits_total :: "'db database \<Rightarrow> bool" where
  "commits_total B \<longleftrightarrow> (\<forall>tx db. fst (db_commit B tx db) = Ok ())"

interpretation reliable_db: reliable_store "backend_new C B" "codec_ok C \<and> database_ok B" "repr C B"
  "commits_total B" for C B
  by standard (simp_all add: backend_new_def write_hashes_commits write_current_syncing_tips_def commits_total_def)

lemma drain_open: "Note_Closed \<notin> set ns \<Longrightarrow> \<exists>f. drain ns fire = Some f"
proof (induction ns arbitrary: fire)
  case (Cons n ns)
  then show ?case by (cases n) auto
qed simp

text \<open>The headers from a block down to genesis.\<close>

fun is_path :: "'d chain_api \<Rightarrow> h256 \<Rightarrow> 'd sub_header list \<Rightarrow> bool" where
  "is_path H b [] = False"
| "is_path H b [h] = (ch_header H b = Ok (Some h) \<and> sh_number h = 0)"
| "is_path H b (h # h' # hs) =
     (ch_header H b = Ok (Some h) \<and> sh_number h \<noteq> 0 \<and> is_path H (sh_parent h) (h' # hs))"

text \<open>The worker polled once per input: the notifications and whether the delay has elapsed.\<close>

fun run_worker ::
  "eth_lib \<Rightarrow> 'd digest_api \<Rightarrow> 'd chain_api \<Rightarrow> 'db backend \<Rightarrow> (import_note list \<times> bool) list \<Rightarrow>
     sync_worker \<Rightarrow> 'db \<Rightarrow> sync_worker \<times> 'db" where
  "run_worker L D H S [] w db = (w, db)"
| "run_worker L D H S ((notes, d) # is) w db =
     (case poll_next L D H S notes d w db of (_, w', db') \<Rightarrow> run_worker L D H S is w' db')"

context reliable_store
begin

lemma poll_next_progress:
  assumes "lib_ok" "reliable" "rel db m" "chain_ok H" "m_tips m = [tip]" "\<not> m_synced m tip"
    and "ch_header H tip = Ok (Some h)" "commitment_of L D H h = Some c"
    and w: "w_have_next w" and n: "Note_Closed \<notin> set notes"
  shows "\<exists>w' db'. poll_next L D H S notes d w db = (Poll_Ready, w', db') \<and> w_have_next w' \<and>
    rel db' ((m_write c m)\<lparr>m_tips := next_tips [] h\<rparr>)"
proof -
  obtain db' where s: "sync_one_block L D H S db = (Ok True, db')"
    and r: "rel db' ((m_write c m)\<lparr>m_tips := next_tips [] h\<rparr>)"
    using sync_one_progress assms(1-8) by blast
  have "sync_blocks L D H S SYNC_LIMIT db = (Ok True, db')"
    by (rule sync_blocks_once [OF s]) (simp add: SYNC_LIMIT_def)
  moreover obtain f where "drain notes False = Some f" using drain_open [OF n] by blast
  ultimately show ?thesis using w r by (simp add: poll_next_def Let_def)
qed

lemma run_worker_path:
  assumes "lib_ok" "reliable" "chain_ok H" "rel db m" "m_tips m = [tip]" "is_path H tip hs"
    and "\<forall>h \<in> set hs. \<not> m_synced m (sh_hash h) \<and> commitment_of L D H h \<noteq> None"
    and "distinct (map sh_hash hs)" and "w_have_next w"
    and "length is = length hs" and "\<forall>(notes, d) \<in> set is. Note_Closed \<notin> set notes"
  shows "\<exists>w' db' m'. run_worker L D H S is w db = (w', db') \<and> w_have_next w' \<and> rel db' m' \<and>
    m_tips m' = [] \<and> (\<forall>x. m_synced m' x \<longleftrightarrow> m_synced m x \<or> x \<in> sh_hash ` set hs)"
  using assms
proof (induction hs arbitrary: tip db m w "is")
  case (Cons h hs)
  obtain ns d is' where i: "is = (ns, d) # is'" using Cons.prems(10) by (cases "is") auto
  have hd: "ch_header H tip = Ok (Some h)" using Cons.prems(6) by (cases hs) auto
  then have hash: "sh_hash h = tip" using Cons.prems(3) by (simp add: chain_ok_def)
  obtain c where c: "commitment_of L D H h = Some c" using Cons.prems(7) by auto
  let ?m = "(m_write c m)\<lparr>m_tips := next_tips [] h\<rparr>"
  have unsynced: "\<not> m_synced m tip" using Cons.prems(7) hash by auto
  have closed: "Note_Closed \<notin> set ns" using Cons.prems(11) i by auto
  obtain w1 db1 where p: "poll_next L D H S ns d w db = (Poll_Ready, w1, db1)"
    "w_have_next w1" "rel db1 ?m"
    using poll_next_progress [OF Cons.prems(1,2,4,3,5) unsynced hd c Cons.prems(9) closed] by blast
  have syn: "m_synced ?m x \<longleftrightarrow> m_synced m x \<or> x = sh_hash h" for x
    using commitment_of_hash [OF c] by (auto simp: m_write_def)
  show ?case
  proof (cases hs)
    case Nil
    then have "is' = []" "sh_number h = 0" using Cons.prems(6,10) i by auto
    then show ?thesis using p i Nil syn by (auto simp: next_tips_def)
  next
    case (Cons h' hs')
    have path: "is_path H (sh_parent h) hs" "m_tips ?m = [sh_parent h]"
      using Cons.prems(6) Cons by (auto simp: next_tips_def)
    have "sh_hash h \<notin> sh_hash ` set hs" using Cons.prems(8) by simp
    then have "\<forall>k \<in> set hs. sh_hash k \<noteq> sh_hash h" by (metis imageI)
    then have "\<exists>w' db' m'. run_worker L D H S is' w1 db1 = (w', db') \<and> w_have_next w' \<and> rel db' m' \<and>
      m_tips m' = [] \<and> (\<forall>x. m_synced m' x \<longleftrightarrow> m_synced ?m x \<or> x \<in> sh_hash ` set hs)"
      using Cons.prems i syn
      by (intro Cons.IH [OF Cons.prems(1-3) p(3) path(2,1) _ _ p(2)]) (auto simp del: is_path.simps)
    then show ?thesis using i p syn by auto
  qed
qed simp

end

text \<open>
  C22: the worker reaches genesis. Take a block whose headers are known down to genesis, all of them
  carrying their Ethereum log and none synced yet, as the stored tip, and writes that do not fail:
  as many polls of the worker as there are headers, with any notifications, sync exactly these
  blocks and leave no tip behind.
\<close>

theorem worker_reaches_genesis:
  assumes "codec_ok C" "database_ok B" "commits_total B" "chain_ok H" "repr C B db m"
    and "m_tips m = [tip]" "is_path H tip hs"
    and "\<forall>h \<in> set hs. \<not> m_synced m (sh_hash h) \<and> commitment_of L D H h \<noteq> None"
    and "distinct (map sh_hash hs)" and "w_have_next w"
    and "length is = length hs" and "\<forall>(notes, d) \<in> set is. Note_Closed \<notin> set notes"
  shows "\<exists>w' db'. run_worker L D H (backend_new C B) is w db = (w', db') \<and> w_have_next w' \<and>
    current_syncing_tips C B db' = Ok [] \<and>
    (\<forall>x. is_synced C B x db' = Ok (m_synced m x \<or> x \<in> sh_hash ` set hs))"
proof -
  obtain w' db' m' where "run_worker L D H (backend_new C B) is w db = (w', db')" "w_have_next w'"
    "repr C B db' m'" "m_tips m' = []" "\<forall>x. m_synced m' x \<longleftrightarrow> m_synced m x \<or> x \<in> sh_hash ` set hs"
    using reliable_db.run_worker_path [of C B H db m tip hs L D w "is"] assms by blast
  then show ?thesis using reprD [of C B db' m'] by auto
qed

section \<open>Witnesses\<close>

text \<open>A chain of two blocks, 2 on top of the genesis block 1, with logs as digest items.\<close>

definition log_digest :: "log digest_api" where
  "log_digest = \<lparr>
     try_pre = (\<lambda>l. case l of Log_Pre p \<Rightarrow> Some p | Log_Post _ \<Rightarrow> None),
     try_post = (\<lambda>l. case l of Log_Post p \<Rightarrow> Some p | Log_Pre _ \<Rightarrow> None),
     post_item = Log_Post\<rparr>"

definition sample_genesis :: "log sub_header" where
  "sample_genesis = \<lparr>sh_hash = 1, sh_number = 0, sh_parent = 0, sh_digest = []\<rparr>"

definition sample_child :: "log sub_header" where
  "sample_child = \<lparr>sh_hash = 2, sh_number = 1, sh_parent = 1,
     sh_digest = [Log_Post (PostLog_Hashes \<lparr>hs_block_hash = 20, hs_transaction_hashes = [30]\<rparr>)]\<rparr>"

definition sample_chain :: "block \<Rightarrow> log chain_api" where
  "sample_chain b = \<lparr>
     ch_leaves = Ok [2],
     ch_header = (\<lambda>x. Ok (if x = 1 then Some sample_genesis else if x = 2 then Some sample_child else None)),
     ch_current_block = (\<lambda>_. Ok (Some b))\<rparr>"

lemma sample_chain_ok: "chain_ok (sample_chain b)"
  by (auto simp: chain_ok_def sample_chain_def sample_genesis_def sample_child_def split: if_splits)

lemma sample_path: "is_path (sample_chain b) 2 [sample_child, sample_genesis]"
  by (simp add: sample_chain_def sample_genesis_def sample_child_def)

lemma sample_commitments:
  "\<exists>c. commitment_of L log_digest (sample_chain b) sample_child = Some c"
  "\<exists>c. commitment_of L log_digest (sample_chain b) sample_genesis = Some c"
  by (simp_all add: commitment_of_def sample_child_def sample_genesis_def sample_chain_def find_log_def log_digest_def)

definition tip_mapping :: mapping where
  "tip_mapping = empty_mapping\<lparr>m_tips := [2]\<rparr>"

lemma sample_tip_repr: "\<exists>db. repr sample_codec sample_db db tip_mapping"
proof -
  obtain db where "write_current_syncing_tips sample_codec sample_db [2] (\<lambda>_ _. None) = (Ok (), db)"
    by (simp add: write_current_syncing_tips_def sample_db_def)
  from write_tips_repr [OF sample_codec_ok sample_db_ok sample_repr this] show ?thesis
    by (auto simp: tip_mapping_def)
qed

lemma sample_commits_total: "commits_total sample_db"
  by (simp add: commits_total_def sample_db_def)

theorem worker_reaches_genesis_witness:
  "\<forall>L b. \<exists>db w' db'. run_worker L log_digest (sample_chain b) (backend_new sample_codec sample_db)
     [([], False), ([Note_Imported], True)] worker_new db = (w', db') \<and>
     is_synced sample_codec sample_db 1 db' = Ok True"
proof (intro allI)
  fix L b
  let ?is = "[([], False), ([Note_Imported], True)]"
  obtain db where r: "repr sample_codec sample_db db tip_mapping" using sample_tip_repr by blast
  have c: "\<forall>h \<in> set [sample_child, sample_genesis]. \<not> m_synced tip_mapping (sh_hash h) \<and>
      commitment_of L log_digest (sample_chain b) h \<noteq> None"
    using sample_commitments [of L b] by (auto simp: tip_mapping_def empty_mapping_def)
  have t: "m_tips tip_mapping = [2]" "distinct (map sh_hash [sample_child, sample_genesis])"
    "w_have_next worker_new" "length ?is = length [sample_child, sample_genesis]"
    "\<forall>(notes, d) \<in> set ?is. Note_Closed \<notin> set notes" "1 \<in> sh_hash ` set [sample_child, sample_genesis]"
    by (simp_all add: tip_mapping_def worker_new_def sample_child_def sample_genesis_def)
  show "\<exists>db w' db'. run_worker L log_digest (sample_chain b) (backend_new sample_codec sample_db)
     ?is worker_new db = (w', db') \<and> is_synced sample_codec sample_db 1 db' = Ok True"
    using worker_reaches_genesis [OF sample_codec_ok sample_db_ok sample_commits_total sample_chain_ok r
        t(1) sample_path c t(2-5)] t(6) by metis
qed

theorem sync_keeps_closed_witness:
  "\<forall>L b. \<exists>db db'. sync_one_block L log_digest (sample_chain b) (backend_new sample_codec sample_db) db =
     (Ok True, db') \<and> (\<exists>m'. repr sample_codec sample_db db' m' \<and> tips_closed (sample_chain b) m')"
proof (intro allI)
  fix L b
  obtain db where r: "repr sample_codec sample_db db tip_mapping" using sample_tip_repr by blast
  obtain c where c: "commitment_of L log_digest (sample_chain b) sample_child = Some c"
    using sample_commitments by blast
  have t: "m_tips tip_mapping = [2]" "\<not> m_synced tip_mapping 2" "tips_closed (sample_chain b) tip_mapping"
    "ch_header (sample_chain b) 2 = Ok (Some sample_child)"
    by (simp_all add: tip_mapping_def empty_mapping_def tips_closed_def sample_chain_def)
  obtain db' where "sync_one_block L log_digest (sample_chain b) (backend_new sample_codec sample_db) db = (Ok True, db')"
    using reliable_db.sync_one_progress [OF _ sample_commits_total r sample_chain_ok t(1,2,4) c]
      sample_codec_ok sample_db_ok by blast
  with sync_keeps_closed [OF sample_codec_ok sample_db_ok r sample_chain_ok t(3) this]
  show "\<exists>db db'. sync_one_block L log_digest (sample_chain b) (backend_new sample_codec sample_db) db =
     (Ok True, db') \<and> (\<exists>m'. repr sample_codec sample_db db' m' \<and> tips_closed (sample_chain b) m')" by blast
qed

text \<open>A store that refuses every write of the tips.\<close>

definition tips_fail_db :: "(u32 \<Rightarrow> bytes \<Rightarrow> bytes option) database" where
  "tips_fail_db = sample_db\<lparr>db_commit := (\<lambda>tx db.
     if \<exists>(c, k, v) \<in> set tx. c = META then (Err ''disk'', db) else db_commit sample_db tx db)\<rparr>"

lemma tips_fail_db_ok: "database_ok tips_fail_db"
  using sample_db_ok by (auto simp: database_ok_def tips_fail_db_def sample_db_def split: if_splits option.splits)

lemma tips_fail_db_other:
  "(\<forall>(c, k, v) \<in> set tx. c \<noteq> META) \<Longrightarrow> db_commit tips_fail_db tx db = db_commit sample_db tx db"
  by (auto simp: tips_fail_db_def)

theorem interrupted_step_leaves_gap_witness:
  "\<forall>L b. \<exists>db db1. sync_one_block L log_digest (sample_chain b) (backend_new sample_codec tips_fail_db) db =
     (Err ''disk'', db1) \<and> is_synced sample_codec tips_fail_db 2 db1 = Ok True \<and>
     is_synced sample_codec tips_fail_db 1
       (snd (sync_blocks L log_digest (sample_chain b) (backend_new sample_codec tips_fail_db) 8 db1)) = Ok False"
proof (intro allI)
  fix L b
  obtain db where "repr sample_codec sample_db db tip_mapping" using sample_tip_repr by blast
  then have r: "repr sample_codec tips_fail_db db tip_mapping"
    by (simp add: repr_def is_synced_def block_hashes_def transaction_metadata_of_def current_syncing_tips_def
        tips_fail_db_def)
  obtain c where c: "commitment_of L log_digest (sample_chain b) sample_child = Some c"
    using sample_commitments by blast
  have "fst (write_hashes sample_codec tips_fail_db c db) = Ok ()"
    unfolding write_hashes_commits [OF r] by (subst tips_fail_db_other) (auto simp: sample_db_def)
  then obtain db1 where w: "write_hashes sample_codec tips_fail_db c db = (Ok (), db1)"
    by (cases "write_hashes sample_codec tips_fail_db c db") auto
  have t: "write_current_syncing_tips sample_codec tips_fail_db [sh_parent sample_child] db1 = (Err ''disk'', db1)"
    by (simp add: write_current_syncing_tips_def tips_fail_db_def)
  have "sync_one_block L log_digest (sample_chain b) (backend_new sample_codec tips_fail_db) db =
      (Err ''disk'', db1) \<and> is_synced sample_codec tips_fail_db 2 db1 = Ok True \<and>
      current_syncing_tips sample_codec tips_fail_db db1 = Ok [2] \<and>
      (\<forall>n. is_synced sample_codec tips_fail_db (sh_parent sample_child)
        (snd (sync_blocks L log_digest (sample_chain b) (backend_new sample_codec tips_fail_db) n db1)) = Ok False)"
    by (rule interrupted_step_leaves_gap [OF sample_codec_ok tips_fail_db_ok r sample_chain_ok _ _ _ _ c _ _ w t,
          where ls = "[2]"])
      (simp_all add: tip_mapping_def empty_mapping_def sample_chain_def sample_child_def)
  then show "\<exists>db db1. sync_one_block L log_digest (sample_chain b) (backend_new sample_codec tips_fail_db) db =
     (Err ''disk'', db1) \<and> is_synced sample_codec tips_fail_db 2 db1 = Ok True \<and>
     is_synced sample_codec tips_fail_db 1
       (snd (sync_blocks L log_digest (sample_chain b) (backend_new sample_codec tips_fail_db) 8 db1)) = Ok False"
    by (auto simp: sample_child_def)
qed

end
