(* ===== verification/Rpc_Types.thy ===== *)
theory Rpc_Types
  imports Eth_Types
begin

text \<open>
  The values the RPC reads and prints, \<open>client/rpc-core/src/types\<close>: block numbers, byte
  strings and indices with their deserialisers, the integer parser of the standard library they
  call, and the structs of the answers. An error of a deserialiser is the message given to
  \<open>Error::custom\<close>. The map a deserialiser walks and the typed values it asks for belong to
  \<open>serde\<close>, hexadecimal coding to \<open>rustc_hex\<close>, and the shortened display of a hash to
  \<open>ethereum_types\<close>: they are parameters.
\<close>

section \<open>Parsing and printing of integers\<close>

datatype int_error = Int_Empty | Int_InvalidDigit | Int_PosOverflow

fun int_error_text :: "int_error \<Rightarrow> string" where
  "int_error_text Int_Empty = ''cannot parse integer from empty string''"
| "int_error_text Int_InvalidDigit = ''invalid digit found in string''"
| "int_error_text Int_PosOverflow = ''number too large to fit in target type''"

definition to_digit :: "nat \<Rightarrow> char \<Rightarrow> nat option" where
  "to_digit radix c =
     (let n = (of_char c :: nat);
          d = (if 48 \<le> n \<and> n \<le> 57 then n - 48
               else if 97 \<le> n \<and> n \<le> 122 then n - 87
               else if 65 \<le> n \<and> n \<le> 90 then n - 55
               else radix)
      in if d < radix then Some d else None)"

fun digits_loop :: "nat \<Rightarrow> string \<Rightarrow> u64 \<Rightarrow> (int_error, u64) res" where
  "digits_loop radix [] acc = Ok acc"
| "digits_loop radix (c # cs) acc =
     res_bind (ok_or (to_digit radix c) Int_InvalidDigit) (\<lambda>d.
     res_bind (ok_or (checked_mul acc (of_nat radix)) Int_PosOverflow) (\<lambda>m.
     res_bind (ok_or (checked_add m (of_nat d)) Int_PosOverflow) (\<lambda>a.
     digits_loop radix cs a)))"

text \<open>\<open>u64::from_str_radix\<close>; \<open>usize\<close> has the same 64 bits.\<close>

definition from_str_radix :: "nat \<Rightarrow> string \<Rightarrow> (int_error, u64) res" where
  "from_str_radix radix s =
     (if s = [] then Err Int_Empty
      else if s = ''+'' \<or> s = ''-'' then Err Int_InvalidDigit
      else if hd s = CHR ''+'' then digits_loop radix (tl s) 0
      else digits_loop radix s 0)"

text \<open>The formatting directive \<open>{:x}\<close>.\<close>

definition hex_digit :: "nat \<Rightarrow> char" where
  "hex_digit d = char_of (if d < 10 then 48 + d else 87 + d)"

fun lower_hex :: "nat \<Rightarrow> string" where
  "lower_hex n = (if n < 16 then [hex_digit n] else lower_hex (n div 16) @ [hex_digit (n mod 16)])"

declare lower_hex.simps [simp del]

definition starts_with :: "'a list \<Rightarrow> 'a list \<Rightarrow> bool" where
  "starts_with xs ys \<longleftrightarrow> take (length ys) xs = ys"

section \<open>Block numbers\<close>

datatype block_number = BN_Hash h256 bool | BN_Num u64 | BN_Latest | BN_Earliest | BN_Pending

definition default_block_number :: block_number where
  "default_block_number = BN_Latest"

fun to_min_block_num :: "block_number \<Rightarrow> u64 option" where
  "to_min_block_num (BN_Num x) = Some x"
| "to_min_block_num _ = None"

definition quote :: string where "quote = [CHR 0x27]"

fun block_number_serialize :: "(h256 \<Rightarrow> string) \<Rightarrow> block_number \<Rightarrow> string" where
  "block_number_serialize show_hash (BN_Hash hash require_canonical) =
     ''{ '' @ quote @ ''hash'' @ quote @ '': '' @ quote @ show_hash hash @ quote @ '', '' @
     quote @ ''requireCanonical'' @ quote @ '': '' @ quote @
     (if require_canonical then ''true'' else ''false'') @ quote @ ''  }''"
| "block_number_serialize show_hash (BN_Num x) = ''0x'' @ lower_hex (unat x)"
| "block_number_serialize show_hash BN_Latest = ''latest''"
| "block_number_serialize show_hash BN_Earliest = ''earliest''"
| "block_number_serialize show_hash BN_Pending = ''pending''"

definition block_number_visit_str :: "string \<Rightarrow> (string, block_number) res" where
  "block_number_visit_str value =
     (if value = ''latest'' then Ok BN_Latest
      else if value = ''earliest'' then Ok BN_Earliest
      else if value = ''pending'' then Ok BN_Pending
      else if starts_with value ''0x'' then
        map_err (\<lambda>e. ''Invalid block number: '' @ int_error_text e)
          (map_ok BN_Num (from_str_radix 16 (drop 2 value)))
      else
        map_err (\<lambda>_. ''Invalid block number: non-decimal or missing 0x prefix'')
          (map_ok BN_Num (from_str_radix 10 value)))"

definition block_number_visit_u64 :: "u64 \<Rightarrow> (string, block_number) res" where
  "block_number_visit_u64 value = Ok (BN_Num value)"

text \<open>
  A map under deserialisation: \<open>next_key\<close> gives the keys one after the other and may fail,
  and the value of a key is asked for at a type.
\<close>

record 'v value_api =
  va_string :: "'v \<Rightarrow> (string, string) res"
  va_h256 :: "'v \<Rightarrow> (string, h256) res"
  va_bool :: "'v \<Rightarrow> (string, bool) res"

type_synonym 'v map_access = "(string, string \<times> 'v) res list"

record bn_fields =
  bn_require_canonical :: bool
  bn_block_number :: "u64 option"
  bn_block_hash :: "h256 option"

fun visit_map_loop :: "'v value_api \<Rightarrow> 'v map_access \<Rightarrow> bn_fields \<Rightarrow> (string, bn_fields) res" where
  "visit_map_loop V [] f = Ok f"
| "visit_map_loop V (next_key # rest) f =
     res_bind next_key (\<lambda>(key, v).
       if key = ''blockNumber'' then
         res_bind (va_string V v) (\<lambda>value.
           if starts_with value ''0x'' then
             res_bind (map_err (\<lambda>e. ''Invalid block number: '' @ int_error_text e)
                 (from_str_radix 16 (drop 2 value))) (\<lambda>number.
             Ok (f\<lparr>bn_block_number := Some number\<rparr>))
           else Err ''Invalid block number: missing 0x prefix'')
       else if key = ''blockHash'' then
         res_bind (va_h256 V v) (\<lambda>h. visit_map_loop V rest (f\<lparr>bn_block_hash := Some h\<rparr>))
       else if key = ''requireCanonical'' then
         res_bind (va_bool V v) (\<lambda>b. visit_map_loop V rest (f\<lparr>bn_require_canonical := b\<rparr>))
       else Err (''Unknown key: '' @ key))"

definition block_number_visit_map :: "'v value_api \<Rightarrow> 'v map_access \<Rightarrow> (string, block_number) res" where
  "block_number_visit_map V visitor =
     res_bind (visit_map_loop V visitor
         \<lparr>bn_require_canonical = False, bn_block_number = None, bn_block_hash = None\<rparr>) (\<lambda>f.
       case bn_block_number f of
         Some number \<Rightarrow> Ok (BN_Num number)
       | None \<Rightarrow>
           (case bn_block_hash f of
              Some hash \<Rightarrow> Ok (BN_Hash hash (bn_require_canonical f))
            | None \<Rightarrow> Err ''Invalid input''))"

section \<open>Byte strings and indices\<close>

record hex_lib =
  hex_to :: "bytes \<Rightarrow> string"
  hex_from :: "string \<Rightarrow> (string, bytes) res"

definition bytes_serialize :: "hex_lib \<Rightarrow> bytes \<Rightarrow> string" where
  "bytes_serialize X b = ''0x'' @ hex_to X b"

definition bytes_visit_str :: "hex_lib \<Rightarrow> string \<Rightarrow> (string, bytes) res" where
  "bytes_visit_str X value =
     (if 2 \<le> length value \<and> starts_with value ''0x'' \<and> even (length value) then
        map_err (\<lambda>e. ''Invalid hex: '' @ e) (hex_from X (drop 2 value))
      else Err ''Invalid bytes format. Expected a 0x-prefixed hex string with even length'')"

definition index_visit_str :: "string \<Rightarrow> (string, u64) res" where
  "index_visit_str value =
     map_err (\<lambda>e. ''Invalid index: '' @ int_error_text e)
       (if starts_with value ''0x'' then from_str_radix 16 (drop 2 value)
        else from_str_radix 10 value)"

definition index_visit_u64 :: "u64 \<Rightarrow> (string, u64) res" where
  "index_visit_u64 value = Ok value"

section \<open>Answers and requests\<close>

record call_request =
  cr_from :: "h160 option"
  cr_to :: "h160 option"
  cr_gas_price :: "u256 option"
  cr_gas :: "u256 option"
  cr_value :: "u256 option"
  cr_data :: "bytes option"
  cr_nonce :: "u256 option"

record transaction_request =
  tr_from :: "h160 option"
  tr_to :: "h160 option"
  tr_gas_price :: "u256 option"
  tr_gas :: "u256 option"
  tr_value :: "u256 option"
  tr_data :: "bytes option"
  tr_nonce :: "u256 option"

record rpc_log =
  rl_address :: h160
  rl_topics :: "h256 list"
  rl_data :: bytes
  rl_block_hash :: "h256 option"
  rl_block_number :: "u256 option"
  rl_transaction_hash :: "h256 option"
  rl_transaction_index :: "u256 option"
  rl_log_index :: "u256 option"
  rl_transaction_log_index :: "u256 option"
  rl_removed :: bool

record rpc_transaction =
  rt_hash :: h256
  rt_nonce :: u256
  rt_block_hash :: "h256 option"
  rt_block_number :: "u256 option"
  rt_transaction_index :: "u256 option"
  rt_from :: h160
  rt_to :: "h160 option"
  rt_value :: u256
  rt_gas_price :: u256
  rt_gas :: u256
  rt_input :: bytes
  rt_creates :: "h160 option"
  rt_raw :: bytes
  rt_public_key :: "bytes option"
  rt_chain_id :: "u64 option"
  rt_standard_v :: u256
  rt_v :: u256
  rt_r :: u256
  rt_s :: u256

record rpc_receipt =
  rr_transaction_hash :: "h256 option"
  rr_transaction_index :: "u256 option"
  rr_block_hash :: "h256 option"
  rr_from :: "h160 option"
  rr_to :: "h160 option"
  rr_block_number :: "u256 option"
  rr_cumulative_gas_used :: u256
  rr_gas_used :: "u256 option"
  rr_contract_address :: "h160 option"
  rr_logs :: "rpc_log list"
  rr_state_root :: "h256 option"
  rr_logs_bloom :: bloom
  rr_status_code :: "u64 option"

datatype block_transactions = BT_Hashes "h256 list" | BT_Full "rpc_transaction list"

record rpc_block =
  rb_hash :: "h256 option"
  rb_parent_hash :: h256
  rb_uncles_hash :: h256
  rb_author :: h160
  rb_miner :: h160
  rb_state_root :: h256
  rb_transactions_root :: h256
  rb_receipts_root :: h256
  rb_number :: "u256 option"
  rb_gas_used :: u256
  rb_gas_limit :: u256
  rb_extra_data :: bytes
  rb_logs_bloom :: "bloom option"
  rb_timestamp :: u256
  rb_difficulty :: u256
  rb_total_difficulty :: u256
  rb_seal_fields :: "bytes list"
  rb_uncles :: "h256 list"
  rb_transactions :: block_transactions
  rb_size :: "u256 option"

record sync_info =
  si_starting_block :: u256
  si_current_block :: u256
  si_highest_block :: u256
  si_warp_chunks_amount :: "u256 option"
  si_warp_chunks_processed :: "u256 option"

datatype sync_status = Sync_Info sync_info | Sync_None

record pending_transaction =
  pt_transaction :: rpc_transaction
  pt_at_block :: u64

definition pending_transaction_new :: "rpc_transaction \<Rightarrow> u64 \<Rightarrow> pending_transaction" where
  "pending_transaction_new t n = \<lparr>pt_transaction = t, pt_at_block = n\<rparr>"

text \<open>
  The status of a transaction of the local queue, and its serialisation as a struct: the announced number
  of fields and the fields in order, each a name and one of the values it carries.
\<close>

datatype local_transaction_status =
  Local_Pending
| Local_Future
| Local_Mined rpc_transaction
| Local_Culled rpc_transaction
| Local_Dropped rpc_transaction
| Local_Replaced rpc_transaction u256 h256
| Local_Rejected rpc_transaction string
| Local_Invalid rpc_transaction
| Local_Canceled rpc_transaction

datatype field_value =
  Field_Text string
| Field_Transaction rpc_transaction
| Field_U256 u256
| Field_H256 h256

fun local_status_elems :: "local_transaction_status \<Rightarrow> nat" where
  "local_status_elems Local_Pending = 1"
| "local_status_elems Local_Future = 1"
| "local_status_elems (Local_Rejected _ _) = 3"
| "local_status_elems (Local_Replaced _ _ _) = 4"
| "local_status_elems _ = 2"

fun local_status_fields :: "local_transaction_status \<Rightarrow> (string \<times> field_value) list" where
  "local_status_fields Local_Pending = [(''status'', Field_Text ''pending'')]"
| "local_status_fields Local_Future = [(''status'', Field_Text ''future'')]"
| "local_status_fields (Local_Mined tx) =
     [(''status'', Field_Text ''mined''), (''transaction'', Field_Transaction tx)]"
| "local_status_fields (Local_Culled tx) =
     [(''status'', Field_Text ''culled''), (''transaction'', Field_Transaction tx)]"
| "local_status_fields (Local_Dropped tx) =
     [(''status'', Field_Text ''dropped''), (''transaction'', Field_Transaction tx)]"
| "local_status_fields (Local_Canceled tx) =
     [(''status'', Field_Text ''canceled''), (''transaction'', Field_Transaction tx)]"
| "local_status_fields (Local_Invalid tx) =
     [(''status'', Field_Text ''invalid''), (''transaction'', Field_Transaction tx)]"
| "local_status_fields (Local_Rejected tx reason) =
     [(''status'', Field_Text ''rejected''), (''transaction'', Field_Transaction tx),
      (''error'', Field_Text reason)]"
| "local_status_fields (Local_Replaced tx gas_price hash) =
     [(''status'', Field_Text ''replaced''), (''transaction'', Field_Transaction tx),
      (''hash'', Field_H256 hash), (''gasPrice'', Field_U256 gas_price)]"

definition local_status_serialize ::
  "local_transaction_status \<Rightarrow> string \<times> nat \<times> (string \<times> field_value) list" where
  "local_status_serialize st = (''LocalTransactionStatus'', local_status_elems st, local_status_fields st)"

text \<open>
  The struct announces as many fields as it writes, no field twice, and no two statuses are
  written alike.
\<close>

lemma local_status_serialize_ok:
  "local_status_serialize st = (name, n, fs) \<Longrightarrow> length fs = n \<and> distinct (map fst fs)"
  by (cases st) (auto simp: local_status_serialize_def)

lemma local_status_serialize_inj: "inj local_status_serialize"
proof (rule injI)
  fix x y assume "local_status_serialize x = local_status_serialize y"
  then show "x = y" by (cases x; cases y) (simp_all add: local_status_serialize_def)
qed

section \<open>Printing and parsing agree\<close>

lemma to_digit_hex: "d < 16 \<Longrightarrow> to_digit 16 (hex_digit d) = Some d"
  by (auto simp: to_digit_def hex_digit_def Let_def)

lemma hex_digit_plus:
  assumes "d < 16"
  shows "hex_digit d \<noteq> CHR ''+''" and "hex_digit d \<noteq> CHR ''-''"
  using assms to_digit_hex [OF assms] by (auto simp: to_digit_def)

lemma digits_loop_append:
  "digits_loop r (xs @ ys) acc = res_bind (digits_loop r xs acc) (digits_loop r ys)"
proof (induction xs arbitrary: acc)
  case (Cons c cs)
  show ?case
  proof (cases "to_digit r c")
    case (Some d)
    show ?thesis
    proof (cases "checked_mul acc (of_nat r)")
      case (Some m)
      then show ?thesis using \<open>to_digit r c = Some d\<close> Cons
        by (cases "checked_add m (of_nat d)") auto
    qed (simp add: Some)
  qed simp
qed simp

lemma unat_of_nat_u64: "n < 2 ^ 64 \<Longrightarrow> unat (of_nat n :: u64) = n"
  by (simp add: unat_of_nat)

lemma digits_loop_hex:
  assumes "n < 2 ^ 64"
  shows "digits_loop 16 (lower_hex n) 0 = Ok (of_nat n)"
  using assms
proof (induction n rule: lower_hex.induct)
  case (1 n)
  show ?case
  proof (cases "n < 16")
    case True
    then have "checked_add (0 :: u64) (of_nat n) = Some (of_nat n)"
      by (simp add: checked_add_Some)
    then show ?thesis using True
      by (subst lower_hex.simps) (simp add: to_digit_hex word_ops(2))
  next
    case False
    define q where "q = n div 16"
    define r where "r = n mod 16"
    define x where "x = q * 16"
    have n: "q < 2 ^ 64" "x < 2 ^ 64" "r < 16" "x + r = n"
      using 1(2) by (auto simp: q_def r_def x_def)
    have m: "checked_mul (of_nat q :: u64) 16 = Some (of_nat x)"
      by (simp only: checked_mul_Some unat_of_nat_u64 [OF n(1)] unat_of_nat_u64 [OF n(2)])
        (simp add: x_def)
    have r: "unat (of_nat r :: u64) = r" using n(3) by (intro unat_of_nat_u64) simp
    have a: "checked_add (of_nat x :: u64) (of_nat r) = Some (of_nat n)"
      by (simp only: checked_add_Some unat_of_nat_u64 [OF n(2)] unat_of_nat_u64 [OF 1(2)] r n(4))
    have ih: "digits_loop 16 (lower_hex q) 0 = Ok (of_nat q)"
      using 1(1) [OF False] n(1) by (simp add: q_def)
    have "digits_loop 16 (lower_hex q @ [hex_digit r]) 0 = Ok (of_nat n)"
      using n(3) m a by (simp add: digits_loop_append to_digit_hex ih)
    then show ?thesis using False
      by (subst lower_hex.simps) (simp add: q_def r_def)
  qed
qed

lemma lower_hex_Cons: "\<exists>d cs. d < 16 \<and> lower_hex n = hex_digit d # cs"
proof (induction n rule: lower_hex.induct)
  case (1 n)
  then show ?case by (subst (1) lower_hex.simps) (cases "n < 16"; auto)
qed

lemma from_str_radix_hex: "from_str_radix 16 (lower_hex (unat x)) = Ok x"
proof -
  obtain d cs where d: "d < 16" "lower_hex (unat x) = hex_digit d # cs"
    using lower_hex_Cons by blast
  have "digits_loop 16 (lower_hex (unat x)) 0 = Ok x"
    using digits_loop_hex [of "unat x"] unat_bound [of x] by simp
  then show ?thesis using d hex_digit_plus [OF d(1)] by (simp add: from_str_radix_def)
qed

lemma starts_with_prefix [simp]: "starts_with (xs @ ys) xs"
  by (simp add: starts_with_def)

lemma starts_with_0x [simp]: "starts_with (CHR ''0'' # CHR ''x'' # s) ''0x''"
  by (simp add: starts_with_def)

text \<open>
  C40: a block number read back from its printed form is itself, except that the printed form of a
  block hash, which is text and not a map, is always refused.
\<close>

theorem block_number_roundtrip:
  "block_number_visit_str (block_number_serialize show_hash b) =
     (case b of
        BN_Hash _ _ \<Rightarrow> Err ''Invalid block number: non-decimal or missing 0x prefix''
      | _ \<Rightarrow> Ok b)"
proof (cases b)
  case (BN_Hash h c)
  have "to_digit 10 CHR ''{'' = None" by (simp add: to_digit_def)
  then show ?thesis using BN_Hash
    by (simp add: block_number_visit_str_def starts_with_def from_str_radix_def)
next
  case (BN_Num x)
  then show ?thesis
    by (simp add: block_number_visit_str_def from_str_radix_hex)
qed (simp_all add: block_number_visit_str_def)

lemma index_hex_roundtrip: "index_visit_str (''0x'' @ lower_hex (unat x)) = Ok x"
  by (simp add: index_visit_str_def from_str_radix_hex)

text \<open>What \<open>rustc_hex\<close> documents: two digits a byte, and decoding inverts encoding.\<close>

definition hex_ok :: "hex_lib \<Rightarrow> bool" where
  "hex_ok X \<longleftrightarrow> (\<forall>b. length (hex_to X b) = 2 * length b \<and> hex_from X (hex_to X b) = Ok b)"

lemma bytes_roundtrip: "hex_ok X \<Longrightarrow> bytes_visit_str X (bytes_serialize X b) = Ok b"
  by (simp add: bytes_visit_str_def bytes_serialize_def hex_ok_def)

end
