(* ===== verification/Rpc_Filter.thy ===== *)
theory Rpc_Filter
  imports Rpc_Types
begin

text \<open>
  Log filters, \<open>client/rpc-core/src/types/filter.rs\<close>: variadic values and how they are read,
  the flattening of nested topics into alternatives, and the four tests of a log or block against
  a filter. \<open>topics_match\<close> says position by position what a filter asks for, and the topic test
  is shown to decide it for filters whose positions are a wildcard or a list of plain topics.
\<close>

section \<open>Variadic values\<close>

datatype 'a variadic = Single 'a | Multiple "'a list" | Null

text \<open>
  \<open>from_value\<close> of \<open>serde_json\<close> at the element type and at lists of it are the two
  parameters; the error shown is the one of the second attempt.
\<close>

definition variadic_deserialize ::
  "('v \<Rightarrow> bool) \<Rightarrow> ('v \<Rightarrow> (string, 'a) res) \<Rightarrow> ('v \<Rightarrow> (string, 'a list) res) \<Rightarrow> 'v \<Rightarrow>
     (string, 'a variadic) res" where
  "variadic_deserialize is_null from_single from_multiple v =
     (if is_null v then Ok Null
      else map_err (\<lambda>err. ''Invalid variadic value type: '' @ err)
        (case map_ok Single (from_single v) of
           Err _ \<Rightarrow> map_ok Multiple (from_multiple v)
         | r \<Rightarrow> r))"

type_synonym address_filter = "h160 variadic"
type_synonym flat_topic = "h256 option variadic"
type_synonym topic = "flat_topic option variadic"

section \<open>Filters\<close>

record log_filter =
  fl_from_block :: "block_number option"
  fl_to_block :: "block_number option"
  fl_block_hash :: "h256 option"
  fl_address :: "address_filter option"
  fl_topics :: "topic option"

record filtered_params =
  fp_filter :: "log_filter option"
  fp_flat_topics :: "flat_topic list"

definition filtered_params_default :: filtered_params where
  "filtered_params_default = \<lparr>fp_filter = None, fp_flat_topics = []\<rparr>"

text \<open>The Cartesian product of the alternatives of each position.\<close>

fun cartesian_step :: "'a list list \<Rightarrow> 'a list \<Rightarrow> 'a list list" where
  "cartesian_step [] l = []"
| "cartesian_step (r # res) l = map (\<lambda>el. r @ [el]) l @ cartesian_step res l"

definition cartesian :: "'a list list \<Rightarrow> 'a list list" where
  "cartesian ls =
     (case ls of
        [] \<Rightarrow> []
      | first_list # rest \<Rightarrow> foldl cartesian_step (map (\<lambda>i. [i]) first_list) rest)"

fun alternatives :: "flat_topic option \<Rightarrow> h256 option list" where
  "alternatives (Some (Single s)) = [s]"
| "alternatives (Some (Multiple s)) = s"
| "alternatives (Some Null) = [None]"
| "alternatives None = [None]"

fun flatten :: "topic \<Rightarrow> flat_topic list" where
  "flatten (Multiple multi) = map Multiple (cartesian (map alternatives multi))"
| "flatten (Single (Some single)) = [single]"
| "flatten (Single None) = []"
| "flatten Null = [Null]"

definition filtered_params_new :: "log_filter option \<Rightarrow> filtered_params" where
  "filtered_params_new f =
     (case f of
        Some f \<Rightarrow> \<lparr>fp_filter = Some f,
          fp_flat_topics = (case fl_topics f of Some t \<Rightarrow> flatten t | None \<Rightarrow> [])\<rparr>
      | None \<Rightarrow> filtered_params_default)"

text \<open>Wildcards take the topic of the log at their position, an index that panics past its end.\<close>

fun replace_loop :: "h256 list \<Rightarrow> nat \<Rightarrow> h256 option list \<Rightarrow> h256 list \<Rightarrow> ('e, h256 list) res" where
  "replace_loop topics k [] out = Ok out"
| "replace_loop topics k (Some v # vs) out = replace_loop topics (Suc k) vs (out @ [v])"
| "replace_loop topics k (None # vs) out =
     res_bind (index_at topics k) (\<lambda>t. replace_loop topics (Suc k) vs (out @ [t]))"

definition replace :: "rpc_log \<Rightarrow> flat_topic \<Rightarrow> ('e, h256 list option) res" where
  "replace log topic =
     map_ok (\<lambda>out. if out = [] then None else Some out)
       (case topic of
          Single (Some value) \<Rightarrow> Ok [value]
        | Single None \<Rightarrow> Ok []
        | Multiple value \<Rightarrow> replace_loop (rl_topics log) 0 value []
        | Null \<Rightarrow> Ok [])"

definition range_from :: "block_number option \<Rightarrow> u64 \<Rightarrow> bool" where
  "range_from from block_number =
     (case from of
        Some (BN_Num n) \<Rightarrow>
          \<not> (case to_min_block_num (BN_Num n) of Some x \<Rightarrow> x | None \<Rightarrow> 0) > block_number
      | _ \<Rightarrow> True)"

definition range_to :: "block_number option \<Rightarrow> u64 \<Rightarrow> bool" where
  "range_to to block_number =
     (case to of
        Some (BN_Num n) \<Rightarrow>
          \<not> (case to_min_block_num (BN_Num n) of Some x \<Rightarrow> x | None \<Rightarrow> 0) < block_number
      | Some BN_Earliest \<Rightarrow> False
      | _ \<Rightarrow> True)"

definition filter_block_range :: "filtered_params \<Rightarrow> u64 \<Rightarrow> ('e, bool) res" where
  "filter_block_range p block_number =
     res_bind (unwrap (fp_filter p)) (\<lambda>f.
     Ok (range_from (fl_from_block f) block_number \<and> range_to (fl_to_block f) block_number))"

definition filter_block_hash :: "filtered_params \<Rightarrow> h256 \<Rightarrow> ('e, bool) res" where
  "filter_block_hash p block_hash =
     res_bind (unwrap (fp_filter p)) (\<lambda>f.
     Ok (case fl_block_hash f of Some h \<Rightarrow> \<not> h \<noteq> block_hash | None \<Rightarrow> True))"

definition filter_address :: "filtered_params \<Rightarrow> rpc_log \<Rightarrow> ('e, bool) res" where
  "filter_address p log =
     res_bind (unwrap (fp_filter p)) (\<lambda>f.
     Ok (case fl_address f of
           Some (Single x) \<Rightarrow> \<not> rl_address log \<noteq> x
         | Some (Multiple x) \<Rightarrow> rl_address log \<in> set x
         | Some Null \<Rightarrow> True
         | None \<Rightarrow> True))"

text \<open>Trailing wildcards are popped.\<close>

function shrink :: "'a option list \<Rightarrow> 'a option list" where
  "shrink xs = (if xs \<noteq> [] \<and> last xs = None then shrink (butlast xs) else xs)"
  by auto
termination by (relation "measure length") auto

declare shrink.simps [simp del]

fun filter_topics_loop :: "rpc_log \<Rightarrow> flat_topic list \<Rightarrow> bool \<Rightarrow> ('e, bool) res" where
  "filter_topics_loop log [] out = Ok out"
| "filter_topics_loop log (Single single # rest) out =
     (case single of
        Some s \<Rightarrow>
          filter_topics_loop log rest (if \<not> starts_with (rl_topics log) [s] then False else out)
      | None \<Rightarrow> filter_topics_loop log rest out)"
| "filter_topics_loop log (Multiple multi # rest) out =
     (let new_multi = shrink multi in
      if length new_multi > length (rl_topics log) then Ok False
      else res_bind (replace log (Multiple new_multi)) (\<lambda>replaced.
        case replaced of
          Some r \<Rightarrow>
            if starts_with (rl_topics log) r then Ok True
            else filter_topics_loop log rest False
        | None \<Rightarrow> filter_topics_loop log rest out))"
| "filter_topics_loop log (Null # rest) out = filter_topics_loop log rest True"

definition filter_topics :: "filtered_params \<Rightarrow> rpc_log \<Rightarrow> ('e, bool) res" where
  "filter_topics p log = filter_topics_loop log (fp_flat_topics p) True"

section \<open>Results of the filter API\<close>

datatype filter_changes = Changes_Logs "rpc_log list" | Changes_Hashes "h256 list" | Changes_Empty

datatype filter_type = Type_Block | Type_PendingTransaction | Type_Log log_filter

record filter_pool_item =
  pi_last_poll :: block_number
  pi_filter_type :: filter_type
  pi_at_block :: u64

section \<open>What a topic filter asks for\<close>

text \<open>A log matches one combination when its topics agree wherever the combination is no wildcard.\<close>

fun flat_match :: "h256 option list \<Rightarrow> h256 list \<Rightarrow> bool" where
  "flat_match [] ts \<longleftrightarrow> True"
| "flat_match (None # ps) ts \<longleftrightarrow> flat_match ps (tl ts)"
| "flat_match (Some v # ps) [] \<longleftrightarrow> False"
| "flat_match (Some v # ps) (t # ts) \<longleftrightarrow> v = t \<and> flat_match ps ts"

text \<open>A log matches the positions when at each one an alternative is a wildcard or its topic.\<close>

fun topics_match :: "h256 option list list \<Rightarrow> h256 list \<Rightarrow> bool" where
  "topics_match [] ts \<longleftrightarrow> True"
| "topics_match (as # ps) [] \<longleftrightarrow> None \<in> set as \<and> topics_match ps []"
| "topics_match (as # ps) (t # ts) \<longleftrightarrow> (None \<in> set as \<or> Some t \<in> set as) \<and> topics_match ps ts"

definition plain_position :: "h256 option list \<Rightarrow> bool" where
  "plain_position as \<longleftrightarrow> as = [None] \<or> as \<noteq> [] \<and> None \<notin> set as"

lemma set_cartesian_step: "set (cartesian_step res l) = {r @ [el] |r el. r \<in> set res \<and> el \<in> set l}"
  by (induction res) auto

lemma set_foldl_cartesian:
  "set (foldl cartesian_step res ls) = {r @ p |r p. r \<in> set res \<and> list_all2 (\<in>) p (map set ls)}"
proof (induction ls arbitrary: res)
  case (Cons l ls)
  have "set (foldl cartesian_step res (l # ls)) =
      {r @ p |r p. r \<in> set (cartesian_step res l) \<and> list_all2 (\<in>) p (map set ls)}"
    using Cons by simp
  also have "\<dots> = {r @ el # p |r el p. r \<in> set res \<and> el \<in> set l \<and> list_all2 (\<in>) p (map set ls)}"
    by (auto simp: set_cartesian_step) (metis append_Cons append_Nil append_assoc)+
  also have "\<dots> = {r @ p |r p. r \<in> set res \<and> list_all2 (\<in>) p (map set (l # ls))}"
    by (auto simp: list_all2_Cons2)
  finally show ?case .
qed simp

lemma set_cartesian:
  assumes "ls \<noteq> []"
  shows "p \<in> set (cartesian ls) \<longleftrightarrow> list_all2 (\<in>) p (map set ls)"
proof -
  obtain l ls' where ls: "ls = l # ls'" using assms by (cases ls) auto
  then have "p \<in> set (cartesian ls) \<longleftrightarrow>
      (\<exists>r q. p = r @ q \<and> (\<exists>i \<in> set l. r = [i]) \<and> list_all2 (\<in>) q (map set ls'))"
    by (auto simp: cartesian_def set_foldl_cartesian)
  also have "\<dots> \<longleftrightarrow> (\<exists>i q. p = i # q \<and> i \<in> set l \<and> list_all2 (\<in>) q (map set ls'))"
    by (metis append_Cons append_Nil)
  also have "\<dots> \<longleftrightarrow> list_all2 (\<in>) p (map set ls)" by (auto simp: ls list_all2_Cons2)
  finally show ?thesis .
qed

lemma flat_match_snoc_None [simp]: "flat_match (ps @ [None]) ts \<longleftrightarrow> flat_match ps ts"
  by (induction ps ts rule: flat_match.induct) auto

lemma flat_match_shrink: "flat_match (shrink ps) ts \<longleftrightarrow> flat_match ps ts"
proof (induction ps rule: shrink.induct)
  case (1 xs)
  show ?case
  proof (cases "xs \<noteq> [] \<and> last xs = None")
    case True
    then have "flat_match (butlast xs @ [None]) ts \<longleftrightarrow> flat_match xs ts"
      by (metis append_butlast_last_id)
    then show ?thesis using 1 True by (subst shrink.simps) simp
  qed (subst shrink.simps, auto)
qed

lemma shrink_last: "shrink xs \<noteq> [] \<Longrightarrow> last (shrink xs) \<noteq> None"
proof (induction xs rule: shrink.induct)
  case (1 xs)
  then show ?case by (metis shrink.simps)
qed

lemma flat_match_short:
  "flat_match ps ts \<Longrightarrow> ps \<noteq> [] \<Longrightarrow> last ps \<noteq> None \<Longrightarrow> length ps \<le> length ts"
proof (induction ps ts rule: flat_match.induct)
  case (2 ps ts)
  then show ?case by (cases ts; cases ps) auto
qed (auto split: if_splits)

text \<open>The topics that replace a combination, once it is no longer than the log.\<close>

fun fill :: "h256 option list \<Rightarrow> h256 list \<Rightarrow> h256 list" where
  "fill [] ts = []"
| "fill (None # ps) ts = hd ts # fill ps (tl ts)"
| "fill (Some v # ps) ts = v # fill ps (tl ts)"

lemma fill_Nil [simp]: "fill ps ts = [] \<longleftrightarrow> ps = []"
  by (induction ps ts rule: fill.induct) auto

lemma replace_loop_fill:
  "k + length vs \<le> length ts \<Longrightarrow> replace_loop ts k vs out = Ok (out @ fill vs (drop k ts))"
  by (induction ts k vs out rule: replace_loop.induct) (auto simp: hd_drop_conv_nth drop_Suc tl_drop)

lemma starts_with_fill:
  "length ps \<le> length ts \<Longrightarrow> starts_with ts (fill ps ts) \<longleftrightarrow> flat_match ps ts"
proof (induction ps ts rule: flat_match.induct)
  case (2 ps ts)
  then show ?case by (cases ts) (auto simp: starts_with_def)
qed (auto simp: starts_with_def)

lemma filter_topics_loop_Multiple:
  "filter_topics_loop log (Multiple p # rest) out =
     (if length (rl_topics log) < length (shrink p) then Ok False
      else if shrink p = [] then filter_topics_loop log rest out
      else if flat_match p (rl_topics log) then Ok True
      else filter_topics_loop log rest False)"
  by (simp add: Let_def replace_def replace_loop_fill starts_with_fill flat_match_shrink)

text \<open>Combinations with wildcards at the same positions.\<close>

lemma filter_topics_loop_alternatives:
  assumes "\<forall>p \<in> set ps. length (shrink p) = n"
  shows "filter_topics_loop log (map Multiple ps) out =
    Ok (if ps = [] \<or> n = 0 then out else \<exists>p \<in> set ps. flat_match p (rl_topics log))"
  using assms
proof (induction ps arbitrary: out)
  case (Cons p ps)
  have *: "\<not> flat_match q (rl_topics log)" if "q \<in> set (p # ps)" "length (rl_topics log) < n" for q
    using that Cons.prems flat_match_short [of "shrink q" "rl_topics log"] shrink_last [of q]
    by (fastforce simp: flat_match_shrink)
  show ?case using Cons * by (auto simp: filter_topics_loop_Multiple simp del: filter_topics_loop.simps(3))
qed simp

lemma shrink_dropWhile: "shrink xs = rev (dropWhile (\<lambda>x. x = None) (rev xs))"
proof (induction xs rule: shrink.induct)
  case (1 xs)
  show ?case
  proof (cases "xs \<noteq> [] \<and> last xs = None")
    case True
    then obtain ys where "xs = ys @ [None]" by (metis append_butlast_last_id)
    then show ?thesis using 1 by (subst shrink.simps) simp
  next
    case False
    then have "shrink xs = xs" by (subst shrink.simps) auto
    then show ?thesis using False by (cases xs rule: rev_cases) auto
  qed
qed

text \<open>How much is popped depends only on where the wildcards are.\<close>

lemma length_shrink: "length (shrink p) = length (dropWhile id (rev (map (\<lambda>x. x = None) p)))"
  by (simp add: shrink_dropWhile rev_map dropWhile_map comp_def)

lemma combination_Cons:
  "(\<exists>p. list_all2 (\<in>) p (A # As) \<and> P p) \<longleftrightarrow> (\<exists>x \<in> A. \<exists>q. list_all2 (\<in>) q As \<and> P (x # q))"
  by (auto simp: list_all2_Cons2)

lemma plain_shape:
  assumes "\<forall>as \<in> set ps. plain_position as"
  shows "list_all2 (\<in>) p (map set ps) \<Longrightarrow>
    map (\<lambda>x. x = None) p = map (\<lambda>as. None \<in> set as) ps"
  using assms
proof (induction ps arbitrary: p)
  case (Cons as ps)
  obtain x q where p: "p = x # q" "x \<in> set as" "list_all2 (\<in>) q (map set ps)"
    using Cons.prems(1) by (auto simp: list_all2_Cons2)
  have "(x = None) = (None \<in> set as)" using p(2) Cons.prems(2) by (auto simp: plain_position_def)
  then show ?case using Cons.IH [OF p(3)] Cons.prems(2) p(1) by simp
qed simp

lemma flat_match_Cons_Nil: "flat_match (x # q) [] \<longleftrightarrow> x = None \<and> flat_match q []"
  by (cases x) auto

lemma flat_match_Cons_Cons:
  "flat_match (x # q) (t # ts) \<longleftrightarrow> (x = None \<or> x = Some t) \<and> flat_match q ts"
  by (cases x) auto

lemma topics_match_combination:
  "topics_match ps ts \<longleftrightarrow> (\<exists>p. list_all2 (\<in>) p (map set ps) \<and> flat_match p ts)"
proof (induction ps ts rule: topics_match.induct)
  case (2 as ps)
  then show ?case
    by (simp only: list.map combination_Cons flat_match_Cons_Nil topics_match.simps) blast
next
  case (3 as ps t ts)
  then show ?case
    by (simp only: list.map combination_Cons flat_match_Cons_Cons topics_match.simps) blast
qed auto

lemma combination_exists:
  "\<forall>as \<in> set ps. as \<noteq> [] \<Longrightarrow> \<exists>p. list_all2 (\<in>) p (map set ps)"
proof (induction ps)
  case (Cons as ps)
  then show ?case by (auto simp: list_all2_Cons2) (metis list.set_intros(1) neq_Nil_conv)
qed simp

lemma all_wildcards_match:
  "list_all2 (\<in>) p (map set ps) \<Longrightarrow> shrink p = [] \<Longrightarrow> flat_match p ts"
  using flat_match_shrink [of p ts] by simp

text \<open>
  C35: the topic test decides the documented meaning of a filter. When every position of the filter
  is a wildcard or a non-empty list of topics without a wildcard, a log passes exactly when each
  position accepts the topic of the log there, positions past the end of the log accepting only as
  wildcards; the test never reads past the topics of the log.
\<close>

theorem filter_topics_correct:
  assumes "fl_topics f = Some (Multiple multi)"
    and plain: "\<forall>v \<in> set multi. plain_position (alternatives v)"
  shows "filter_topics (filtered_params_new (Some f)) log =
    (Ok (topics_match (map alternatives multi) (rl_topics log)) :: ('e, bool) res)"
proof (cases "multi = []")
  case True
  then show ?thesis using assms(1)
    by (simp add: filter_topics_def filtered_params_new_def cartesian_def)
next
  case False
  let ?ps = "map alternatives multi"
  let ?n = "length (dropWhile id (rev (map (\<lambda>as. None \<in> set as) ?ps)))"
  have pl: "\<forall>as \<in> set ?ps. plain_position as" using plain by auto
  then have "\<forall>as \<in> set ?ps. as \<noteq> []" by (auto simp: plain_position_def)
  then obtain q where q: "list_all2 (\<in>) q (map set ?ps)" using combination_exists by blast
  have mem: "p \<in> set (cartesian ?ps) \<longleftrightarrow> list_all2 (\<in>) p (map set ?ps)" for p
    using False by (intro set_cartesian) simp
  have n: "\<forall>p \<in> set (cartesian ?ps). length (shrink p) = ?n"
    using mem plain_shape [OF pl] by (metis length_shrink)
  have ne: "cartesian ?ps \<noteq> []" using q mem by fastforce
  have "filter_topics (filtered_params_new (Some f)) log =
      (Ok (?n = 0 \<or> (\<exists>p \<in> set (cartesian ?ps). flat_match p (rl_topics log))) :: ('e, bool) res)"
    using assms(1) ne
    by (simp add: filter_topics_def filtered_params_new_def filter_topics_loop_alternatives [OF n]) blast
  moreover have "?n = 0 \<Longrightarrow> \<exists>p \<in> set (cartesian ?ps). flat_match p (rl_topics log)"
    using q mem n all_wildcards_match [OF q] by (metis length_0_conv)
  ultimately show ?thesis using mem topics_match_combination [of ?ps] by auto
qed

text \<open>
  A wildcard listed among the alternatives of a position is not honoured. The filter
  \<open>[[b, null]]\<close> should accept every log, and \<open>[null, [null, c]]\<close>, the last form of the
  documented syntax, too; the first accepts only logs whose first topic is \<open>b\<close>, and the second
  only logs whose second topic is \<open>c\<close>.
\<close>

theorem wildcard_alternative_ignored:
  "filter_topics (filtered_params_new (Some \<lparr>fl_from_block = None, fl_to_block = None,
       fl_block_hash = None, fl_address = None,
       fl_topics = Some (Multiple [Some (Multiple [Some b, None])])\<rparr>)) log =
     (Ok (\<exists>ts. rl_topics log = b # ts) :: ('e, bool) res) \<and>
   filter_topics (filtered_params_new (Some \<lparr>fl_from_block = None, fl_to_block = None,
       fl_block_hash = None, fl_address = None,
       fl_topics = Some (Multiple [None, Some (Multiple [None, Some c])])\<rparr>)) log =
     (Ok (\<exists>t ts. rl_topics log = t # c # ts) :: ('f, bool) res) \<and>
   topics_match (map alternatives [Some (Multiple [Some b, None])]) (rl_topics log) \<and>
   topics_match (map alternatives [None, Some (Multiple [None, Some c])]) (rl_topics log)"
proof -
  have s: "shrink [x] = (case x of None \<Rightarrow> [] | Some y \<Rightarrow> [Some y])"
    "shrink [None, x] = (case x of None \<Rightarrow> [] | Some y \<Rightarrow> [None, Some y])" for x :: "h256 option"
    by (cases x; simp add: shrink_dropWhile)+
  show ?thesis
    by (cases "rl_topics log"; cases "tl (rl_topics log)")
      (auto simp: filter_topics_def filtered_params_new_def cartesian_def s filter_topics_loop_Multiple
        simp del: filter_topics_loop.simps(3))
qed

text \<open>The block range: numbers bound it on both sides, \<open>earliest\<close> as upper bound excludes every block.\<close>

lemma filter_block_range_spec:
  "fp_filter p = Some f \<Longrightarrow> filter_block_range p n = Ok (
     (\<forall>x. fl_from_block f = Some (BN_Num x) \<longrightarrow> x \<le> n) \<and>
     (\<forall>x. fl_to_block f = Some (BN_Num x) \<longrightarrow> n \<le> x) \<and> fl_to_block f \<noteq> Some BN_Earliest)"
  by (auto simp: filter_block_range_def range_from_def range_to_def not_less
      split: option.splits block_number.splits)

section \<open>Witness\<close>

definition sample_log :: rpc_log where
  "sample_log = \<lparr>rl_address = 9, rl_topics = [1, 2], rl_data = [], rl_block_hash = None,
     rl_block_number = None, rl_transaction_hash = None, rl_transaction_index = None,
     rl_log_index = None, rl_transaction_log_index = None, rl_removed = False\<rparr>"

definition sample_filter :: log_filter where
  "sample_filter = \<lparr>fl_from_block = None, fl_to_block = None, fl_block_hash = None, fl_address = None,
     fl_topics = Some (Multiple [None, Some (Multiple [Some 5, Some 2])])\<rparr>"

theorem filter_topics_correct_witness:
  "filter_topics (filtered_params_new (Some sample_filter)) sample_log = (Ok True :: (unit, bool) res)"
  using filter_topics_correct [of sample_filter "[None, Some (Multiple [Some 5, Some 2])]" sample_log]
  by (simp add: sample_filter_def sample_log_def plain_position_def)

end
