(* ===== verification/Rpc_Build.thy ===== *)
theory Rpc_Build
  imports Rpc_Filter Eth_Pallet
begin

text \<open>
  The helpers the RPC shares: errors, revert reasons, public keys and the development signer of
  \<open>client/rpc/src/lib.rs\<close>, and the builders of blocks, transactions and logs at the top of
  \<open>client/rpc/src/eth.rs\<close>. Integers of the language wrap around as in a release build; an
  index out of range is a panic. The \<open>secp256k1\<close> crate and the text of foreign error values
  are parameters.
\<close>

section \<open>Errors\<close>

text \<open>Every error has the code \<open>InternalError\<close>; the record keeps its message and data.\<close>

record rpc_error =
  re_message :: string
  re_data :: "string option"

type_synonym 'a rpc = "(rpc_error, 'a) res"

definition internal_err :: "string \<Rightarrow> rpc_error" where
  "internal_err message = \<lparr>re_message = message, re_data = None\<rparr>"

text \<open>\<open>std::str::from_utf8\<close>: well-formed sequences of one to four bytes.\<close>

definition cont_byte :: "nat \<Rightarrow> nat \<Rightarrow> u8 \<Rightarrow> bool" where
  "cont_byte lo hi b \<longleftrightarrow> lo \<le> unat b \<and> unat b \<le> hi"

fun is_utf8 :: "bytes \<Rightarrow> bool" where
  "is_utf8 [] = True"
| "is_utf8 (a # bs) =
     (if unat a < 128 then is_utf8 bs
      else case bs of
        [] \<Rightarrow> False
      | b # cs \<Rightarrow>
          if cont_byte 194 223 a then cont_byte 128 191 b \<and> is_utf8 cs
          else case cs of
            [] \<Rightarrow> False
          | c # ds \<Rightarrow>
              if cont_byte 224 239 a then
                cont_byte (if unat a = 224 then 160 else 128) (if unat a = 237 then 159 else 191) b \<and>
                cont_byte 128 191 c \<and> is_utf8 ds
              else case ds of
                [] \<Rightarrow> False
              | d # es \<Rightarrow>
                  cont_byte 240 244 a \<and>
                  cont_byte (if unat a = 240 then 144 else 128) (if unat a = 244 then 143 else 191) b \<and>
                  cont_byte 128 191 c \<and> cont_byte 128 191 d \<and> is_utf8 es)"

definition text_of :: "bytes \<Rightarrow> string" where
  "text_of bs = map (\<lambda>b. char_of (unat b)) bs"

record error_text =
  et_exit_error :: "exit_error \<Rightarrow> string"
  et_fatal :: "string \<Rightarrow> string"
  et_hex :: "bytes \<Rightarrow> string"

definition revert_text :: string where
  "revert_text = ''VM Exception while processing transaction: revert''"

definition error_on_execution_failure :: "error_text \<Rightarrow> exit_reason \<Rightarrow> bytes \<Rightarrow> unit rpc" where
  "error_on_execution_failure X reason data =
     (case reason of
        Succeed _ \<Rightarrow> Ok ()
      | Error e \<Rightarrow> Err \<lparr>re_message = ''evm error: '' @ et_exit_error X e, re_data = Some ''0x''\<rparr>
      | Revert \<Rightarrow>
          res_bind
            (if length data > 68 then
               res_bind (slice data 36 68) (\<lambda>len_bytes.
               let message_len = sum_list len_bytes in
               res_bind (slice data 68 (68 + unat message_len)) (\<lambda>body.
               Ok (if is_utf8 body then revert_text @ '' '' @ text_of body else revert_text)))
             else Ok revert_text)
            (\<lambda>message. Err \<lparr>re_message = message, re_data = Some (et_hex X data)\<rparr>)
      | Fatal e \<Rightarrow> Err \<lparr>re_message = ''evm fatal: '' @ et_fatal X e, re_data = Some ''0x''\<rparr>)"

section \<open>Public keys and the development signer\<close>

definition public_key :: "eth_lib \<Rightarrow> transaction \<Rightarrow> bytes option" where
  "public_key L transaction =
     (let sig = h256_bytes (sig_r (tx_signature transaction)) @
                h256_bytes (sig_s (tx_signature transaction)) @
                [standard_v L (sig_v (tx_signature transaction))];
          msg = h256_bytes (message_hash L transaction)
      in ecdsa_recover L sig msg)"

record transaction_message =
  tm_nonce :: u256
  tm_gas_price :: u256
  tm_gas_limit :: u256
  tm_action :: transaction_action
  tm_value :: u256
  tm_input :: bytes
  tm_chain_id :: "u64 option"

text \<open>
  A signer lists its accounts and signs for one of them. The calls of the signing crates: the
  serialised public key of a secret key (65 bytes), the hash of a message, the message a slice
  parses to, the signature (64 bytes) and its recovery id, and the checked constructor of a
  transaction signature.
\<close>

record signer =
  sg_accounts :: "h160 list"
  sg_sign :: "transaction_message \<Rightarrow> h160 \<Rightarrow> transaction rpc"

record ('k, 'm) secp_lib =
  sp_public_serialize :: "'k \<Rightarrow> bytes"
  sp_message_hash :: "transaction_message \<Rightarrow> h256"
  sp_parse_message :: "bytes \<Rightarrow> 'm option"
  sp_sign :: "'m \<Rightarrow> 'k \<Rightarrow> bytes \<times> u8"
  sp_signature_new :: "u64 \<Rightarrow> h256 \<Rightarrow> h256 \<Rightarrow> signature option"
  sp_secret_parse :: "bytes \<Rightarrow> 'k option"

definition dev_signer_new :: "('k, 'm) secp_lib \<Rightarrow> 'k list rpc" where
  "dev_signer_new S = res_bind (unwrap (sp_secret_parse S (replicate 32 0x11))) (\<lambda>k. Ok [k])"

definition key_address :: "eth_lib \<Rightarrow> ('k, 'm) secp_lib \<Rightarrow> 'k \<Rightarrow> h160 rpc" where
  "key_address L S secret =
     res_bind (slice (sp_public_serialize S secret) 1 65) (\<lambda>s.
     res_bind (copy_from_slice 64 s) (\<lambda>r.
     Ok (h160_from_h256 (h256_from_slice (keccak256 L r)))))"

fun dev_accounts :: "eth_lib \<Rightarrow> ('k, 'm) secp_lib \<Rightarrow> 'k list \<Rightarrow> h160 list rpc" where
  "dev_accounts L S [] = Ok []"
| "dev_accounts L S (secret # keys) =
     res_bind (key_address L S secret) (\<lambda>a.
     map_ok ((#) a) (dev_accounts L S keys))"

fun dev_sign ::
  "eth_lib \<Rightarrow> ('k, 'm) secp_lib \<Rightarrow> 'k list \<Rightarrow> transaction_message \<Rightarrow> h160 \<Rightarrow> transaction rpc" where
  "dev_sign L S [] message address = Err (internal_err ''signer not available'')"
| "dev_sign L S (secret # keys) message address =
     res_bind (key_address L S secret) (\<lambda>key_addr.
       if key_addr = address then
         res_bind (ok_or (sp_parse_message S (h256_bytes (sp_message_hash S message)))
           (internal_err ''invalid signing message'')) (\<lambda>signing_message.
         let (rs, recid) = sp_sign S signing_message secret;
             v = (case tm_chain_id message of
                    None \<Rightarrow> 27 + ucast recid
                  | Some chain_id \<Rightarrow> 2 * chain_id + 35 + ucast recid) in
         res_bind (slice rs 0 32) (\<lambda>r.
         res_bind (slice rs 32 64) (\<lambda>s.
         res_bind (ok_or (sp_signature_new S v (h256_from_slice r) (h256_from_slice s))
           (internal_err ''signer generated invalid signature'')) (\<lambda>sig.
         Ok \<lparr>tx_nonce = tm_nonce message,
             tx_gas_price = tm_gas_price message,
             tx_gas_limit = tm_gas_limit message,
             tx_action = tm_action message,
             tx_value = tm_value message,
             tx_input = tm_input message,
             tx_signature = sig\<rparr>))))
       else dev_sign L S keys message address)"

section \<open>Builders\<close>

definition header_keccak :: "eth_lib \<Rightarrow> header \<Rightarrow> h256" where
  "header_keccak L h = h256_from_slice (keccak256 L (rlp_header L h))"

definition transaction_build ::
  "eth_lib \<Rightarrow> transaction \<Rightarrow> block option \<Rightarrow> transaction_status option \<Rightarrow> rpc_transaction" where
  "transaction_build L transaction block status =
     (let pubkey = public_key L transaction in
      \<lparr>rt_hash = transaction_hash L transaction,
       rt_nonce = tx_nonce transaction,
       rt_block_hash = map_option (\<lambda>b. header_keccak L (bk_header b)) block,
       rt_block_number = map_option (\<lambda>b. hd_number (bk_header b)) block,
       rt_transaction_index =
         map_option (\<lambda>st. ucast (saturated_into (st_transaction_index st) :: u32)) status,
       rt_from =
         (case status of
            None \<Rightarrow>
              (case pubkey of
                 Some pk \<Rightarrow> h160_from_h256 (h256_from_slice (keccak256 L pk))
               | None \<Rightarrow> 0)
          | Some st \<Rightarrow> st_from st),
       rt_to =
         (case status of
            None \<Rightarrow> (case tx_action transaction of Action_Call a \<Rightarrow> Some a | Action_Create \<Rightarrow> None)
          | Some st \<Rightarrow> st_to st),
       rt_value = tx_value transaction,
       rt_gas_price = tx_gas_price transaction,
       rt_gas = tx_gas_limit transaction,
       rt_input = tx_input transaction,
       rt_creates = (case status of None \<Rightarrow> None | Some st \<Rightarrow> st_contract_address st),
       rt_raw = rlp_transaction L transaction,
       rt_public_key = pubkey,
       rt_chain_id = chain_id_of_v L (sig_v (tx_signature transaction)),
       rt_standard_v = ucast (standard_v L (sig_v (tx_signature transaction))),
       rt_v = ucast (sig_v (tx_signature transaction)),
       rt_r = sig_r (tx_signature transaction),
       rt_s = sig_s (tx_signature transaction)\<rparr>)"

text \<open>The transactions of a full block; the status of each is read by index.\<close>

fun full_transactions ::
  "eth_lib \<Rightarrow> block \<Rightarrow> transaction_status option list \<Rightarrow> nat \<Rightarrow> transaction list \<Rightarrow>
     rpc_transaction list rpc" where
  "full_transactions L block statuses index [] = Ok []"
| "full_transactions L block statuses index (t # ts) =
     res_bind (index_at statuses index) (\<lambda>st.
     map_ok ((#) (transaction_build L t (Some block)
         (Some (case st of Some s \<Rightarrow> s | None \<Rightarrow> default_transaction_status))))
       (full_transactions L block statuses (Suc index) ts))"

definition rich_block_build ::
  "eth_lib \<Rightarrow> (block \<Rightarrow> bytes) \<Rightarrow> block \<Rightarrow> transaction_status option list \<Rightarrow> h256 option \<Rightarrow> bool \<Rightarrow>
     rpc_block rpc" where
  "rich_block_build L rlp_block block statuses hash full =
     (let h = bk_header block in
      res_bind
        (if full then map_ok BT_Full (full_transactions L block statuses 0 (bk_transactions block))
         else Ok (BT_Hashes (map (transaction_hash L) (bk_transactions block)))) (\<lambda>transactions.
      Ok \<lparr>rb_hash = Some (case hash of Some x \<Rightarrow> x | None \<Rightarrow> header_keccak L h),
          rb_parent_hash = hd_parent_hash h,
          rb_uncles_hash = hd_ommers_hash h,
          rb_author = hd_beneficiary h,
          rb_miner = hd_beneficiary h,
          rb_state_root = hd_state_root h,
          rb_transactions_root = hd_transactions_root h,
          rb_receipts_root = hd_receipts_root h,
          rb_number = Some (hd_number h),
          rb_gas_used = hd_gas_used h,
          rb_gas_limit = hd_gas_limit h,
          rb_extra_data = hd_extra_data h,
          rb_logs_bloom = Some (hd_logs_bloom h),
          rb_timestamp = ucast (hd_timestamp h div 1000),
          rb_difficulty = hd_difficulty h,
          rb_total_difficulty = 0,
          rb_seal_fields = [h256_bytes (hd_mix_hash h), be_bytes 8 (unat (hd_nonce h))],
          rb_uncles = [],
          rb_transactions = transactions,
          rb_size = Some (ucast (word_of_nat (length (rlp_block block)) :: u32))\<rparr>))"

text \<open>A log before the test: none of its positions is filled in.\<close>

definition bare_log :: "eth_log \<Rightarrow> rpc_log" where
  "bare_log l = \<lparr>rl_address = log_address l, rl_topics = log_topics l, rl_data = log_data l,
     rl_block_hash = None, rl_block_number = None, rl_transaction_hash = None,
     rl_transaction_index = None, rl_log_index = None, rl_transaction_log_index = None,
     rl_removed = False\<rparr>"

definition log_passes :: "filtered_params \<Rightarrow> log_filter \<Rightarrow> rpc_log \<Rightarrow> bool rpc" where
  "log_passes params f log =
     (case (fl_address f, fl_topics f) of
        (Some _, Some _) \<Rightarrow>
          res_bind (filter_address params log) (\<lambda>a. if \<not> a then Ok False else filter_topics params log)
      | (Some _, None) \<Rightarrow> filter_address params log
      | (None, Some _) \<Rightarrow> filter_topics params log
      | (None, None) \<Rightarrow> Ok True)"

text \<open>The innermost loop, over the logs of one transaction; both indices are 32 bits wide.\<close>

fun status_logs ::
  "filtered_params \<Rightarrow> log_filter \<Rightarrow> h256 \<Rightarrow> block \<Rightarrow> transaction_status \<Rightarrow> eth_log list \<Rightarrow> u32 \<Rightarrow> u32 \<Rightarrow>
     rpc_log list \<Rightarrow> (u32 \<times> rpc_log list) rpc" where
  "status_logs params f block_hash block status [] tli bli ret = Ok (bli, ret)"
| "status_logs params f block_hash block status (l # ls) tli bli ret =
     res_bind (log_passes params f (bare_log l)) (\<lambda>add.
     status_logs params f block_hash block status ls (tli + 1) (bli + 1)
       (if add then
          ret @ [(bare_log l)\<lparr>rl_block_hash := Some block_hash,
                   rl_block_number := Some (hd_number (bk_header block)),
                   rl_transaction_hash := Some (st_transaction_hash status),
                   rl_transaction_index := Some (ucast (st_transaction_index status)),
                   rl_log_index := Some (ucast bli),
                   rl_transaction_log_index := Some (ucast tli)\<rparr>]
        else ret))"

fun block_logs ::
  "filtered_params \<Rightarrow> log_filter \<Rightarrow> h256 \<Rightarrow> block \<Rightarrow> transaction_status list \<Rightarrow> u32 \<Rightarrow> rpc_log list \<Rightarrow>
     rpc_log list rpc" where
  "block_logs params f block_hash block [] bli ret = Ok ret"
| "block_logs params f block_hash block (status # statuses) bli ret =
     res_bind (status_logs params f block_hash block status (st_logs status) 0 bli ret) (\<lambda>(bli, ret).
     block_logs params f block_hash block statuses bli ret)"

fun logs_build_loop ::
  "eth_lib \<Rightarrow> filtered_params \<Rightarrow> log_filter \<Rightarrow> (block \<times> transaction_status list) list \<Rightarrow> rpc_log list \<Rightarrow>
     rpc_log list rpc" where
  "logs_build_loop L params f [] ret = Ok ret"
| "logs_build_loop L params f ((block, statuses) # rest) ret =
     res_bind (block_logs params f (header_keccak L (bk_header block)) block statuses 0 ret)
       (logs_build_loop L params f rest)"

definition logs_build ::
  "eth_lib \<Rightarrow> log_filter \<Rightarrow> (block \<times> transaction_status list) list \<Rightarrow> rpc_log list rpc" where
  "logs_build L f blocks_and_statuses =
     logs_build_loop L (filtered_params_new (Some f)) f blocks_and_statuses []"

section \<open>Reverts\<close>

text \<open>
  Reading the reason of a reverted execution panics exactly when the output is longer than 68
  bytes and shorter than the announced reason, where the announced length is the sum modulo 256 of
  the 32 bytes that hold it.
\<close>

theorem revert_reason_panics:
  "error_on_execution_failure X Revert data = Panic \<longleftrightarrow>
     68 < length data \<and> length data < 68 + unat (sum_list (take 32 (drop 36 data)))"
  by (auto simp: error_on_execution_failure_def Let_def slice_def)

lemma be_bytes_small: "n < 256 \<Longrightarrow> be_bytes (Suc k) n = replicate k 0 @ [word_of_nat n]"
  using be_bytes_pad [of "[word_of_nat n]" "Suc k"]
  by (simp add: be_val_def unat_of_nat)

lemma sum_list_zeros: "sum_list (replicate k (0 :: u8) @ [x]) = x"
  by (induction k) auto

text \<open>
  The reason of an ABI-encoded revert is shown. When the output is a selector, an offset, a
  length below 256 and a reason of that length in UTF-8 with any padding, the error carries the
  reason as text after the fixed message, and the output as data.
\<close>

theorem revert_reason_shown:
  assumes "length selector = 4" "length offset = 32" "length reason < 256" "is_utf8 reason"
    and "reason @ padding \<noteq> []"
  shows "let data = selector @ offset @ be_bytes 32 (length reason) @ reason @ padding in
    error_on_execution_failure X Revert data =
      Err \<lparr>re_message = revert_text @ '' '' @ text_of reason, re_data = Some (et_hex X data)\<rparr>"
proof -
  let ?len = "be_bytes 32 (length reason)"
  let ?data = "selector @ offset @ ?len @ reason @ padding"
  have "sum_list ?len = word_of_nat (length reason)"
    using be_bytes_small [OF assms(3), of 31] sum_list_zeros [of 31] by simp
  then have u: "unat (sum_list ?len) = length reason"
    using assms(3) by (simp add: unat_of_nat)
  have l: "length ?data = 68 + length (reason @ padding)" using assms(1,2) by simp
  have s: "slice ?data 36 68 = (Ok ?len :: bytes rpc)" using assms(1,2) by (simp add: slice_def)
  have b: "slice ?data 68 (68 + unat (sum_list ?len)) = (Ok reason :: bytes rpc)"
    using assms(1,2) by (simp add: slice_def u)
  have long: "68 < length ?data" using l assms(5) by (cases "reason @ padding") auto
  show ?thesis unfolding Let_def error_on_execution_failure_def
    using assms(4) by (simp only: long s b exit_reason.case res_bind.simps if_True)
qed

section \<open>Signatures of the development signer\<close>

text \<open>
  What the signing crates document. Public keys serialise to 65 bytes; a slice parses as a message
  when it has 32 bytes; a signature has 64 bytes and a recovery id below 4, and with a recovery
  id of 0 or 1 it recovers to the key it was made with. The checked constructor keeps its
  arguments. \<open>standard()\<close> and \<open>chain_id()\<close> read \<open>v\<close> by EIP-155: 27, 28 and everything
  above 36 hold a recovery id, everything above 36 a chain id. A transaction hashes as the message
  with its fields and the chain id its \<open>v\<close> holds.
\<close>

definition signed_transaction :: "transaction_message \<Rightarrow> signature \<Rightarrow> transaction" where
  "signed_transaction m sig = \<lparr>tx_nonce = tm_nonce m, tx_gas_price = tm_gas_price m, tx_gas_limit = tm_gas_limit m,
     tx_action = tm_action m, tx_value = tm_value m, tx_input = tm_input m, tx_signature = sig\<rparr>"

definition message_of :: "eth_lib \<Rightarrow> transaction \<Rightarrow> transaction_message" where
  "message_of L t = \<lparr>tm_nonce = tx_nonce t, tm_gas_price = tx_gas_price t, tm_gas_limit = tx_gas_limit t,
     tm_action = tx_action t, tm_value = tx_value t, tm_input = tx_input t,
     tm_chain_id = chain_id_of_v L (sig_v (tx_signature t))\<rparr>"

definition secp_ok :: "eth_lib \<Rightarrow> ('k, 'm) secp_lib \<Rightarrow> bool" where
  "secp_ok L S \<longleftrightarrow> (\<forall>k. length (sp_public_serialize S k) = 65) \<and>
     (\<forall>b. sp_parse_message S b \<noteq> None \<longleftrightarrow> length b = 32) \<and>
     (\<forall>h mm k rs recid. sp_parse_message S (h256_bytes h) = Some mm \<and> sp_sign S mm k = (rs, recid) \<longrightarrow>
        length rs = 64 \<and> recid < 4 \<and>
        (recid < 2 \<longrightarrow>
           ecdsa_recover L (rs @ [recid]) (h256_bytes h) = Some (drop 1 (sp_public_serialize S k)))) \<and>
     (\<forall>v r s sig. sp_signature_new S v r s = Some sig \<longrightarrow> sig = \<lparr>sig_v = v, sig_r = r, sig_s = s\<rparr>) \<and>
     (\<forall>v. standard_v L v = (if v = 27 \<or> v = 28 \<or> v > 36 then ucast ((v - 1) mod 2) else 4)) \<and>
     (\<forall>v. chain_id_of_v L v = (if v > 36 then Some ((v - 35) div 2) else None)) \<and>
     (\<forall>t. message_hash L t = sp_message_hash S (message_of L t))"

lemma secp_okD:
  assumes "secp_ok L S"
  shows "length (sp_public_serialize S k) = 65"
    and "sp_parse_message S b \<noteq> None \<longleftrightarrow> length b = 32"
    and "sp_parse_message S (h256_bytes h) = Some mm \<Longrightarrow> sp_sign S mm k = (rs, recid) \<Longrightarrow>
      length rs = 64 \<and> recid < 4 \<and>
      (recid < 2 \<longrightarrow> ecdsa_recover L (rs @ [recid]) (h256_bytes h) = Some (drop 1 (sp_public_serialize S k)))"
    and "sp_signature_new S v r s = Some sig \<Longrightarrow> sig = \<lparr>sig_v = v, sig_r = r, sig_s = s\<rparr>"
    and "standard_v L v = (if v = 27 \<or> v = 28 \<or> v > 36 then ucast ((v - 1) mod 2) else 4)"
    and "chain_id_of_v L v = (if v > 36 then Some ((v - 35) div 2) else None)"
    and "message_hash L t = sp_message_hash S (message_of L t)"
  using assms [unfolded secp_ok_def]
  by (elim conjE; iprover)+

text \<open>A chain id that \<open>v\<close> can hold next to a recovery id: not zero, and no wrap-around.\<close>

definition chain_id_fits :: "u64 option \<Rightarrow> bool" where
  "chain_id_fits c \<longleftrightarrow> (case c of None \<Rightarrow> True | Some c \<Rightarrow> 0 < c \<and> 2 * unat c + 36 < 2 ^ 64)"

definition signing_v :: "u64 option \<Rightarrow> u8 \<Rightarrow> u64" where
  "signing_v c recid = (case c of None \<Rightarrow> 27 + ucast recid | Some c \<Rightarrow> 2 * c + 35 + ucast recid)"

lemma recid_cases: "(recid :: u8) < 2 \<longleftrightarrow> recid = 0 \<or> recid = 1"
proof -
  have "unat recid < 2 \<longleftrightarrow> unat recid = 0 \<or> unat recid = 1" by auto
  then show ?thesis by (simp add: word_less_nat_alt word_unat_eq_iff)
qed

lemma signing_v_read:
  assumes "secp_ok L S" "recid < 2" "chain_id_fits c"
  shows "standard_v L (signing_v c recid) = recid" "chain_id_of_v L (signing_v c recid) = c"
proof -
  note read = secp_okD(5,6) [OF assms(1)]
  have "standard_v L (signing_v c recid) = recid \<and> chain_id_of_v L (signing_v c recid) = c"
  proof (cases c)
    case None
    then show ?thesis using assms(2) unfolding recid_cases by (auto simp: read signing_v_def)
  next
    case (Some d)
    define v where "v = signing_v c recid"
    have d: "0 < unat d" "2 * unat d + 36 < 2 ^ 64"
      using assms(3) Some by (auto simp: chain_id_fits_def unat_gt_0)
    have r: "unat (ucast recid :: u64) = unat recid" "unat recid < 2"
      using assms(2) by (auto simp: recid_cases)
    have v: "unat v = 2 * unat d + 35 + unat recid"
      using d r by (simp add: v_def signing_v_def Some unat_word_ariths)
    have big: "36 < v" using v d by (simp add: word_less_nat_alt)
    have "unat (v - 1) = 2 * unat d + 34 + unat recid" "unat (v - 35) = 2 * unat d + unat recid"
      using v big by (simp_all add: unat_sub word_le_nat_alt)
    moreover have "(2 * n + 34 + k) mod 2 = k" "(2 * n + k) div 2 = n" if "k < 2" for n k :: nat
      using that by presburger+
    ultimately have "unat ((v - 1) mod 2) = unat recid" "unat ((v - 35) div 2) = unat d"
      using r(2) by (simp_all add: unat_mod unat_div)
    then have "(ucast ((v - 1) mod 2) :: u8) = recid" "(v - 35) div 2 = d"
      using r(2) by (simp_all add: word_unat_eq_iff unat_ucast_id)
    then show ?thesis using big unfolding v_def [symmetric] by (simp add: read Some)
  qed
  then show "standard_v L (signing_v c recid) = recid" "chain_id_of_v L (signing_v c recid) = c" by auto
qed

lemma h256_bytes_from_slice: "length bs = 32 \<Longrightarrow> h256_bytes (h256_from_slice bs) = bs"
  using be_bytes_val [of bs] be_val_bound [of bs]
  by (simp add: h256_bytes_def h256_from_slice_def unat_of_nat)

lemma key_address_eq:
  "length (sp_public_serialize S k) = 65 \<Longrightarrow>
    key_address L S k = Ok (h160_from_h256 (h256_from_slice (keccak256 L (drop 1 (sp_public_serialize S k)))))"
  by (simp add: key_address_def)

text \<open>
  C37: what the development signer signs is from the account it was asked for. A transaction it
  returns for an address carries the fields of the message and its chain id, the address is among
  its accounts, and the pallet recovers exactly that address from the signature. The chain id is
  absent, or not zero and small enough not to wrap around in \<open>v\<close> (a chain id of zero gives a
  \<open>v\<close> that holds no recovery id), and the signature has a recovery id of 0 or 1 (one of 2 or 3,
  added to \<open>v\<close> as it is, announces the next chain id).
\<close>

theorem dev_signature_recovers:
  assumes "secp_ok L S" "dev_sign L S keys m address = Ok t" "chain_id_fits (tm_chain_id m)"
    and "\<forall>k \<in> set keys. \<forall>mm. sp_parse_message S (h256_bytes (sp_message_hash S m)) = Some mm \<longrightarrow>
      snd (sp_sign S mm k) < 2"
  shows "(\<exists>sig. t = signed_transaction m sig \<and> chain_id_of_v L (sig_v sig) = tm_chain_id m) \<and>
    recover_signer L t = Some address \<and>
    (\<exists>as. dev_accounts L S keys = Ok as \<and> address \<in> set as)"
  using assms(2,4)
proof (induction keys)
  case (Cons k keys)
  note D = secp_okD [OF assms(1)]
  have accs: "\<exists>as. dev_accounts L S ks = Ok as" for ks
    by (induction ks) (auto simp: key_address_eq [OF D(1)])
  let ?a = "h160_from_h256 (h256_from_slice (keccak256 L (drop 1 (sp_public_serialize S k))))"
  show ?case
  proof (cases "?a = address")
    case False
    then show ?thesis using Cons accs [of keys] by (auto simp: key_address_eq [OF D(1)])
  next
    case True
    obtain mm where mm: "sp_parse_message S (h256_bytes (sp_message_hash S m)) = Some mm"
      using D(2) [of "h256_bytes (sp_message_hash S m)"] by auto
    obtain rs recid where sg: "sp_sign S mm k = (rs, recid)" by (cases "sp_sign S mm k")
    have low: "recid < 2" using Cons.prems(2) mm sg by force
    have rs: "length rs = 64" "ecdsa_recover L (rs @ [recid]) (h256_bytes (sp_message_hash S m)) =
        Some (drop 1 (sp_public_serialize S k))"
      using D(3) [OF mm sg] low by auto
    note v = signing_v_read [OF assms(1) low assms(3)]
    let ?sig = "\<lparr>sig_v = signing_v (tm_chain_id m) recid,
      sig_r = h256_from_slice (take 32 rs), sig_s = h256_from_slice (drop 32 rs)\<rparr>"
    have t: "t = signed_transaction m ?sig"
      using Cons.prems(1) True mm sg rs(1)
      by (auto simp: key_address_eq [OF D(1)] signed_transaction_def signing_v_def Let_def dest!: D(4))
    have b: "h256_bytes (h256_from_slice (take 32 rs)) @ h256_bytes (h256_from_slice (drop 32 rs)) = rs"
      using rs(1) by (simp add: h256_bytes_from_slice)
    have sig: "tx_signature t = ?sig" by (simp add: t signed_transaction_def)
    have "message_of L t = m" using v(2) by (simp add: message_of_def t signed_transaction_def)
    then have "recover_signer L t = Some ?a"
      using v(1) rs(2) b sig D(7) [of t] by (simp add: recover_signer_def Let_def flip: append_assoc)
    then show ?thesis using t v(2) True accs [of keys] by (auto simp: key_address_eq [OF D(1)])
  qed
qed simp

section \<open>The logs of a range of blocks\<close>

text \<open>Every log of a block with its position in the block and in its transaction.\<close>

definition located_log :: "eth_lib \<Rightarrow> block \<Rightarrow> transaction_status \<Rightarrow> nat \<Rightarrow> nat \<Rightarrow> eth_log \<Rightarrow> rpc_log" where
  "located_log L b st k i l = (bare_log l)\<lparr>
     rl_block_hash := Some (header_keccak L (bk_header b)),
     rl_block_number := Some (hd_number (bk_header b)),
     rl_transaction_hash := Some (st_transaction_hash st),
     rl_transaction_index := Some (ucast (st_transaction_index st)),
     rl_log_index := Some (ucast (word_of_nat k :: u32)),
     rl_transaction_log_index := Some (ucast (word_of_nat i :: u32))\<rparr>"

definition transaction_logs :: "eth_lib \<Rightarrow> block \<Rightarrow> transaction_status \<Rightarrow> nat \<Rightarrow> rpc_log list" where
  "transaction_logs L b st k = map (\<lambda>(i, l). located_log L b st (k + i) i l) (enumerate 0 (st_logs st))"

fun numbered_logs :: "eth_lib \<Rightarrow> block \<Rightarrow> transaction_status list \<Rightarrow> nat \<Rightarrow> rpc_log list" where
  "numbered_logs L b [] k = []"
| "numbered_logs L b (st # sts) k = transaction_logs L b st k @ numbered_logs L b sts (k + length (st_logs st))"

text \<open>What a filter asks of a log: its address is listed, and it passes the topic test.\<close>

definition log_matches :: "log_filter \<Rightarrow> rpc_log \<Rightarrow> bool" where
  "log_matches f l \<longleftrightarrow>
     (case fl_address f of
        Some (Single a) \<Rightarrow> rl_address l = a
      | Some (Multiple as) \<Rightarrow> rl_address l \<in> set as
      | _ \<Rightarrow> True) \<and>
     filter_topics (filtered_params_new (Some f)) l = (Ok True :: bool rpc)"

text \<open>The topic test as a plain truth value: it never panics, and it reads only the topics.\<close>

fun topics_value :: "h256 list \<Rightarrow> flat_topic list \<Rightarrow> bool \<Rightarrow> bool" where
  "topics_value ts [] out = out"
| "topics_value ts (Single s # rest) out =
     topics_value ts rest (case s of Some x \<Rightarrow> starts_with ts [x] \<and> out | None \<Rightarrow> out)"
| "topics_value ts (Multiple p # rest) out =
     (if length ts < length (shrink p) then False
      else if shrink p = [] then topics_value ts rest out
      else flat_match p ts \<or> topics_value ts rest False)"
| "topics_value ts (Null # rest) out = topics_value ts rest True"

lemma filter_topics_loop_value:
  "filter_topics_loop log ts out = Ok (topics_value (rl_topics log) ts out)"
proof (induction ts arbitrary: out)
  case (Cons t ts)
  then show ?case
    by (cases t)
      (auto simp: filter_topics_loop_Multiple simp del: filter_topics_loop.simps(3) split: option.splits)
qed simp

lemma log_passes_eq: "log_passes (filtered_params_new (Some f)) f l = Ok (log_matches f l)"
  by (auto simp: log_passes_def log_matches_def filter_topics_def filter_topics_loop_value
      filter_address_def filtered_params_new_def split: option.splits variadic.splits)

lemma log_matches_located [simp]: "log_matches f (located_log L b st k i l) \<longleftrightarrow> log_matches f (bare_log l)"
  by (simp add: log_matches_def located_log_def filter_topics_def filter_topics_loop_value
      split: option.split variadic.split)

lemma status_logs_eq:
  "status_logs (filtered_params_new (Some f)) f (header_keccak L (bk_header b)) b st ls
     (word_of_nat i) (word_of_nat k) ret =
   Ok (word_of_nat (k + length ls),
     ret @ filter (log_matches f) (map (\<lambda>(j, l). located_log L b st (k + (j - i)) j l) (enumerate i ls)))"
proof (induction ls arbitrary: i k ret)
  case (Cons l ls)
  have w: "word_of_nat i + 1 = (word_of_nat (Suc i) :: u32)" "word_of_nat k + 1 = (word_of_nat (Suc k) :: u32)"
    by (simp_all add: add.commute)
  have e: "map (\<lambda>(j, l). located_log L b st (Suc k + (j - Suc i)) j l) (enumerate (Suc i) ls) =
      map (\<lambda>(j, l). located_log L b st (k + (j - i)) j l) (enumerate (Suc i) ls)"
    by (intro map_cong refl) (auto simp: in_set_enumerate_eq simp flip: Suc_diff_le)
  have "status_logs (filtered_params_new (Some f)) f (header_keccak L (bk_header b)) b st (l # ls)
      (word_of_nat i) (word_of_nat k) ret =
    status_logs (filtered_params_new (Some f)) f (header_keccak L (bk_header b)) b st ls
      (word_of_nat (Suc i)) (word_of_nat (Suc k))
      (if log_matches f (bare_log l) then ret @ [located_log L b st k i l] else ret)"
    unfolding status_logs.simps log_passes_eq res_bind.simps w located_log_def ..
  then show ?case by (simp only: Cons.IH e) simp
qed simp

lemma block_logs_eq:
  "block_logs (filtered_params_new (Some f)) f (header_keccak L (bk_header b)) b sts (word_of_nat k) ret =
     Ok (ret @ filter (log_matches f) (numbered_logs L b sts k))"
proof (induction sts arbitrary: k ret)
  case (Cons st sts)
  have "status_logs (filtered_params_new (Some f)) f (header_keccak L (bk_header b)) b st (st_logs st) 0
      (word_of_nat k) ret = Ok (word_of_nat (k + length (st_logs st)),
        ret @ filter (log_matches f) (transaction_logs L b st k))"
    using status_logs_eq [of f L b st "st_logs st" 0 k ret]
    by (simp add: transaction_logs_def)
  then show ?case using Cons by (simp del: of_nat_add)
qed simp

text \<open>
  The logs built for a list of blocks are exactly the logs of their transactions that match the
  filter, in order, each with the hash and number of its block, the hash and index of its
  transaction, its position among all logs of the block and its position in the transaction.
\<close>

theorem logs_build_spec:
  "logs_build L f bs = Ok (filter (log_matches f) (concat (map (\<lambda>(b, sts). numbered_logs L b sts 0) bs)))"
proof -
  have "logs_build_loop L (filtered_params_new (Some f)) f bs ret =
      Ok (ret @ filter (log_matches f) (concat (map (\<lambda>(b, sts). numbered_logs L b sts 0) bs)))" for ret
  proof (induction bs arbitrary: ret)
    case (Cons x bs)
    obtain b sts where x: "x = (b, sts)" by (cases x)
    show ?case using Cons block_logs_eq [of f L b sts 0] by (simp add: x)
  qed simp
  then show ?thesis by (simp add: logs_build_def)
qed

section \<open>Witnesses\<close>

definition sample_text :: error_text where
  "sample_text = \<lparr>et_exit_error = (\<lambda>_. ''''), et_fatal = (\<lambda>s. s), et_hex = (\<lambda>_. '''')\<rparr>"

theorem revert_reason_shown_witness:
  "let data = replicate 4 1 @ replicate 32 2 @ be_bytes 32 (length [111, 107 :: u8]) @ [111, 107] @ [] in
   error_on_execution_failure sample_text Revert data =
     Err \<lparr>re_message = revert_text @ '' '' @ text_of [111, 107], re_data = Some (et_hex sample_text data)\<rparr>"
  by (rule revert_reason_shown) simp_all

definition signing_lib :: eth_lib where
  "signing_lib = sample_eth\<lparr>
     standard_v := (\<lambda>v. if v = 27 \<or> v = 28 \<or> v > 36 then ucast ((v - 1) mod 2) else 4),
     chain_id_of_v := (\<lambda>v. if v > 36 then Some ((v - 35) div 2) else None),
     message_hash := (\<lambda>_. 0),
     ecdsa_recover := (\<lambda>_ _. Some (replicate 64 7))\<rparr>"

definition signing_secp :: "(unit, unit) secp_lib" where
  "signing_secp = \<lparr>
     sp_public_serialize = (\<lambda>_. replicate 65 7),
     sp_message_hash = (\<lambda>_. 0),
     sp_parse_message = (\<lambda>b. if length b = 32 then Some () else None),
     sp_sign = (\<lambda>_ _. (replicate 64 3, 0)),
     sp_signature_new = (\<lambda>v r s. Some \<lparr>sig_v = v, sig_r = r, sig_s = s\<rparr>),
     sp_secret_parse = (\<lambda>_. Some ())\<rparr>"

lemma signing_ok: "secp_ok signing_lib signing_secp"
  by (auto simp: secp_ok_def signing_lib_def signing_secp_def split: if_splits)

definition sample_message :: transaction_message where
  "sample_message = \<lparr>tm_nonce = 1, tm_gas_price = 1, tm_gas_limit = 21000, tm_action = Action_Create,
     tm_value = 0, tm_input = [], tm_chain_id = Some 42\<rparr>"

theorem dev_signature_recovers_witness:
  "\<exists>a t. dev_sign signing_lib signing_secp [()] sample_message a = Ok t \<and>
     recover_signer signing_lib t = Some a"
proof -
  obtain a where a: "key_address signing_lib signing_secp () = Ok a"
    by (simp add: key_address_eq signing_secp_def)
  then obtain t where t: "dev_sign signing_lib signing_secp [()] sample_message a = Ok t"
    by (simp add: signing_secp_def)
  have f: "chain_id_fits (tm_chain_id sample_message)"
    "\<forall>k \<in> set [()]. \<forall>mm. sp_parse_message signing_secp (h256_bytes (sp_message_hash signing_secp sample_message)) =
      Some mm \<longrightarrow> snd (sp_sign signing_secp mm k) < 2"
    by (simp_all add: chain_id_fits_def sample_message_def signing_secp_def)
  from dev_signature_recovers [OF signing_ok t f] t show ?thesis by blast
qed

end
