(* ===== verification/Rpc_Runtime.thy ===== *)
theory Rpc_Runtime
  imports Rpc_Build
begin

text \<open>
  What the RPC reads of the chain. The runtime API of \<open>runtime/src/lib.rs\<close> is written out
  over the state of the two pallets; \<open>runtime_api\<close> is the interface through which the client
  calls it at a block, and \<open>client_api\<close> builds it from the states of the blocks. The storage
  overrides of \<open>client/rpc/src/overrides\<close> answer the same questions, one through the runtime
  API and one by reading the raw storage of schema V1. Raw storage, the storage hashers and the
  SCALE decoders are parameters; \<open>v1_layout\<close> says how the pallets' storage lies in it.
\<close>

section \<open>The runtime API\<close>

datatype block_id = Id_Hash h256 | Id_Number u32

definition runtime_CHAIN_ID :: u64 where "runtime_CHAIN_ID = 888"

definition fixed_min_gas_price :: u256 where "fixed_min_gas_price = 1"

definition runtime_BLOCK_GAS_LIMIT :: u256 where
  "runtime_BLOCK_GAS_LIMIT = ucast (- 1 :: u32)"

text \<open>
  \<open>EthereumFindAuthor\<close>: the authority at the index the consensus engine gives, whose raw key is
  cut to bytes 4 to 23. The engine and its authorities (as raw keys) are parameters.
\<close>

definition ethereum_find_author ::
  "('d list \<Rightarrow> u32 option) \<Rightarrow> bytes list \<Rightarrow> 'd list \<Rightarrow> ('e, h160 option) res" where
  "ethereum_find_author F authorities digests =
     (case F digests of
        Some author_index \<Rightarrow>
          res_bind (index_at authorities (unat author_index)) (\<lambda>authority_id.
          res_bind (slice authority_id 4 24) (\<lambda>a. Ok (Some (word_of_nat (be_val a)))))
      | None \<Rightarrow> Ok None)"

definition runtime_account_basic ::
  "(('acct, 'h) evm_store, 'c) storage_api \<Rightarrow> ('acct, 'h, 'neg, 'pos) host_api \<Rightarrow>
     ('acct, 'o, 'csucc, 'h) evm_cfg \<Rightarrow> h160 \<Rightarrow> ('d, 'c) eth_state \<Rightarrow> account" where
  "runtime_account_basic A H K address s = account_basic H K address (view A (evm s))"

definition runtime_gas_price ::
  "(('acct, 'h) evm_store, 'c) storage_api \<Rightarrow> ('acct, 'o, 'csucc, 'h) evm_cfg \<Rightarrow>
     ('d, 'c) eth_state \<Rightarrow> u256" where
  "runtime_gas_price A K s = cfg_min_gas_price K (host (view A (evm s)))"

definition runtime_account_code_at ::
  "(('acct, 'h) evm_store, 'c) storage_api \<Rightarrow> h160 \<Rightarrow> ('d, 'c) eth_state \<Rightarrow> bytes" where
  "runtime_account_code_at A address s =
     (case codes (view A (evm s)) address of Some code \<Rightarrow> code | None \<Rightarrow> [])"

definition runtime_storage_at ::
  "(('acct, 'h) evm_store, 'c) storage_api \<Rightarrow> h160 \<Rightarrow> u256 \<Rightarrow> ('d, 'c) eth_state \<Rightarrow> h256" where
  "runtime_storage_at A address index s =
     (let tmp = be_bytes 32 (unat index) in
      case storages (view A (evm s)) address (h256_from_slice tmp) of Some v \<Rightarrow> v | None \<Rightarrow> 0)"

text \<open>Two runners: the configuration of the EVM with and without the estimate flag.\<close>

definition runtime_call ::
  "(bool \<Rightarrow> 'c runner) \<Rightarrow> h160 \<Rightarrow> h160 \<Rightarrow> bytes \<Rightarrow> u256 \<Rightarrow> u256 \<Rightarrow> u256 option \<Rightarrow> u256 option \<Rightarrow> bool \<Rightarrow>
     (('d, 'c) eth_state, dispatch_error, call_info) act" where
  "runtime_call R from to data value gas_limit gas_price nonce estimate =
     on_evm (runner_call (R estimate) from to data value (low_u64 gas_limit) gas_price nonce)"

definition runtime_create ::
  "(bool \<Rightarrow> 'c runner) \<Rightarrow> h160 \<Rightarrow> bytes \<Rightarrow> u256 \<Rightarrow> u256 \<Rightarrow> u256 option \<Rightarrow> u256 option \<Rightarrow> bool \<Rightarrow>
     (('d, 'c) eth_state, dispatch_error, create_info) act" where
  "runtime_create R from data value gas_limit gas_price nonce estimate =
     on_evm (runner_create (R estimate) from data value (low_u64 gas_limit) gas_price nonce)"

definition runtime_current_all ::
  "('d, 'c) eth_state \<Rightarrow> block option \<times> receipt list option \<times> transaction_status list option" where
  "runtime_current_all s = (cur_block s, cur_receipts s, cur_statuses s)"

section \<open>The client's view of it\<close>

text \<open>
  A call of the runtime API at a block, \<open>client.runtime_api()\<close>: an error of the client is the
  text its debug format gives. A call that changes the state is thrown away with its overlay.
\<close>

record runtime_api =
  ra_chain_id :: "block_id \<Rightarrow> (string, u64) res"
  ra_account_basic :: "block_id \<Rightarrow> h160 \<Rightarrow> (string, account) res"
  ra_gas_price :: "block_id \<Rightarrow> (string, u256) res"
  ra_account_code_at :: "block_id \<Rightarrow> h160 \<Rightarrow> (string, bytes) res"
  ra_storage_at :: "block_id \<Rightarrow> h160 \<Rightarrow> u256 \<Rightarrow> (string, h256) res"
  ra_call :: "block_id \<Rightarrow> h160 \<Rightarrow> h160 \<Rightarrow> bytes \<Rightarrow> u256 \<Rightarrow> u256 \<Rightarrow> u256 option \<Rightarrow> u256 option \<Rightarrow> bool \<Rightarrow>
    (string, (string, call_info) res) res"
  ra_create :: "block_id \<Rightarrow> h160 \<Rightarrow> bytes \<Rightarrow> u256 \<Rightarrow> u256 \<Rightarrow> u256 option \<Rightarrow> u256 option \<Rightarrow> bool \<Rightarrow>
    (string, (string, create_info) res) res"
  ra_current_block :: "block_id \<Rightarrow> (string, block option) res"
  ra_current_receipts :: "block_id \<Rightarrow> (string, receipt list option) res"
  ra_current_statuses :: "block_id \<Rightarrow> (string, transaction_status list option) res"
  ra_current_all :: "block_id \<Rightarrow>
    (string, block option \<times> receipt list option \<times> transaction_status list option) res"

definition client_api ::
  "(('acct, 'h) evm_store, 'c) storage_api \<Rightarrow> ('acct, 'h, 'neg, 'pos) host_api \<Rightarrow>
     ('acct, 'o, 'csucc, 'h) evm_cfg \<Rightarrow> (bool \<Rightarrow> 'c runner) \<Rightarrow> (dispatch_error \<Rightarrow> string) \<Rightarrow>
     (block_id \<Rightarrow> (string, ('d, 'c) eth_state) res) \<Rightarrow> runtime_api" where
  "client_api A H K R show_error state_at = \<lparr>
     ra_chain_id = (\<lambda>id. map_ok (\<lambda>s. cfg_chain_id K) (state_at id)),
     ra_account_basic = (\<lambda>id a. map_ok (runtime_account_basic A H K a) (state_at id)),
     ra_gas_price = (\<lambda>id. map_ok (runtime_gas_price A K) (state_at id)),
     ra_account_code_at = (\<lambda>id a. map_ok (runtime_account_code_at A a) (state_at id)),
     ra_storage_at = (\<lambda>id a i. map_ok (runtime_storage_at A a i) (state_at id)),
     ra_call = (\<lambda>id f t d v g p n e.
       map_ok (\<lambda>s. map_err show_error (fst (runtime_call R f t d v g p n e s))) (state_at id)),
     ra_create = (\<lambda>id f d v g p n e.
       map_ok (\<lambda>s. map_err show_error (fst (runtime_create R f d v g p n e s))) (state_at id)),
     ra_current_block = (\<lambda>id. map_ok cur_block (state_at id)),
     ra_current_receipts = (\<lambda>id. map_ok cur_receipts (state_at id)),
     ra_current_statuses = (\<lambda>id. map_ok cur_statuses (state_at id)),
     ra_current_all = (\<lambda>id. map_ok runtime_current_all (state_at id))\<rparr>"

section \<open>Storage overrides\<close>

record storage_override =
  so_account_code_at :: "block_id \<Rightarrow> h160 \<Rightarrow> bytes option"
  so_storage_at :: "block_id \<Rightarrow> h160 \<Rightarrow> u256 \<Rightarrow> h256 option"
  so_current_block :: "block_id \<Rightarrow> block option"
  so_current_receipts :: "block_id \<Rightarrow> receipt list option"
  so_current_statuses :: "block_id \<Rightarrow> transaction_status list option"

fun ok_option :: "('e, 'a) res \<Rightarrow> 'a option" where
  "ok_option (Ok a) = Some a"
| "ok_option (Err _) = None"
| "ok_option Panic = None"

definition runtime_override :: "runtime_api \<Rightarrow> storage_override" where
  "runtime_override api = \<lparr>
     so_account_code_at = (\<lambda>b address. ok_option (ra_account_code_at api b address)),
     so_storage_at = (\<lambda>b address index. ok_option (ra_storage_at api b address index)),
     so_current_block = (\<lambda>b. Option.bind (ok_option (ra_current_block api b)) id),
     so_current_receipts = (\<lambda>b. Option.bind (ok_option (ra_current_receipts api b)) id),
     so_current_statuses = (\<lambda>b. Option.bind (ok_option (ra_current_statuses api b)) id)\<rparr>"

record raw_storage =
  rs_storage :: "block_id \<Rightarrow> bytes \<Rightarrow> (string, bytes option) res"
  rs_twox_128 :: "bytes \<Rightarrow> bytes"
  rs_blake2_128 :: "bytes \<Rightarrow> bytes"
  rs_decode_bytes :: "bytes \<Rightarrow> bytes option"
  rs_decode_h256 :: "bytes \<Rightarrow> h256 option"
  rs_decode_block :: "bytes \<Rightarrow> block option"
  rs_decode_receipts :: "bytes \<Rightarrow> receipt list option"
  rs_decode_statuses :: "bytes \<Rightarrow> transaction_status list option"
  rs_decode_schema :: "bytes \<Rightarrow> storage_schema option"

definition ascii :: "string \<Rightarrow> bytes" where
  "ascii s = map (\<lambda>c. of_char c) s"

definition storage_prefix_build :: "raw_storage \<Rightarrow> bytes \<Rightarrow> bytes \<Rightarrow> bytes" where
  "storage_prefix_build S module storage = rs_twox_128 S module @ rs_twox_128 S storage"

definition blake2_128_extend :: "raw_storage \<Rightarrow> bytes \<Rightarrow> bytes" where
  "blake2_128_extend S bs = rs_blake2_128 S bs @ bs"

definition query_storage :: "raw_storage \<Rightarrow> (bytes \<Rightarrow> 'a option) \<Rightarrow> block_id \<Rightarrow> bytes \<Rightarrow> 'a option" where
  "query_storage S decode b key =
     (case rs_storage S b key of
        Ok (Some data) \<Rightarrow> (case decode data of Some result \<Rightarrow> Some result | None \<Rightarrow> None)
      | _ \<Rightarrow> None)"

definition v1_account_code_at :: "raw_storage \<Rightarrow> block_id \<Rightarrow> h160 \<Rightarrow> bytes option" where
  "v1_account_code_at S b address =
     (let key = storage_prefix_build S (ascii ''EVM'') (ascii ''AccountCodes'') @
                blake2_128_extend S (h160_bytes address)
      in query_storage S (rs_decode_bytes S) b key)"

definition v1_storage_at :: "raw_storage \<Rightarrow> block_id \<Rightarrow> h160 \<Rightarrow> u256 \<Rightarrow> h256 option" where
  "v1_storage_at S b address index =
     (let tmp = le_bytes 32 (unat index);
          key = storage_prefix_build S (ascii ''EVM'') (ascii ''AccountStorages'') @
                blake2_128_extend S (h160_bytes address) @ blake2_128_extend S tmp
      in query_storage S (rs_decode_h256 S) b key)"

definition v1_current_block :: "raw_storage \<Rightarrow> block_id \<Rightarrow> block option" where
  "v1_current_block S b =
     query_storage S (rs_decode_block S) b
       (storage_prefix_build S (ascii ''Ethereum'') (ascii ''CurrentBlock''))"

definition v1_current_receipts :: "raw_storage \<Rightarrow> block_id \<Rightarrow> receipt list option" where
  "v1_current_receipts S b =
     query_storage S (rs_decode_receipts S) b
       (storage_prefix_build S (ascii ''Ethereum'') (ascii ''CurrentReceipts''))"

definition v1_current_transaction_statuses :: "raw_storage \<Rightarrow> block_id \<Rightarrow> transaction_status list option" where
  "v1_current_transaction_statuses S b =
     query_storage S (rs_decode_statuses S) b
       (storage_prefix_build S (ascii ''Ethereum'') (ascii ''CurrentTransactionStatuses''))"

definition schema_v1_override :: "raw_storage \<Rightarrow> storage_override" where
  "schema_v1_override S = \<lparr>
     so_account_code_at = v1_account_code_at S,
     so_storage_at = v1_storage_at S,
     so_current_block = v1_current_block S,
     so_current_receipts = v1_current_receipts S,
     so_current_statuses = v1_current_transaction_statuses S\<rparr>"

definition PALLET_ETHEREUM_SCHEMA :: bytes where
  "PALLET_ETHEREUM_SCHEMA = ascii '':ethereum_schema''"

definition onchain_storage_schema :: "raw_storage \<Rightarrow> block_id \<Rightarrow> storage_schema" where
  "onchain_storage_schema S at =
     (case rs_storage S at PALLET_ETHEREUM_SCHEMA of
        Ok (Some b) \<Rightarrow> (case rs_decode_schema S b of Some x \<Rightarrow> x | None \<Rightarrow> Schema_Undefined)
      | _ \<Rightarrow> Schema_Undefined)"

section \<open>The two overrides compared\<close>

text \<open>
  The storage layout FRAME documents for schema V1: an entry of the store lies under its prefix and
  its hashed keys, and decodes to the value. The keys of \<open>AccountStorages\<close> are 32-byte hashes.
\<close>

definition entry :: "raw_storage \<Rightarrow> (bytes \<Rightarrow> 'a option) \<Rightarrow> block_id \<Rightarrow> bytes \<Rightarrow> 'a option \<Rightarrow> bool" where
  "entry S decode b key v \<longleftrightarrow>
     (case v of
        None \<Rightarrow> rs_storage S b key = Ok None
      | Some x \<Rightarrow> \<exists>raw. rs_storage S b key = Ok (Some raw) \<and> decode raw = Some x)"

definition v1_layout ::
  "(('acct, 'h) evm_store, 'c) storage_api \<Rightarrow> raw_storage \<Rightarrow> block_id \<Rightarrow> ('d, 'c) eth_state \<Rightarrow> bool" where
  "v1_layout A S b s \<longleftrightarrow>
     (\<forall>a. entry S (rs_decode_bytes S) b
        (storage_prefix_build S (ascii ''EVM'') (ascii ''AccountCodes'') @
         blake2_128_extend S (h160_bytes a)) (codes (view A (evm s)) a)) \<and>
     (\<forall>a h. entry S (rs_decode_h256 S) b
        (storage_prefix_build S (ascii ''EVM'') (ascii ''AccountStorages'') @
         blake2_128_extend S (h160_bytes a) @ blake2_128_extend S (h256_bytes h))
        (storages (view A (evm s)) a h)) \<and>
     entry S (rs_decode_block S) b
       (storage_prefix_build S (ascii ''Ethereum'') (ascii ''CurrentBlock'')) (cur_block s) \<and>
     entry S (rs_decode_receipts S) b
       (storage_prefix_build S (ascii ''Ethereum'') (ascii ''CurrentReceipts'')) (cur_receipts s) \<and>
     entry S (rs_decode_statuses S) b
       (storage_prefix_build S (ascii ''Ethereum'') (ascii ''CurrentTransactionStatuses''))
       (cur_statuses s)"

lemma query_entry: "entry S decode b key v \<Longrightarrow> query_storage S decode b key = v"
  by (auto simp: entry_def query_storage_def split: option.splits)

definition byte_swap :: "u256 \<Rightarrow> u256" where
  "byte_swap i = word_of_nat (be_val (le_bytes 32 (unat i)))"

text \<open>
  C38: the override that reads raw storage agrees with the runtime API on blocks, receipts, statuses
  and code, but it looks a storage slot up under the little-endian bytes of its index, so it answers
  with the slot whose index has the bytes reversed.
\<close>

theorem schema_v1_agrees:
  fixes s :: "('d, 'c) eth_state" and A :: "(('acct, 'h) evm_store, 'c) storage_api"
  assumes "v1_layout A S b s" "state_at b = Ok s"
  shows "let v1 = schema_v1_override S; rt = runtime_override (client_api A H K R show_error state_at) in
    so_current_block v1 b = so_current_block rt b \<and>
    so_current_receipts v1 b = so_current_receipts rt b \<and>
    so_current_statuses v1 b = so_current_statuses rt b \<and>
    case_option [] id (so_account_code_at v1 b a) = case_option [] id (so_account_code_at rt b a) \<and>
    case_option 0 id (so_storage_at v1 b a i) = case_option 0 id (so_storage_at rt b a (byte_swap i))"
proof -
  have e: "query_storage S (rs_decode_block S) b
       (storage_prefix_build S (ascii ''Ethereum'') (ascii ''CurrentBlock'')) = cur_block s"
    "query_storage S (rs_decode_receipts S) b
       (storage_prefix_build S (ascii ''Ethereum'') (ascii ''CurrentReceipts'')) = cur_receipts s"
    "query_storage S (rs_decode_statuses S) b
       (storage_prefix_build S (ascii ''Ethereum'') (ascii ''CurrentTransactionStatuses'')) = cur_statuses s"
    "query_storage S (rs_decode_bytes S) b
       (storage_prefix_build S (ascii ''EVM'') (ascii ''AccountCodes'') @
        blake2_128_extend S (h160_bytes a)) = codes (view A (evm s)) a"
    "query_storage S (rs_decode_h256 S) b
       (storage_prefix_build S (ascii ''EVM'') (ascii ''AccountStorages'') @
        blake2_128_extend S (h160_bytes a) @ blake2_128_extend S (h256_bytes h)) =
      storages (view A (evm s)) a h" for h
    using assms(1) by (simp_all add: v1_layout_def query_entry)
  have le: "le_bytes 32 (unat i) = h256_bytes (h256_from_slice (le_bytes 32 (unat i)))"
    by (simp add: h256_bytes_from_slice)
  have swap: "h256_from_slice (be_bytes 32 (unat (byte_swap i))) = h256_from_slice (le_bytes 32 (unat i))"
    using h256_from_slice_bytes [of "byte_swap i"]
    by (simp add: h256_bytes_def byte_swap_def h256_from_slice_def)
  have "v1_storage_at S b a i = storages (view A (evm s)) a (h256_from_slice (le_bytes 32 (unat i)))"
    unfolding v1_storage_at_def Let_def by (subst le) (rule e(5))
  then show ?thesis
    by (simp add: schema_v1_override_def runtime_override_def client_api_def assms(2) e swap
        v1_current_block_def v1_current_receipts_def v1_current_transaction_statuses_def
        v1_account_code_at_def runtime_account_code_at_def runtime_storage_at_def Let_def
        split: option.splits)
qed

section \<open>Witness\<close>

text \<open>A state with an empty list of receipts and a raw storage that holds just them.\<close>

definition receipts_key :: bytes where
  "receipts_key = ascii ''EthereumCurrentReceipts''"

definition sample_raw :: raw_storage where
  "sample_raw = \<lparr>
     rs_storage = (\<lambda>_ key. Ok (if key = receipts_key then Some [0] else None)),
     rs_twox_128 = (\<lambda>b. b), rs_blake2_128 = (\<lambda>_. []),
     rs_decode_bytes = (\<lambda>b. Some b), rs_decode_h256 = (\<lambda>b. Some (h256_from_slice b)),
     rs_decode_block = (\<lambda>_. None), rs_decode_receipts = (\<lambda>_. Some []),
     rs_decode_statuses = (\<lambda>_. None), rs_decode_schema = (\<lambda>_. Some Schema_V1)\<rparr>"

definition blank_state :: "(log, sample_c) eth_state" where
  "blank_state = sample_eth_state\<lparr>cur_receipts := Some [],
     evm := (sample_store\<lparr>codes := (\<lambda>_. None), storages := (\<lambda>_ _. None)\<rparr>, [])\<rparr>"

lemma sample_layout: "v1_layout sample_storage sample_raw b blank_state"
  by (simp add: v1_layout_def entry_def sample_raw_def blank_state_def sample_eth_state_def sample_storage_def
      storage_prefix_build_def blake2_128_extend_def receipts_key_def ascii_def)

theorem schema_v1_agrees_witness:
  "so_current_receipts (schema_v1_override sample_raw) (Id_Number 3) =
     so_current_receipts (runtime_override (client_api sample_storage sample_host sample_cfg
       (\<lambda>_. sample_runner) (\<lambda>_. '''') (\<lambda>_. Ok blank_state))) (Id_Number 3)"
  using schema_v1_agrees [OF sample_layout, of "\<lambda>_. Ok blank_state" "Id_Number 3"
      sample_host sample_cfg "\<lambda>_. sample_runner" "\<lambda>_. ''''"]
  by (simp add: Let_def)

end
