(* ===== verification/Rpc_Eth.thy ===== *)
theory Rpc_Eth
  imports Rpc_Runtime Mapping_Sync
begin

text \<open>
  The Ethereum RPC, \<open>EthApi\<close> of \<open>client/rpc/src/eth.rs\<close>: how a block is named, blocks,
  accounts, transactions, receipts, calls and gas estimates, sending transactions, and logs. The
  record \<open>eth_api\<close> has the node's handles: the client's chain information and runtime API, the
  mapping database, the storage overrides, the signers and the transaction pool. A method that
  answers without changing anything is a function of it; sending a transaction acts on the pool and
  the map of pending transactions. Block numbers of the node have 32 bits.
\<close>

section \<open>The handles of the API\<close>

record 'db eth_api =
  ea_best_hash :: h256
  ea_best_number :: u32
  ea_number :: "h256 \<Rightarrow> (string, u32 option) res"
  ea_header_hash :: "u32 \<Rightarrow> (string, h256 option) res"
  ea_runtime :: runtime_api
  ea_raw :: raw_storage
  ea_overrides :: "storage_schema \<Rightarrow> storage_override option"
  ea_backend :: "'db backend"
  ea_db :: 'db
  ea_is_authority :: bool
  ea_is_major_syncing :: bool
  ea_signers :: "signer list"
  ea_ready_tags :: "bytes list list"
  ea_encode_tag :: "h160 \<Rightarrow> u256 \<Rightarrow> bytes"
  ea_rlp_block :: "block \<Rightarrow> bytes"
  ea_show_error :: "rpc_error \<Rightarrow> string"

text \<open>A value behind a mutex; a poisoned lock cannot be taken.\<close>

record 'a mutex =
  mx_poisoned :: bool
  mx_value :: 'a

type_synonym pending_map = "(h256 \<Rightarrow> pending_transaction option) mutex option"

section \<open>Naming blocks\<close>

definition is_canon :: "'db eth_api \<Rightarrow> h256 \<Rightarrow> bool" where
  "is_canon E target_hash =
     (case ea_number E target_hash of
        Ok (Some number) \<Rightarrow>
          (case ea_header_hash E number of
             Ok (Some hash) \<Rightarrow> hash = target_hash
           | _ \<Rightarrow> False)
      | _ \<Rightarrow> False)"

definition load_hash :: "'db eth_api \<Rightarrow> h256 \<Rightarrow> block_id option rpc" where
  "load_hash E hash =
     res_bind (map_err (\<lambda>err. internal_err (''fetch aux store failed: '' @ debug_string err))
       (be_block_hashes (ea_backend E) hash (ea_db E))) (\<lambda>hashes.
     let out = filter (is_canon E) hashes in
     if length out = 1 then Ok (Some (Id_Hash (out ! 0))) else Ok None)"

definition native_block_id :: "'db eth_api \<Rightarrow> block_number option \<Rightarrow> block_id option rpc" where
  "native_block_id E number =
     (case (case number of Some n \<Rightarrow> n | None \<Rightarrow> BN_Latest) of
        BN_Hash hash _ \<Rightarrow>
          (case load_hash E hash of Ok x \<Rightarrow> Ok x | Err _ \<Rightarrow> Ok None | Panic \<Rightarrow> Panic)
      | BN_Num n \<Rightarrow> Ok (Some (Id_Number (saturated_into n)))
      | BN_Latest \<Rightarrow> Ok (Some (Id_Hash (ea_best_hash E)))
      | BN_Earliest \<Rightarrow> Ok (Some (Id_Number 0))
      | BN_Pending \<Rightarrow> Ok None)"

definition load_transactions :: "'db eth_api \<Rightarrow> h256 \<Rightarrow> (h256 \<times> u32) option rpc" where
  "load_transactions E tx_hash =
     res_bind (map_err (\<lambda>err. internal_err (''fetch aux store failed: '' @ debug_string err))
       (be_transaction_metadata (ea_backend E) tx_hash (ea_db E))) (\<lambda>metadata.
     if length metadata = 1 then
       Ok (Some (tm_ethereum_block_hash (metadata ! 0), tm_ethereum_index (metadata ! 0)))
     else Ok None)"

text \<open>The override for the schema of a block, or the runtime API.\<close>

definition handler :: "'db eth_api \<Rightarrow> block_id \<Rightarrow> storage_override" where
  "handler E at =
     (case ea_overrides E (onchain_storage_schema (ea_raw E) at) of
        Some h \<Rightarrow> h
      | None \<Rightarrow> runtime_override (ea_runtime E))"

text \<open>\<open>load_hash(hash).map_err(|err| internal_err(format!("{:?}", err)))\<close>.\<close>

definition rewrap :: "'db eth_api \<Rightarrow> 'a rpc \<Rightarrow> 'a rpc" where
  "rewrap E = map_err (\<lambda>err. internal_err (ea_show_error E err))"

section \<open>Chain and accounts\<close>

definition protocol_version :: "u64 rpc" where "protocol_version = Ok 1"

definition syncing :: "'db eth_api \<Rightarrow> sync_status rpc" where
  "syncing E =
     (if ea_is_major_syncing E then
        let block_number = (ucast (saturated_into (ea_best_number E) :: u128) :: u256) in
        Ok (Sync_Info \<lparr>si_starting_block = 0, si_current_block = block_number,
          si_highest_block = block_number, si_warp_chunks_amount = None,
          si_warp_chunks_processed = None\<rparr>)
      else Ok Sync_None)"

definition author :: "'db eth_api \<Rightarrow> h160 rpc" where
  "author E =
     (let block = Id_Hash (ea_best_hash E) in
      res_bind (ok_or (so_current_block (handler E block) block)
        (internal_err ''fetching author through override failed'')) (\<lambda>b.
      Ok (hd_beneficiary (bk_header b))))"

definition is_mining :: "'db eth_api \<Rightarrow> bool rpc" where "is_mining E = Ok (ea_is_authority E)"

definition chain_id :: "'db eth_api \<Rightarrow> u64 option rpc" where
  "chain_id E =
     map_ok Some (map_err (\<lambda>err. internal_err (''fetch runtime chain id failed: '' @ err))
       (ra_chain_id (ea_runtime E) (Id_Hash (ea_best_hash E))))"

definition gas_price :: "'db eth_api \<Rightarrow> u256 rpc" where
  "gas_price E =
     map_err (\<lambda>err. internal_err (''fetch runtime chain id failed: '' @ err))
       (ra_gas_price (ea_runtime E) (Id_Hash (ea_best_hash E)))"

definition accounts :: "'db eth_api \<Rightarrow> h160 list rpc" where
  "accounts E = Ok (concat (map sg_accounts (ea_signers E)))"

definition block_number_of :: "'db eth_api \<Rightarrow> u256 rpc" where
  "block_number_of E = Ok (ucast (saturated_into (ea_best_number E) :: u128))"

definition balance :: "'db eth_api \<Rightarrow> h160 \<Rightarrow> block_number option \<Rightarrow> u256 rpc" where
  "balance E address number =
     (case native_block_id E number of
        Ok (Some bid) \<Rightarrow>
          map_ok ac_balance (map_err (\<lambda>err. internal_err (''fetch runtime chain id failed: '' @ err))
            (ra_account_basic (ea_runtime E) bid address))
      | Panic \<Rightarrow> Panic
      | _ \<Rightarrow> Ok 0)"

definition storage_at :: "'db eth_api \<Rightarrow> h160 \<Rightarrow> u256 \<Rightarrow> block_number option \<Rightarrow> h256 rpc" where
  "storage_at E address index number =
     (case native_block_id E number of
        Ok (Some bid) \<Rightarrow>
          Ok (case so_storage_at (handler E bid) bid address index of Some v \<Rightarrow> v | None \<Rightarrow> 0)
      | Panic \<Rightarrow> Panic
      | _ \<Rightarrow> Ok 0)"

definition code_at :: "'db eth_api \<Rightarrow> h160 \<Rightarrow> block_number option \<Rightarrow> bytes rpc" where
  "code_at E address number =
     (case native_block_id E number of
        Ok (Some bid) \<Rightarrow>
          Ok (case so_account_code_at (handler E bid) bid address of Some c \<Rightarrow> c | None \<Rightarrow> [])
      | Panic \<Rightarrow> Panic
      | _ \<Rightarrow> Ok [])"

text \<open>The nonce after the ready transactions of the account, in the order of the pool.\<close>

fun ready_nonce :: "(h160 \<Rightarrow> u256 \<Rightarrow> bytes) \<Rightarrow> h160 \<Rightarrow> bytes list list \<Rightarrow> u256 \<Rightarrow> u256" where
  "ready_nonce encode_tag address [] current_nonce = current_nonce"
| "ready_nonce encode_tag address (provides # rest) current_nonce =
     (if provides \<noteq> [] \<and> hd provides = encode_tag address current_nonce
      then ready_nonce encode_tag address rest (saturating_add current_nonce 1)
      else ready_nonce encode_tag address rest current_nonce)"

definition transaction_count :: "'db eth_api \<Rightarrow> h160 \<Rightarrow> block_number option \<Rightarrow> u256 rpc" where
  "transaction_count E address number =
     (if number = Some BN_Pending then
        res_bind (map_err (\<lambda>err. internal_err (''fetch runtime account basic failed: '' @ err))
          (ra_account_basic (ea_runtime E) (Id_Hash (ea_best_hash E)) address)) (\<lambda>account.
        Ok (ready_nonce (ea_encode_tag E) address (ea_ready_tags E) (ac_nonce account)))
      else
        res_bind (native_block_id E number) (\<lambda>bid.
          case bid of
            None \<Rightarrow> Ok 0
          | Some bid \<Rightarrow>
              map_ok ac_nonce (map_err (\<lambda>err. internal_err (''fetch runtime account basic failed: '' @ err))
                (ra_account_basic (ea_runtime E) bid address))))"

section \<open>Blocks and transactions\<close>

definition block_by_hash :: "eth_lib \<Rightarrow> 'db eth_api \<Rightarrow> h256 \<Rightarrow> bool \<Rightarrow> rpc_block option rpc" where
  "block_by_hash L E hash full =
     res_bind (rewrap E (load_hash E hash)) (\<lambda>bid.
       case bid of
         None \<Rightarrow> Ok None
       | Some bid \<Rightarrow>
           (case (so_current_block (handler E bid) bid, so_current_statuses (handler E bid) bid) of
              (Some block, Some statuses) \<Rightarrow>
                map_ok Some (rich_block_build L (ea_rlp_block E) block (map Some statuses) (Some hash) full)
            | _ \<Rightarrow> Ok None))"

definition block_by_number :: "eth_lib \<Rightarrow> 'db eth_api \<Rightarrow> block_number \<Rightarrow> bool \<Rightarrow> rpc_block option rpc" where
  "block_by_number L E number full =
     res_bind (native_block_id E (Some number)) (\<lambda>bid.
       case bid of
         None \<Rightarrow> Ok None
       | Some bid \<Rightarrow>
           (case (so_current_block (handler E bid) bid, so_current_statuses (handler E bid) bid) of
              (Some block, Some statuses) \<Rightarrow>
                map_ok Some (rich_block_build L (ea_rlp_block E) block (map Some statuses)
                  (Some (header_keccak L (bk_header block))) full)
            | _ \<Rightarrow> Ok None))"

definition block_transaction_count_by_hash :: "'db eth_api \<Rightarrow> h256 \<Rightarrow> u256 option rpc" where
  "block_transaction_count_by_hash E hash =
     res_bind (rewrap E (load_hash E hash)) (\<lambda>bid.
       case bid of
         None \<Rightarrow> Ok None
       | Some bid \<Rightarrow>
           Ok (map_option (\<lambda>b. word_of_nat (length (bk_transactions b)))
             (so_current_block (handler E bid) bid)))"

definition block_transaction_count_by_number :: "'db eth_api \<Rightarrow> block_number \<Rightarrow> u256 option rpc" where
  "block_transaction_count_by_number E number =
     res_bind (native_block_id E (Some number)) (\<lambda>bid.
       case bid of
         None \<Rightarrow> Ok None
       | Some bid \<Rightarrow>
           Ok (map_option (\<lambda>b. word_of_nat (length (bk_transactions b)))
             (so_current_block (handler E bid) bid)))"

text \<open>The transaction and status at an index of a block, both read by index.\<close>

definition transaction_at :: "eth_lib \<Rightarrow> 'db eth_api \<Rightarrow> block_id \<Rightarrow> nat \<Rightarrow> rpc_transaction option rpc" where
  "transaction_at L E at index =
     (case (so_current_block (handler E at) at, so_current_statuses (handler E at) at) of
        (Some block, Some statuses) \<Rightarrow>
          res_bind (index_at (bk_transactions block) index) (\<lambda>t.
          res_bind (index_at statuses index) (\<lambda>status.
          Ok (Some (transaction_build L t (Some block) (Some status)))))
      | _ \<Rightarrow> Ok None)"

definition pending_lookup :: "pending_map \<Rightarrow> h256 \<Rightarrow> rpc_transaction option" where
  "pending_lookup pending hash =
     (case pending of
        Some m \<Rightarrow> if mx_poisoned m then None else map_option pt_transaction (mx_value m hash)
      | None \<Rightarrow> None)"

definition transaction_by_hash ::
  "eth_lib \<Rightarrow> 'db eth_api \<Rightarrow> pending_map \<Rightarrow> h256 \<Rightarrow> rpc_transaction option rpc" where
  "transaction_by_hash L E pending hash =
     res_bind (rewrap E (load_transactions E hash)) (\<lambda>found.
       case found of
         None \<Rightarrow> Ok (pending_lookup pending hash)
       | Some (hash, index) \<Rightarrow>
           res_bind (rewrap E (load_hash E hash)) (\<lambda>bid.
             case bid of
               None \<Rightarrow> Ok None
             | Some bid \<Rightarrow> transaction_at L E bid (unat index)))"

definition transaction_by_block_hash_and_index ::
  "eth_lib \<Rightarrow> 'db eth_api \<Rightarrow> h256 \<Rightarrow> u64 \<Rightarrow> rpc_transaction option rpc" where
  "transaction_by_block_hash_and_index L E hash index =
     res_bind (rewrap E (load_hash E hash)) (\<lambda>bid.
       case bid of
         None \<Rightarrow> Ok None
       | Some bid \<Rightarrow> transaction_at L E bid (unat index))"

definition transaction_by_block_number_and_index ::
  "eth_lib \<Rightarrow> 'db eth_api \<Rightarrow> block_number \<Rightarrow> u64 \<Rightarrow> rpc_transaction option rpc" where
  "transaction_by_block_number_and_index L E number index =
     res_bind (native_block_id E (Some number)) (\<lambda>bid.
       case bid of
         None \<Rightarrow> Ok None
       | Some bid \<Rightarrow> transaction_at L E bid (unat index))"

section \<open>Receipts\<close>

text \<open>\<open>as_u32\<close> panics above 32 bits; the sum wraps around.\<close>

fun sum_used_gas :: "receipt list \<Rightarrow> u32 \<Rightarrow> u32 rpc" where
  "sum_used_gas [] acc = Ok acc"
| "sum_used_gas (r # rs) acc =
     (if unat (rc_used_gas r) < 2 ^ 32 then sum_used_gas rs (acc + ucast (rc_used_gas r)) else Panic)"

definition receipt_logs ::
  "h256 \<Rightarrow> block \<Rightarrow> transaction_status \<Rightarrow> receipt \<Rightarrow> receipt list \<Rightarrow> rpc_log list" where
  "receipt_logs block_hash block status receipt cumulative_receipts =
     (let pre_receipts_log_index =
        (if length cumulative_receipts > 0 then
           Some (sum_list (map (\<lambda>r. word_of_nat (length (rc_logs r)) :: u32) (butlast cumulative_receipts)))
         else None) in
      map (\<lambda>(i, log). \<lparr>
          rl_address = log_address log, rl_topics = log_topics log, rl_data = log_data log,
          rl_block_hash = Some block_hash,
          rl_block_number = Some (hd_number (bk_header block)),
          rl_transaction_hash = Some (st_transaction_hash status),
          rl_transaction_index = Some (ucast (st_transaction_index status)),
          rl_log_index = Some (ucast
            ((case pre_receipts_log_index of Some x \<Rightarrow> x | None \<Rightarrow> 0) + (word_of_nat i :: u32))),
          rl_transaction_log_index = Some (word_of_nat i),
          rl_removed = False\<rparr>)
        (enumerate 0 (rc_logs receipt)))"

definition receipt_at :: "eth_lib \<Rightarrow> 'db eth_api \<Rightarrow> block_id \<Rightarrow> nat \<Rightarrow> rpc_receipt option rpc" where
  "receipt_at L E at index =
     (case (so_current_block (handler E at) at, so_current_statuses (handler E at) at,
            so_current_receipts (handler E at) at) of
        (Some block, Some statuses, Some receipts) \<Rightarrow>
          let block_hash = header_keccak L (bk_header block) in
          res_bind (index_at receipts index) (\<lambda>receipt.
          res_bind (index_at statuses index) (\<lambda>status.
          let cumulative_receipts = take (unat (st_transaction_index status + 1)) receipts in
          res_bind (sum_used_gas cumulative_receipts 0) (\<lambda>cumulative_gas.
          Ok (Some \<lparr>
            rr_transaction_hash = Some (st_transaction_hash status),
            rr_transaction_index = Some (ucast (st_transaction_index status)),
            rr_block_hash = Some block_hash,
            rr_from = Some (st_from status),
            rr_to = st_to status,
            rr_block_number = Some (hd_number (bk_header block)),
            rr_cumulative_gas_used = ucast cumulative_gas,
            rr_gas_used = Some (rc_used_gas receipt),
            rr_contract_address = st_contract_address status,
            rr_logs = receipt_logs block_hash block status receipt cumulative_receipts,
            rr_state_root = None,
            rr_logs_bloom = rc_logs_bloom receipt,
            rr_status_code = Some (ucast (rc_state_root receipt))\<rparr>))))
      | _ \<Rightarrow> Ok None)"

definition transaction_receipt :: "eth_lib \<Rightarrow> 'db eth_api \<Rightarrow> h256 \<Rightarrow> rpc_receipt option rpc" where
  "transaction_receipt L E hash =
     res_bind (rewrap E (load_transactions E hash)) (\<lambda>found.
       case found of
         None \<Rightarrow> Ok None
       | Some (hash, index) \<Rightarrow>
           res_bind (rewrap E (load_hash E hash)) (\<lambda>bid.
             case bid of
               None \<Rightarrow> Ok None
             | Some bid \<Rightarrow> receipt_at L E bid (unat index)))"

section \<open>Sending transactions\<close>

record ('p, 'x) pool_api =
  pl_convert :: "transaction \<Rightarrow> 'x"
  pl_submit :: "block_id \<Rightarrow> 'x \<Rightarrow> ('p, string, unit) act"

record 'p node_state =
  ns_pool :: 'p
  ns_pending :: pending_map

definition insert_pending :: "h256 \<Rightarrow> pending_transaction \<Rightarrow> pending_map \<Rightarrow> pending_map" where
  "insert_pending hash item pending =
     map_option (\<lambda>m. if mx_poisoned m then m else m\<lparr>mx_value := (mx_value m)(hash := Some item)\<rparr>) pending"

text \<open>Submitting to the pool at the best block; an accepted transaction is remembered as pending.\<close>

definition submit_transaction ::
  "eth_lib \<Rightarrow> 'db eth_api \<Rightarrow> ('p, 'x) pool_api \<Rightarrow> transaction \<Rightarrow> ('p node_state, rpc_error, h256) act" where
  "submit_transaction L E P transaction = (\<lambda>s.
     let tx_hash = transaction_hash L transaction in
     case pl_submit P (Id_Hash (ea_best_hash E)) (pl_convert P transaction) (ns_pool s) of
       (Ok _, pool) \<Rightarrow>
         (Ok tx_hash, \<lparr>ns_pool = pool,
            ns_pending = insert_pending tx_hash
              (pending_transaction_new (transaction_build L transaction None None)
                (saturated_into (ea_best_number E))) (ns_pending s)\<rparr>)
     | (Err err, pool) \<Rightarrow>
         (Err (internal_err (''submit transaction to pool failed: '' @ err)), s\<lparr>ns_pool := pool\<rparr>)
     | (Panic, pool) \<Rightarrow> (Panic, s\<lparr>ns_pool := pool\<rparr>))"

fun sign_with :: "signer list \<Rightarrow> transaction_message \<Rightarrow> h160 \<Rightarrow> transaction option rpc" where
  "sign_with [] message from = Ok None"
| "sign_with (signer # signers) message from =
     (if from \<in> set (sg_accounts signer) then map_ok Some (sg_sign signer message from)
      else sign_with signers message from)"

definition sending_account :: "'db eth_api \<Rightarrow> h160 option \<Rightarrow> h160 rpc" where
  "sending_account E from =
     (case from of
        Some from \<Rightarrow> Ok from
      | None \<Rightarrow>
          res_bind (accounts E) (\<lambda>accounts.
            case accounts of
              account # _ \<Rightarrow> Ok account
            | [] \<Rightarrow> Err (internal_err ''no signer available'')))"

definition request_message :: "'db eth_api \<Rightarrow> transaction_request \<Rightarrow> h160 \<Rightarrow> transaction_message rpc" where
  "request_message E request from =
     res_bind (case tr_nonce request of Some nonce \<Rightarrow> Ok nonce | None \<Rightarrow> transaction_count E from None) (\<lambda>nonce.
     res_bind (chain_id E) (\<lambda>chain_id.
     Ok \<lparr>tm_nonce = nonce,
         tm_gas_price = (case tr_gas_price request of Some p \<Rightarrow> p | None \<Rightarrow> 1),
         tm_gas_limit = (case tr_gas request of Some g \<Rightarrow> g | None \<Rightarrow> - 1),
         tm_action = (case tr_to request of Some to \<Rightarrow> Action_Call to | None \<Rightarrow> Action_Create),
         tm_value = (case tr_value request of Some v \<Rightarrow> v | None \<Rightarrow> 0),
         tm_input = (case tr_data request of Some d \<Rightarrow> d | None \<Rightarrow> []),
         tm_chain_id = chain_id\<rparr>))"

definition send_transaction ::
  "eth_lib \<Rightarrow> 'db eth_api \<Rightarrow> ('p, 'x) pool_api \<Rightarrow> transaction_request \<Rightarrow>
     ('p node_state, rpc_error, h256) act" where
  "send_transaction L E P request =
     act_bind (act_lift (sending_account E (tr_from request))) (\<lambda>from.
     act_bind (act_lift (request_message E request from)) (\<lambda>message.
     act_bind (act_lift (sign_with (ea_signers E) message from)) (\<lambda>transaction.
     case transaction of
       Some transaction \<Rightarrow> submit_transaction L E P transaction
     | None \<Rightarrow> act_fail (internal_err ''no signer available''))))"

definition send_raw_transaction ::
  "eth_lib \<Rightarrow> 'db eth_api \<Rightarrow> ('p, 'x) pool_api \<Rightarrow> (bytes \<Rightarrow> transaction option) \<Rightarrow> bytes \<Rightarrow>
     ('p node_state, rpc_error, h256) act" where
  "send_raw_transaction L E P rlp_decode bs =
     act_bind (act_lift (ok_or (rlp_decode bs) (internal_err ''decode transaction failed'')))
       (submit_transaction L E P)"

section \<open>Calls and gas estimates\<close>

definition call_gas_limit :: "call_request \<Rightarrow> u256" where
  "call_gas_limit request = (case cr_gas request of Some g \<Rightarrow> g | None \<Rightarrow> - 1)"

text \<open>\<open>.map_err(runtime error)?.map_err(execution fatal)?\<close>.\<close>

definition executed :: "(string, (string, 'a) res) res \<Rightarrow> 'a rpc" where
  "executed r =
     res_bind (map_err (\<lambda>err. internal_err (''runtime error: '' @ err)) r) (\<lambda>inner.
     map_err (\<lambda>err. internal_err (''execution fatal: '' @ err)) inner)"

definition run_call :: "'db eth_api \<Rightarrow> call_request \<Rightarrow> h160 \<Rightarrow> bool \<Rightarrow> call_info rpc" where
  "run_call E request to estimate =
     executed (ra_call (ea_runtime E) (Id_Hash (ea_best_hash E))
       (case cr_from request of Some a \<Rightarrow> a | None \<Rightarrow> 0) to
       (case cr_data request of Some d \<Rightarrow> d | None \<Rightarrow> [])
       (case cr_value request of Some v \<Rightarrow> v | None \<Rightarrow> 0)
       (call_gas_limit request) (cr_gas_price request) (cr_nonce request) estimate)"

definition run_create :: "'db eth_api \<Rightarrow> call_request \<Rightarrow> bool \<Rightarrow> create_info rpc" where
  "run_create E request estimate =
     executed (ra_create (ea_runtime E) (Id_Hash (ea_best_hash E))
       (case cr_from request of Some a \<Rightarrow> a | None \<Rightarrow> 0)
       (case cr_data request of Some d \<Rightarrow> d | None \<Rightarrow> [])
       (case cr_value request of Some v \<Rightarrow> v | None \<Rightarrow> 0)
       (call_gas_limit request) (cr_gas_price request) (cr_nonce request) estimate)"

definition call_rpc :: "error_text \<Rightarrow> 'db eth_api \<Rightarrow> call_request \<Rightarrow> bytes rpc" where
  "call_rpc X E request =
     (case cr_to request of
        Some to \<Rightarrow>
          res_bind (run_call E request to False) (\<lambda>info.
          res_bind (error_on_execution_failure X (ei_exit_reason info) (ei_value info)) (\<lambda>_.
          Ok (ei_value info)))
      | None \<Rightarrow>
          res_bind (run_create E request False) (\<lambda>info.
          res_bind (error_on_execution_failure X (ei_exit_reason info) []) (\<lambda>_.
          Ok (h160_bytes (ei_value info)))))"

definition calculate_gas_used :: "error_text \<Rightarrow> 'db eth_api \<Rightarrow> call_request \<Rightarrow> u256 rpc" where
  "calculate_gas_used X E request =
     (case cr_to request of
        Some to \<Rightarrow>
          res_bind (run_call E request to True) (\<lambda>info.
          res_bind (error_on_execution_failure X (ei_exit_reason info) (ei_value info)) (\<lambda>_.
          Ok (ei_used_gas info)))
      | None \<Rightarrow>
          res_bind (run_create E request True) (\<lambda>info.
          res_bind (error_on_execution_failure X (ei_exit_reason info) []) (\<lambda>_.
          Ok (ei_used_gas info))))"

text \<open>
  The binary search, as iterations of its loop; \<open>None\<close> when the iterations given do not
  suffice. The arithmetic of 256-bit integers panics on overflow and on division by zero.
\<close>

definition midpoint :: "u256 \<Rightarrow> u256 \<Rightarrow> u256 rpc" where
  "midpoint lower upper =
     res_bind (unwrap (checked_add lower upper)) (\<lambda>a.
     res_bind (unwrap (checked_add a 1)) (\<lambda>b. Ok (b div 2)))"

definition change_percent :: "u256 \<Rightarrow> u256 \<Rightarrow> u256 rpc" where
  "change_percent old_best best =
     res_bind (unwrap (checked_sub old_best best)) (\<lambda>d.
     res_bind (unwrap (checked_mul 100 d)) (\<lambda>p.
     if old_best = 0 then Panic else Ok (p div old_best)))"

fun estimate_loop ::
  "(u256 \<Rightarrow> u256 rpc) \<Rightarrow> nat \<Rightarrow> u256 \<Rightarrow> u256 \<Rightarrow> u256 \<Rightarrow> u256 \<Rightarrow> u256 \<Rightarrow> u256 rpc option" where
  "estimate_loop calc 0 lower upper mid best change_pct = None"
| "estimate_loop calc (Suc n) lower upper mid best change_pct =
     (if change_pct > 10 then
        case calc mid of
          Ok used \<Rightarrow>
            (case res_bind (change_percent best used) (\<lambda>pct.
                    map_ok (Pair pct) (midpoint lower mid)) of
               Ok (pct, mid') \<Rightarrow> estimate_loop calc n lower mid mid' used pct
             | Err e \<Rightarrow> Some (Err e)
             | Panic \<Rightarrow> Some Panic)
        | Err _ \<Rightarrow>
            (case midpoint mid upper of
               Ok mid' \<Rightarrow>
                 if mid' = mid then Some (Ok best)
                 else estimate_loop calc n mid upper mid' best change_pct
             | Err e \<Rightarrow> Some (Err e)
             | Panic \<Rightarrow> Some Panic)
        | Panic \<Rightarrow> Some Panic
      else Some (Ok best))"

definition estimate_gas :: "bool \<Rightarrow> error_text \<Rightarrow> 'db eth_api \<Rightarrow> nat \<Rightarrow> call_request \<Rightarrow> u256 rpc option" where
  "estimate_gas binary_search X E n request =
     (if binary_search then
        estimate_loop (\<lambda>gas. calculate_gas_used X E (request\<lparr>cr_gas := Some gas\<rparr>)) n
          21000 1000000000 1000000000 1000000000 100
      else Some (calculate_gas_used X E request))"

section \<open>Logs\<close>

definition upper_block :: "'db eth_api \<Rightarrow> block_number option \<Rightarrow> u32" where
  "upper_block E to_block =
     (let current = (case Option.bind to_block to_min_block_num of
                       Some s \<Rightarrow> saturated_into s
                     | None \<Rightarrow> ea_best_number E)
      in if current > ea_best_number E then ea_best_number E else current)"

definition lower_block :: "block_number option \<Rightarrow> u32 \<Rightarrow> u32" where
  "lower_block bound otherwise =
     (case Option.bind bound to_min_block_num of
        Some s \<Rightarrow> saturated_into s
      | None \<Rightarrow> otherwise)"

text \<open>The loop from the upper block down to the lower one.\<close>

function range_blocks ::
  "'db eth_api \<Rightarrow> u32 \<Rightarrow> u32 \<Rightarrow> (block \<times> transaction_status list) list \<Rightarrow>
     (block \<times> transaction_status list) list rpc" where
  "range_blocks E current from acc =
     (if current \<ge> from then
        res_bind (map_err (\<lambda>err. internal_err (''fetch runtime account basic failed: '' @ err))
          (ra_current_all (ea_runtime E) (Id_Number current))) (\<lambda>(block, _, statuses).
        let acc' = (case (block, statuses) of
                      (Some b, Some sts) \<Rightarrow> acc @ [(b, sts)]
                    | _ \<Rightarrow> acc) in
        if current = 0 then Ok acc' else range_blocks E (saturating_sub current 1) from acc')
      else Ok acc)"
  by pat_completeness auto
termination
  by (relation "measure (\<lambda>(E, current, from, acc). unat current)")
    (auto simp: unat_saturating_sub unat_gt_0)

declare range_blocks.simps [simp del]

definition logs :: "eth_lib \<Rightarrow> 'db eth_api \<Rightarrow> log_filter \<Rightarrow> rpc_log list rpc" where
  "logs L E f =
     (case fl_block_hash f of
        Some hash \<Rightarrow>
          res_bind (rewrap E (load_hash E hash)) (\<lambda>bid.
            case bid of
              None \<Rightarrow> Ok []
            | Some bid \<Rightarrow>
                res_bind (map_err (\<lambda>err. internal_err (''fetch runtime account basic failed: '' @ err))
                  (ra_current_all (ea_runtime E) bid)) (\<lambda>(block, _, statuses).
                logs_build L f
                  (case (block, statuses) of (Some b, Some sts) \<Rightarrow> [(b, sts)] | _ \<Rightarrow> [])))
      | None \<Rightarrow>
          res_bind (range_blocks E (upper_block E (fl_to_block f))
              (lower_block (fl_from_block f) (ea_best_number E)) [])
            (logs_build L f))"

section \<open>Constant answers\<close>

definition hashrate :: "u256 rpc" where "hashrate = Ok 0"
definition block_uncles_count :: "u256 rpc" where "block_uncles_count = Ok 0"
definition uncle_by_index :: "rpc_block option rpc" where "uncle_by_index = Ok None"
definition submit_work :: "bool rpc" where "submit_work = Ok False"

section \<open>The gas estimate terminates\<close>

lemma midpoint_eq:
  assumes "unat l + unat u + 1 < 2 ^ 256"
  shows "\<exists>m. midpoint l u = Ok m \<and> unat m = (unat l + unat u + 1) div 2"
proof -
  define a where "a = l + u"
  define b where "b = a + 1"
  have a: "checked_add l u = Some a" "unat a = unat l + unat u"
    using assms by (simp_all add: checked_add_def a_def unat_word_ariths)
  have b: "checked_add a 1 = Some b" "unat b = unat l + unat u + 1"
    using assms a(2) by (simp_all add: checked_add_def b_def unat_word_ariths)
  have "midpoint l u = Ok (b div 2)" by (simp add: midpoint_def a(1) b(1))
  then show ?thesis using b(2) by (simp add: unat_div)
qed

lemma unwrap_not_Err [simp]: "unwrap x \<noteq> Err e"
  by (cases x) auto

lemma change_percent_cases:
  obtains (pct) p where "change_percent b x = Ok p" | (panic) "change_percent b x = Panic"
  by (cases "change_percent b x") (auto simp: change_percent_def res_bind_eq_Err split: if_splits)

lemma change_percent_Panic:
  assumes "change_percent b x = Panic" and "b \<le> 1000000000"
  shows "b < x \<or> b = 0"
proof (rule ccontr)
  assume "\<not> ?thesis"
  then have x: "unat x \<le> unat b" "b \<noteq> 0" by (auto simp: word_less_nat_alt)
  moreover have "unat (b - x) \<le> 1000000000"
    using assms(2) x(1) by (simp add: unat_sub word_le_nat_alt)
  ultimately show False
    using assms(1) by (auto simp: change_percent_def checked_sub_def checked_mul_def word_le_nat_alt)
qed

text \<open>
  What can stop the search with a panic, among executions with a limit of at most \<open>u\<close>: one that
  panics, one that uses no gas or more than the highest limit tried, and two of which the one
  with the lower limit uses more gas.
\<close>

definition estimate_panic :: "(u256 \<Rightarrow> u256 rpc) \<Rightarrow> u256 \<Rightarrow> bool" where
  "estimate_panic calc u \<longleftrightarrow>
     (\<exists>g. g \<le> u \<and> (calc g = Panic \<or> calc g = Ok 0 \<or>
        (\<exists>x. calc g = Ok x \<and> (1000000000 < x \<or> (\<exists>g' x'. g' < g \<and> calc g' = Ok x' \<and> x < x')))))"

lemma estimate_panicI:
  assumes "calc u = Ok b" "calc m = Ok x" "m \<le> u" "change_percent b x = Panic"
  shows "estimate_panic calc u"
proof (cases "b \<le> 1000000000")
  case True
  then consider "b = 0" | "b < x" using change_percent_Panic [OF assms(4)] by blast
  then show ?thesis
  proof cases
    case 2
    then have "m < u" using assms(1-3) by (cases "m = u") auto
    then show ?thesis using 2 assms(1,2) unfolding estimate_panic_def by (intro exI [of _ u]) auto
  qed (use assms(1) in \<open>auto simp: estimate_panic_def\<close>)
qed (use assms(1) in \<open>auto simp: estimate_panic_def not_le\<close>)

text \<open>
  From a state where the upper end is the last limit that worked, \<open>k + 2\<close> rounds are enough for an
  interval of \<open>2 ^ k\<close>: each round halves it, and at length one the same limit is tried again.
\<close>

definition estimate_done :: "(u256 \<Rightarrow> u256 rpc) \<Rightarrow> u256 \<Rightarrow> u256 rpc option \<Rightarrow> bool" where
  "estimate_done calc u r \<longleftrightarrow>
     (\<exists>g x. r = Some (Ok x) \<and> g \<le> u \<and> calc g = Ok x) \<or> r = Some Panic \<and> estimate_panic calc u"

lemma estimate_done_le: "estimate_done calc u r \<Longrightarrow> u \<le> v \<Longrightarrow> estimate_done calc v r"
  unfolding estimate_done_def estimate_panic_def by (blast intro: order_trans)

lemma estimate_done_panic:
  "calc u = Ok b \<Longrightarrow> calc m = Ok x \<Longrightarrow> m \<le> u \<Longrightarrow> change_percent b x = Panic \<Longrightarrow>
     estimate_done calc u (Some Panic)"
  using estimate_panicI by (simp add: estimate_done_def)

lemma estimate_loop_done:
  assumes "calc u = Ok b" "unat l < unat u" "unat u < 2 ^ 255" "unat m = (unat l + unat u + 1) div 2"
    and "unat u - unat l \<le> 2 ^ k"
  shows "estimate_done calc u (estimate_loop calc (k + 2) l u m b c)"
  using assms
proof (induction k arbitrary: l u m b c)
  case 0
  then have "m = u" by (simp add: word_unat_eq_iff)
  have s: "estimate_done calc u (Some (Ok b))" using 0(1) by (auto simp: estimate_done_def)
  obtain m' where m': "midpoint l u = Ok m'" using midpoint_eq [of l u] 0 by auto
  show ?case
  proof (cases rule: change_percent_cases [of b b])
    case (pct p)
    then have "p = 0" by (auto simp: change_percent_def checked_sub_def checked_mul_def split: if_splits)
    then show ?thesis using pct 0(1) s \<open>m = u\<close> m' by (simp add: numeral_2_eq_2)
  next
    case panic
    then show ?thesis
      using 0(1) s \<open>m = u\<close> estimate_done_panic [of calc u b u b] panic
      by (simp add: numeral_2_eq_2)
  qed
next
  case (Suc k)
  define n where "n = k + 2"
  have fuel: "Suc k + 2 = Suc n" by (simp add: n_def)
  note IH = Suc.IH [folded n_def]
  have s: "estimate_done calc u (Some (Ok b))" using Suc.prems(1) by (auto simp: estimate_done_def)
  have m: "unat l < unat m" "unat m \<le> unat u" "unat m - unat l \<le> 2 ^ k" "unat u - unat m \<le> 2 ^ k"
    using Suc.prems(2,4,5) by auto
  have mu: "m \<le> u" using m(2) by (simp add: word_le_nat_alt)
  consider "c \<le> 10" | "c > 10" "calc m = Panic" | used where "c > 10" "calc m = Ok used"
    | e where "c > 10" "calc m = Err e" by (cases "calc m") force+
  then show ?case
  proof cases
    case 2
    then show ?thesis using mu by (auto simp: fuel estimate_done_def estimate_panic_def)
  next
    case (3 used)
    obtain m' where m': "midpoint l m = Ok m'" "unat m' = (unat l + unat m + 1) div 2"
      using midpoint_eq [of l m] Suc.prems(3) m(1,2) by auto
    have "estimate_done calc m (estimate_loop calc n l m m' used pct)" for pct
      using IH [OF 3(2) m(1) _ m'(2) m(3)] m(2) Suc.prems(3) by simp
    then have next_round: "estimate_done calc u (estimate_loop calc n l m m' used pct)" for pct
      using mu by (rule estimate_done_le)
    show ?thesis
    proof (cases rule: change_percent_cases [of b used])
      case (pct p)
      then show ?thesis unfolding fuel using 3 m'(1) next_round by simp
    next
      case panic
      then show ?thesis
        unfolding fuel using 3 estimate_done_panic [of calc u b m used] Suc.prems(1) mu panic by simp
    qed
  next
    case (4 e)
    then have ne: "unat m < unat u" using Suc.prems(1) m(2) by (metis order_le_less res.distinct(1) word_unat_eq_iff)
    obtain m' where m': "midpoint m u = Ok m'" "unat m' = (unat m + unat u + 1) div 2"
      using midpoint_eq [of m u] Suc.prems(3) m(2) by auto
    have "m' \<noteq> m" using m'(2) ne by auto
    moreover have "estimate_done calc u (estimate_loop calc n m u m' b c)"
      using IH [OF Suc.prems(1) ne Suc.prems(3) m'(2) m(4)] .
    ultimately show ?thesis unfolding fuel using 4 m'(1) by simp
  qed (use s fuel in auto)
qed

text \<open>
  C36: the binary search for a gas limit ends after at most 33 executions, whatever the executions
  return. If the execution with the limit of one billion fails, the answer is one billion all the
  same. Otherwise the answer is the gas used by an execution that succeeded with a limit of at most
  one billion. The search panics only if an execution it could try panics or uses no gas or more
  than one billion, or if an execution uses more gas than another one with a higher limit; the
  subtraction of the percentage underflows then.
\<close>

theorem estimate_gas_terminates:
  "let calc = (\<lambda>gas. calculate_gas_used X E (request\<lparr>cr_gas := Some gas\<rparr>));
       r = estimate_gas True X E 33 request in
   case calc 1000000000 of
     Ok used \<Rightarrow>
       (\<exists>g x. r = Some (Ok x) \<and> g \<le> 1000000000 \<and> calc g = Ok x) \<or>
       r = Some Panic \<and>
         (\<exists>g. g \<le> 1000000000 \<and> (calc g = Panic \<or> calc g = Ok 0 \<or>
            (\<exists>x. calc g = Ok x \<and>
               (1000000000 < x \<or> (\<exists>g' x'. g' < g \<and> calc g' = Ok x' \<and> x < x')))))
   | Err e \<Rightarrow> r = Some (Ok 1000000000)
   | Panic \<Rightarrow> r = Some Panic"
proof -
  define calc where "calc = (\<lambda>gas. calculate_gas_used X E (request\<lparr>cr_gas := Some gas\<rparr>))"
  define top :: u256 where "top = 1000000000"
  define n :: nat where "n = 30 + 2"
  have u: "unat top = 1000000000" "unat (21000 :: u256) = 21000" by (simp_all add: top_def)
  obtain m where m: "midpoint 21000 top = Ok m" "unat m = (21000 + 1000000000 + 1) div 2"
    using midpoint_eq [of 21000 top] u by auto
  obtain m1 where "midpoint top top = Ok m1" "unat m1 = 1000000000"
    using midpoint_eq [of top top] u by auto
  then have m1: "midpoint top top = Ok top" using u by (metis word_unat_eq_iff)
  have r: "estimate_gas True X E 33 request = estimate_loop calc (Suc n) 21000 top top top 100"
    by (simp add: estimate_gas_def calc_def top_def n_def)
  have ok: "estimate_done calc top (estimate_loop calc (Suc n) 21000 top top top 100)"
    if used: "calc top = Ok used" for used
  proof (cases rule: change_percent_cases [of top used])
    case (pct p)
    have "estimate_done calc top (estimate_loop calc n 21000 top m used p)"
      unfolding n_def by (rule estimate_loop_done) (simp_all add: u m(2) used)
    then show ?thesis using used pct m(1) by simp
  next
    case panic
    then have "top < used" using change_percent_Panic [OF panic] by (simp add: top_def)
    then have "estimate_panic calc top"
      using used unfolding estimate_panic_def by (intro exI [of _ top]) (simp add: top_def)
    then show ?thesis using used panic by (simp add: estimate_done_def)
  qed
  have "case calc top of
      Ok used \<Rightarrow> estimate_done calc top (estimate_gas True X E 33 request)
    | Err e \<Rightarrow> estimate_gas True X E 33 request = Some (Ok top)
    | Panic \<Rightarrow> estimate_gas True X E 33 request = Some Panic"
    unfolding r using ok m1 by (cases "calc top") simp_all
  then show ?thesis
    unfolding Let_def calc_def [symmetric] top_def estimate_done_def estimate_panic_def .
qed

section \<open>Receipts agree with the block and with its logs\<close>

lemma numbered_logs_append:
  "numbered_logs L b (xs @ ys) k =
     numbered_logs L b xs k @ numbered_logs L b ys (k + sum_list (map (\<lambda>st. length (st_logs st)) xs))"
  by (induction xs arbitrary: k) (auto simp: add.assoc)

lemma length_numbered_logs:
  "length (numbered_logs L b xs k) = sum_list (map (\<lambda>st. length (st_logs st)) xs)"
  by (induction xs arbitrary: k) (auto simp: transaction_logs_def)

lemma sum_used_gas_eq:
  assumes "unat acc + sum_list (map (\<lambda>r. unat (rc_used_gas r)) rs) < 2 ^ 32"
  shows "\<exists>g. sum_used_gas rs acc = Ok g \<and> unat g = unat acc + sum_list (map (\<lambda>r. unat (rc_used_gas r)) rs)"
  using assms
proof (induction rs arbitrary: acc)
  case (Cons r rs)
  define x :: u32 where "x = ucast (rc_used_gas r)"
  have x: "unat x = unat (rc_used_gas r)" using Cons.prems by (simp add: x_def unat_ucast_id)
  then have a: "unat (acc + x) = unat acc + unat (rc_used_gas r)"
    using Cons.prems by (simp add: unat_word_ariths)
  then show ?case using Cons.IH [of "acc + x"] Cons.prems by (simp add: x_def add.assoc)
qed simp

lemma sum_list_of_nat: "sum_list (map (\<lambda>r. word_of_nat (f r)) rs) = word_of_nat (sum_list (map f rs))"
  by (induction rs) auto

lemma receipt_logs_eq:
  assumes "rc_logs r = st_logs st" "length (st_logs st) \<le> 2 ^ 32"
    and "cum \<noteq> []" "k = sum_list (map (\<lambda>r. length (rc_logs r)) (butlast cum))"
  shows "receipt_logs (header_keccak L (bk_header b)) b st r cum = transaction_logs L b st k"
proof -
  have i: "(word_of_nat i :: u256) = ucast (word_of_nat i :: u32)" if "i < length (st_logs st)" for i
  proof (rule word_unat_eq_iff [THEN iffD2])
    have "i < 2 ^ 32" using that assms(2) by simp
    then show "unat (word_of_nat i :: u256) = unat (ucast (word_of_nat i :: u32) :: u256)"
      by (simp add: unat_of_nat unat_ucast_id)
  qed
  show ?thesis
    unfolding receipt_logs_def transaction_logs_def Let_def assms(1)
    using assms(3,4) i
    by (auto simp: located_log_def bare_log_def in_set_enumerate_eq sum_list_of_nat)
qed

text \<open>A block as the pallet stores it: transactions, statuses and receipts of the pending entries.\<close>

definition holds_block :: "'db eth_api \<Rightarrow> block_id \<Rightarrow> block \<Rightarrow> pending_entry list \<Rightarrow> bool" where
  "holds_block E at b ps \<longleftrightarrow>
     so_current_block (handler E at) at = Some b \<and> bk_transactions b = map fst ps \<and>
     so_current_statuses (handler E at) at = Some (map (\<lambda>(t, st, r). st) ps) \<and>
     so_current_receipts (handler E at) at = Some (map (\<lambda>(t, st, r). r) ps)"

definition block_gas :: "pending_entry list \<Rightarrow> nat" where
  "block_gas ps = sum_list (map (\<lambda>(t, st, r). unat (rc_used_gas r)) ps)"

definition block_log_count :: "pending_entry list \<Rightarrow> nat" where
  "block_log_count ps = sum_list (map (\<lambda>(t, st, r). length (st_logs st)) ps)"

lemma sum_list_take_le: "sum_list (take n xs) \<le> sum_list (xs :: nat list)"
  by (metis append_take_drop_id le_add1 sum_list_append)

lemma block_log_count_nth:
  assumes "i < length ps" "ps ! i = (t, st, r)"
  shows "length (st_logs st) \<le> block_log_count ps"
  unfolding block_log_count_def
proof (rule member_le_sum_list)
  show "length (st_logs st) \<in> set (map (\<lambda>(t, st, r). length (st_logs st)) ps)"
    using nth_mem [OF assms(1)] assms(2) by (force simp: image_iff)
qed simp

text \<open>
  C25: receipts agree with the block and with the logs. For a block as the pallet stores it (less than
  2 ^ 32 transactions, gas and logs), the receipt of entry \<open>i\<close> exists, has the hash and signer of
  transaction \<open>i\<close>, its own gas, the exact gas of the block up to and including it, and logs that
  are a segment of the numbered logs of the block, the ones \<open>eth_getLogs\<close> answers with.
\<close>

theorem receipt_consistent:
  assumes "holds_block E at b ps" "pending_ok L ps" "i < length ps" "ps ! i = (t, st, r)"
    and "length ps < 2 ^ 32" "block_gas ps < 2 ^ 32" "block_log_count ps < 2 ^ 32"
  shows "\<exists>rc. receipt_at L E at i = Ok (Some rc) \<and>
    rr_transaction_hash rc = Some (transaction_hash L t) \<and> rr_from rc = recover_signer L t \<and>
    rr_gas_used rc = Some (rc_used_gas r) \<and>
    unat (rr_cumulative_gas_used rc) = block_gas (take (Suc i) ps) \<and>
    (\<exists>pre post. numbered_logs L b (map (\<lambda>(t, st, r). st) ps) 0 = pre @ rr_logs rc @ post \<and>
       length pre = block_log_count (take i ps))"
proof -
  let ?sts = "map (\<lambda>(t, st, r). st) ps" and ?rs = "map (\<lambda>(t, st, r). r) ps"
  have e: "st_transaction_index st = word_of_nat i" "st_transaction_hash st = transaction_hash L t"
    "recover_signer L t = Some (st_from st)" "rc_logs r = st_logs st"
    using assms(2-4) by (auto simp: pending_ok_def entry_ok_def)
  define n :: u32 where "n = word_of_nat i + 1"
  have n: "unat n = Suc i" using assms(3,5) by (simp add: n_def unat_word_ariths unat_of_nat)
  have cum: "take (Suc i) ?rs = take i ?rs @ [r]"
    using assms(3,4) by (simp add: take_Suc_conv_app_nth)
  have "sum_list (map (\<lambda>r. unat (rc_used_gas r)) (take (Suc i) ?rs)) = block_gas (take (Suc i) ps)"
    by (simp add: block_gas_def take_map comp_def case_prod_unfold)
  moreover have "block_gas (take (Suc i) ps) < 2 ^ 32"
    using assms(6) sum_list_take_le [of "Suc i" "map (\<lambda>(t, st, r). unat (rc_used_gas r)) ps"]
    by (simp add: block_gas_def take_map)
  ultimately obtain g where g: "sum_used_gas (take (Suc i) ?rs) 0 = Ok g"
    "unat g = block_gas (take (Suc i) ps)"
    using sum_used_gas_eq [of 0 "take (Suc i) ?rs"] by auto
  let ?k = "block_log_count (take i ps)"
  have eq_logs: "rc_logs (snd (snd e)) = st_logs (fst (snd e))" if "e \<in> set ps" for e
    using that assms(2) by (force simp: pending_ok_def entry_ok_def in_set_conv_nth)
  have k: "?k = sum_list (map (\<lambda>r. length (rc_logs r)) (butlast (take (Suc i) ?rs)))"
  proof -
    have "map (\<lambda>p. length (st_logs (fst (snd p)))) (take i ps) =
        map (\<lambda>p. length (rc_logs (snd (snd p)))) (take i ps)"
      using eq_logs by (intro map_cong refl) (auto dest: in_set_takeD)
    then show ?thesis unfolding cum
      by (simp only: block_log_count_def take_map butlast_snoc map_map comp_def case_prod_unfold)
  qed
  have logs: "receipt_logs (header_keccak L (bk_header b)) b st r (take (Suc i) ?rs) =
      transaction_logs L b st ?k"
    using e(4) block_log_count_nth [OF assms(3,4)] assms(7) k cum
    by (intro receipt_logs_eq) simp_all
  have split: "?sts = take i ?sts @ st # drop (Suc i) ?sts"
    using assms(3,4) id_take_nth_drop [of i ?sts] by simp
  have off: "sum_list (map (\<lambda>st. length (st_logs st)) (take i ?sts)) = ?k"
    by (simp add: block_log_count_def take_map comp_def case_prod_unfold)
  have num: "numbered_logs L b ?sts 0 = numbered_logs L b (take i ?sts) 0 @ transaction_logs L b st ?k @
      numbered_logs L b (drop (Suc i) ?sts) (?k + length (st_logs st))"
    by (subst split) (simp add: numbered_logs_append off)
  have "unat (ucast g :: u256) = unat g" using unat_bound [of g] by (intro unat_ucast_id) simp
  then show ?thesis
    using assms(1,3,4) e g logs num n
    by (auto simp: receipt_at_def holds_block_def Let_def n_def [symmetric] length_numbered_logs off)
qed

section \<open>Looking transactions up\<close>

text \<open>The API over a backend that represents a mapping: the two searches in terms of the mapping.\<close>

context mapping_store
begin

lemma load_hash_eq:
  assumes "ea_backend E = S" "rel (ea_db E) m"
  shows "load_hash E h = Ok (case filter (is_canon E) (m_blocks m h) of [x] \<Rightarrow> Some (Id_Hash x) | _ \<Rightarrow> None)"
  using assms read_blocks [OF assms(2)]
  by (auto simp: load_hash_def Let_def length_Suc_conv split: list.splits)

lemma load_transactions_eq:
  assumes "ea_backend E = S" "rel (ea_db E) m"
  shows "load_transactions E h = Ok (case m_transactions m h of
      [x] \<Rightarrow> Some (tm_ethereum_block_hash x, tm_ethereum_index x) | _ \<Rightarrow> None)"
  using assms read_transactions [OF assms(2)]
  by (auto simp: load_transactions_def length_Suc_conv split: list.splits)

lemma transaction_found:
  assumes "ea_backend E = S" "rel (ea_db E) m"
    and "m_transactions m h = [metadata_entry c i]" "i < 2 ^ 32"
    and "filter (is_canon E) (m_blocks m (mc_ethereum_block_hash c)) = [mc_block_hash c]"
  shows "transaction_by_hash L E pending h = transaction_at L E (Id_Hash (mc_block_hash c)) i"
    and "transaction_receipt L E h = receipt_at L E (Id_Hash (mc_block_hash c)) i"
  using assms
  by (simp_all add: transaction_by_hash_def transaction_receipt_def rewrap_def load_hash_eq
      load_transactions_eq metadata_entry_def unat_of_nat)

lemma transaction_lost:
  assumes "ea_backend E = S" "rel (ea_db E) m" "length (m_transactions m h) \<noteq> 1"
  shows "transaction_by_hash L E pending h = Ok (pending_lookup pending h)"
    and "transaction_receipt L E h = Ok None"
  using assms
  by (auto simp: transaction_by_hash_def transaction_receipt_def rewrap_def load_transactions_eq
      split: list.splits)

end

text \<open>The commitment the sync worker writes for a block.\<close>

definition block_commitment :: "eth_lib \<Rightarrow> h256 \<Rightarrow> h256 \<Rightarrow> block \<Rightarrow> mapping_commitment" where
  "block_commitment L h eh b = \<lparr>mc_block_hash = h, mc_ethereum_block_hash = eh,
     mc_ethereum_transaction_hashes = map (transaction_hash L) (bk_transactions b)\<rparr>"

text \<open>
  A transaction of a synced canonical block is found by its hash. Once the mapping database has
  the commitment of a canonical block on top of a mapping without the transaction and without
  another canonical block of that Ethereum hash, \<open>transaction_by_hash\<close> answers with transaction
  \<open>i\<close> of the block and its status, and \<open>transaction_receipt\<close> with receipt \<open>i\<close>.
\<close>

lemma synced_transaction_lookup:
  assumes "ea_backend E = backend_new C B"
    and "repr C B (ea_db E) (m_write (block_commitment L h eh b) m)"
    and "holds_block E (Id_Hash h) b ps" "ps ! i = (t, st, r)" "i < length ps" "length ps < 2 ^ 32"
    and "distinct (map (transaction_hash L) (bk_transactions b))" "m_transactions m (transaction_hash L t) = []"
    and "is_canon E h" "\<forall>x \<in> set (m_blocks m eh). \<not> is_canon E x"
  shows "transaction_by_hash L E pending (transaction_hash L t) =
      Ok (Some (transaction_build L t (Some b) (Some st))) \<and>
    transaction_receipt L E (transaction_hash L t) = receipt_at L E (Id_Hash h) i"
proof -
  let ?c = "block_commitment L h eh b"
  have t: "bk_transactions b ! i = t" "length (bk_transactions b) = length ps"
    using assms(3-5) by (auto simp: holds_block_def)
  have "last_index 0 (mc_ethereum_transaction_hashes ?c) (transaction_hash L t) = Some i"
    using last_index_distinct [OF assms(7), of i 0] t assms(5) by (simp add: block_commitment_def)
  then have m: "m_transactions (m_write ?c m) (transaction_hash L t) = [metadata_entry ?c i]"
    using assms(8) by (simp add: m_write_def)
  have f: "filter (is_canon E) (m_blocks (m_write ?c m) (mc_ethereum_block_hash ?c)) = [mc_block_hash ?c]"
    using assms(9,10) by (simp add: m_write_def block_commitment_def filter_empty_conv)
  have at: "transaction_at L E (Id_Hash h) i = Ok (Some (transaction_build L t (Some b) (Some st)))"
    using assms(3-5) t by (simp add: transaction_at_def holds_block_def)
  note found = mapping_db.transaction_found [OF assms(1,2) m _ f]
  show ?thesis using found at assms(5,6) by (simp add: block_commitment_def)
qed

lemma last_index_in: "x \<in> set us \<Longrightarrow> \<exists>i. last_index k us x = Some i"
proof (induction us arbitrary: k)
  case (Cons u us)
  then show ?case by (cases "last_index (Suc k) us x") (auto dest: Cons.IH [of "Suc k"])
qed simp

text \<open>
  C39: a transaction included in two synced blocks, as on two forks, is no longer found. Its receipt is
  reported as absent and the search falls back to the pending transactions, although one of the
  blocks may be canonical and hold it.
\<close>

theorem forked_transaction_lost:
  assumes "ea_backend E = backend_new C B"
    and "repr C B (ea_db E) (m_write c2 (m_write c1 m))"
    and "x \<in> set (mc_ethereum_transaction_hashes c1)" "x \<in> set (mc_ethereum_transaction_hashes c2)"
  shows "transaction_receipt L E x = Ok None \<and>
    transaction_by_hash L E pending x = Ok (pending_lookup pending x)"
proof -
  obtain i j where "last_index 0 (mc_ethereum_transaction_hashes c1) x = Some i"
    "last_index 0 (mc_ethereum_transaction_hashes c2) x = Some j"
    using last_index_in [OF assms(3)] last_index_in [OF assms(4)] by blast
  then have "length (m_transactions (m_write c2 (m_write c1 m)) x) \<noteq> 1" by (simp add: m_write_def)
  from mapping_db.transaction_lost [OF assms(1,2) this] show ?thesis by blast
qed

section \<open>The logs of a range\<close>

lemma range_list_step:
  assumes "lo \<le> cur" "cur \<noteq> (0 :: u32)"
  shows "[unat lo..<Suc (unat cur)] = [unat lo..<Suc (unat (cur - 1))] @ [unat cur]"
proof -
  have "unat (cur - 1) = unat cur - 1" "unat cur \<noteq> 0"
    using assms(2) by (simp_all add: unat_minus_one unat_eq_zero)
  then have "Suc (unat (cur - 1)) = unat cur" by simp
  then show ?thesis using assms(1) by (simp add: word_le_nat_alt)
qed

lemma range_blocks_eq:
  assumes "\<forall>n. lo \<le> n \<and> n \<le> cur \<longrightarrow>
    ra_current_all (ea_runtime E) (Id_Number n) = Ok (Some (blk n), rcs n, Some (sts n))"
  shows "range_blocks E cur lo acc =
    Ok (acc @ map (\<lambda>n. (blk n, sts n)) (rev (map word_of_nat [unat lo..<Suc (unat cur)])))"
  using assms
proof (induction "unat cur" arbitrary: cur acc)
  case 0
  then have "cur = 0" by (simp add: unat_eq_zero)
  then show ?case using 0(2) by (subst range_blocks.simps) (simp add: word_le_nat_alt)
next
  case (Suc k)
  have ne: "cur \<noteq> 0" using Suc(2) by auto
  then have k: "unat (cur - 1) = k" using Suc(2) by (simp add: unat_minus_one)
  have s: "saturating_sub cur 1 = cur - 1"
    using ne by (simp add: saturating_sub_def word_le_nat_alt Suc_le_eq unat_gt_0)
  have le: "n \<le> cur - 1 \<Longrightarrow> n \<le> cur" for n
    using k Suc(2) by (simp add: word_le_nat_alt)
  show ?case
  proof (cases "lo \<le> cur")
    case False
    then show ?thesis by (subst range_blocks.simps) (simp add: word_le_nat_alt)
  next
    case True
    have "range_blocks E (cur - 1) lo (acc @ [(blk cur, sts cur)]) =
        Ok ((acc @ [(blk cur, sts cur)]) @
          map (\<lambda>n. (blk n, sts n)) (rev (map word_of_nat [unat lo..<Suc (unat (cur - 1))])))"
      using Suc(3) le by (intro Suc(1)) (simp_all add: k)
    moreover have "range_blocks E cur lo acc =
        range_blocks E (cur - 1) lo (acc @ [(blk cur, sts cur)])"
      using Suc(3) True ne s by (subst range_blocks.simps) simp
    ultimately show ?thesis by (simp only: range_list_step [OF True ne]) simp
  qed
qed

text \<open>
  C26: \<open>eth_getLogs\<close> over a range of blocks is complete. When the runtime answers for every block
  from the lower to the upper bound of the filter, the result is exactly the logs of these blocks
  that match the filter, newest block first, each with its position; the search always ends.
\<close>

theorem logs_complete:
  assumes "fl_block_hash f = None"
    and "\<forall>n. lower_block (fl_from_block f) (ea_best_number E) \<le> n \<and> n \<le> upper_block E (fl_to_block f) \<longrightarrow>
      ra_current_all (ea_runtime E) (Id_Number n) = Ok (Some (blk n), rcs n, Some (sts n))"
  shows "logs L E f = Ok (filter (log_matches f) (concat (map (\<lambda>n. numbered_logs L (blk n) (sts n) 0)
    (rev (map word_of_nat [unat (lower_block (fl_from_block f) (ea_best_number E))..<
      Suc (unat (upper_block E (fl_to_block f)))])))))"
  using assms(1) by (simp add: logs_def range_blocks_eq [OF assms(2)] logs_build_spec comp_def rev_map)

section \<open>Witnesses\<close>

text \<open>One block with one transaction without logs, held by every block of the chain.\<close>

definition rpc_status :: transaction_status where
  "rpc_status = \<lparr>st_transaction_hash = transaction_hash sample_eth sample_tx, st_transaction_index = 0,
     st_from = h160_from_h256 (h256_from_slice (keccak256 sample_eth (replicate 32 0))),
     st_to = Some 8, st_contract_address = None, st_logs = [], st_logs_bloom = 0\<rparr>"

definition rpc_rcpt :: receipt where
  "rpc_rcpt = \<lparr>rc_state_root = 1, rc_used_gas = 5, rc_logs_bloom = 0, rc_logs = []\<rparr>"

definition rpc_header :: partial_header where
  "rpc_header = \<lparr>ph_parent_hash = 0, ph_beneficiary = 0, ph_state_root = 0, ph_receipts_root = 0,
     ph_logs_bloom = 0, ph_difficulty = 0, ph_number = 1, ph_gas_limit = 8, ph_gas_used = 5,
     ph_timestamp = 0, ph_extra_data = [], ph_mix_hash = 0, ph_nonce = 0\<rparr>"

definition rpc_bk :: block where
  "rpc_bk = sample_block_new rpc_header [sample_tx] []"

definition rpc_entries :: "pending_entry list" where
  "rpc_entries = [(sample_tx, rpc_status, rpc_rcpt)]"

definition rpc_state :: "(log, sample_c) eth_state" where
  "rpc_state = blank_state\<lparr>cur_block := Some rpc_bk, cur_statuses := Some [rpc_status],
     cur_receipts := Some [rpc_rcpt]\<rparr>"

definition sample_api :: "'db backend \<Rightarrow> 'db \<Rightarrow> 'db eth_api" where
  "sample_api S db = \<lparr>
     ea_best_hash = 7, ea_best_number = 3, ea_number = (\<lambda>_. Ok (Some 3)),
     ea_header_hash = (\<lambda>_. Ok (Some 7)),
     ea_runtime = client_api sample_storage sample_host sample_cfg (\<lambda>_. sample_runner) (\<lambda>_. '''')
       (\<lambda>_. Ok rpc_state),
     ea_raw = sample_raw, ea_overrides = (\<lambda>_. None), ea_backend = S, ea_db = db,
     ea_is_authority = True, ea_is_major_syncing = False, ea_signers = [], ea_ready_tags = [],
     ea_encode_tag = (\<lambda>_ _. []), ea_rlp_block = (\<lambda>_. []), ea_show_error = re_message\<rparr>"

lemma sample_api_holds: "holds_block (sample_api S db) at rpc_bk rpc_entries"
  by (simp add: holds_block_def handler_def sample_api_def client_api_def runtime_override_def rpc_state_def
      rpc_entries_def rpc_bk_def sample_block_new_def)

lemma rpc_entries_ok: "pending_ok sample_eth rpc_entries"
  by (simp add: pending_ok_def rpc_entries_def entry_ok_def rpc_status_def rpc_rcpt_def recover_signer_def
      sample_tx_def sample_eth_def)

theorem receipt_consistent_witness:
  "\<exists>rc. receipt_at sample_eth (sample_api (backend_new sample_codec sample_db) (\<lambda>_ _. None)) (Id_Number 3) 0 =
     Ok (Some rc) \<and> rr_transaction_hash rc = Some (transaction_hash sample_eth sample_tx)"
  using receipt_consistent [OF sample_api_holds rpc_entries_ok, of 0 sample_tx rpc_status rpc_rcpt]
  by (force simp: rpc_entries_def block_gas_def block_log_count_def rpc_rcpt_def rpc_status_def)

theorem logs_complete_witness:
  "\<exists>ls. logs sample_eth (sample_api (backend_new sample_codec sample_db) (\<lambda>_ _. None)) sample_filter = Ok ls"
  using logs_complete [of sample_filter "sample_api (backend_new sample_codec sample_db) (\<lambda>_ _. None)"
      "\<lambda>_. rpc_bk" "\<lambda>_. Some [rpc_rcpt]" "\<lambda>_. [rpc_status]" sample_eth]
  by (simp add: sample_filter_def sample_api_def client_api_def runtime_current_all_def rpc_state_def)

lemma written_repr:
  assumes "repr sample_codec sample_db db m"
  shows "\<exists>db'. repr sample_codec sample_db db' (m_write c m)"
proof -
  obtain db' where "write_hashes sample_codec sample_db c db = (Ok (), db')"
    using write_hashes_commits [OF assms, of c] by (simp add: sample_db_def)
  from write_hashes_repr [OF sample_codec_ok sample_db_ok assms this] show ?thesis by blast
qed

theorem forked_transaction_lost_witness:
  "\<exists>db. transaction_receipt sample_eth (sample_api (backend_new sample_codec sample_db) db) 3 = Ok None"
proof -
  let ?c = "\<lambda>h. \<lparr>mc_block_hash = h, mc_ethereum_block_hash = h, mc_ethereum_transaction_hashes = [3]\<rparr>"
  obtain db1 where "repr sample_codec sample_db db1 (m_write (?c 1) empty_mapping)"
    using written_repr [OF sample_repr] by blast
  then obtain db where "repr sample_codec sample_db db (m_write (?c 2) (m_write (?c 1) empty_mapping))"
    using written_repr by blast
  then have r: "repr sample_codec sample_db (ea_db (sample_api (backend_new sample_codec sample_db) db))
      (m_write (?c 2) (m_write (?c 1) empty_mapping))"
    "ea_backend (sample_api (backend_new sample_codec sample_db) db) = backend_new sample_codec sample_db"
    by (simp_all add: sample_api_def)
  from forked_transaction_lost [OF r(2,1), of 3 sample_eth None] show ?thesis by auto
qed

end
