(* ===== verification/Rpc_Pool.thy ===== *)
theory Rpc_Pool
  imports Rpc_Eth
begin

text \<open>
  The stateful part of the RPC, \<open>client/rpc/src/eth.rs\<close> from line 1159: the pool of installed
  filters with its four operations, the two maintenance tasks that run on every imported block, and
  the small network and web3 interfaces. A pool is an ordered map behind a mutex; a panic while the
  lock is held poisons it. Every state a pool can reach is ordered, within its limit and polled by
  block numbers, and successive polls of a filter return every block once.
\<close>

section \<open>Ordered maps\<close>

text \<open>\<open>BTreeMap\<close> as its list of entries in the order of the keys.\<close>

type_synonym 'v btree = "(u256 \<times> 'v) list"

fun btree_insert :: "u256 \<Rightarrow> 'v \<Rightarrow> 'v btree \<Rightarrow> 'v btree" where
  "btree_insert k v [] = [(k, v)]"
| "btree_insert k v ((k', v') # t) =
     (if k < k' then (k, v) # (k', v') # t
      else if k = k' then (k, v) # t
      else (k', v') # btree_insert k v t)"

definition btree_remove :: "u256 \<Rightarrow> 'v btree \<Rightarrow> 'v btree" where
  "btree_remove k t = filter (\<lambda>(k', _). k' \<noteq> k) t"

definition btree_ok :: "'v btree \<Rightarrow> bool" where
  "btree_ok t \<longleftrightarrow> sorted_wrt (<) (map fst t)"

lemma set_btree_insert: "fst ` set (btree_insert k v t) = insert k (fst ` set t)"
  by (induction k v t rule: btree_insert.induct) auto

lemma btree_insert_ok: "btree_ok t \<Longrightarrow> btree_ok (btree_insert k v t)"
proof (induction k v t rule: btree_insert.induct)
  case (2 k v k' v' t)
  have "fst ` set (btree_insert k v t) = insert k (fst ` set t)" by (rule set_btree_insert)
  then show ?case using 2 by (auto simp: btree_ok_def)
qed (simp add: btree_ok_def)

lemma btree_lookup_insert: "map_of (btree_insert k v t) = (map_of t)(k \<mapsto> v)" if "btree_ok t"
  using that
proof (induction k v t rule: btree_insert.induct)
  case (2 k v k' v' t)
  have "map_of t k = None" if "k < k'"
  proof -
    have "k \<notin> fst ` set t" using 2(2) that by (auto simp: btree_ok_def)
    then show ?thesis by (simp add: map_of_eq_None_iff)
  qed
  then show ?case using 2 by (auto simp: btree_ok_def fun_eq_iff)
qed simp

lemma length_btree_insert:
  "length (btree_insert k v t) \<le> Suc (length t)"
  by (induction k v t rule: btree_insert.induct) auto

lemma length_btree_update:
  "btree_ok t \<Longrightarrow> k \<in> fst ` set t \<Longrightarrow> length (btree_insert k v t) = length t"
  by (induction k v t rule: btree_insert.induct) (auto simp: btree_ok_def)

lemma btree_filter_ok: "btree_ok t \<Longrightarrow> btree_ok (filter P t)"
proof (induction t)
  case (Cons x t)
  have "fst ` set (filter P t) \<subseteq> fst ` set t" by auto
  then show ?case using Cons by (auto simp: btree_ok_def)
qed simp

lemma btree_remove_ok: "btree_ok t \<Longrightarrow> btree_ok (btree_remove k t)"
  unfolding btree_remove_def by (rule btree_filter_ok)

lemma set_btree_insertD: "(k', v') \<in> set (btree_insert k v t) \<Longrightarrow> (k', v') = (k, v) \<or> (k', v') \<in> set t"
  by (induction k v t rule: btree_insert.induct) (auto split: if_splits)

section \<open>The filter API\<close>

type_synonym filter_pool = "filter_pool_item btree mutex"

record 'db filter_api =
  fa_eth :: "'db eth_api"
  fa_max_stored_filters :: nat
  fa_show_key :: "u256 \<Rightarrow> string"
  fa_show_limit :: "nat \<Rightarrow> string"

definition best_u64 :: "'db filter_api \<Rightarrow> u64" where
  "best_u64 F = saturated_into (ea_best_number (fa_eth F))"

text \<open>A panic with the lock held poisons it.\<close>

definition poison :: "filter_pool \<Rightarrow> filter_pool" where
  "poison p = p\<lparr>mx_poisoned := True\<rparr>"

definition create_filter :: "'db filter_api \<Rightarrow> filter_type \<Rightarrow> (filter_pool, rpc_error, u256) act" where
  "create_filter F ty = (\<lambda>p.
     if mx_poisoned p then (Err (internal_err ''Filter pool is not available.''), p)
     else if length (mx_value p) \<ge> fa_max_stored_filters F then
       (Err (internal_err (''Filter pool is full (limit '' @ fa_show_limit F (fa_max_stored_filters F) @ '').'')), p)
     else
       let last_key = (if mx_value p = [] then 0 else fst (last (mx_value p))) in
       case checked_add last_key 1 of
         None \<Rightarrow> (Panic, poison p)
       | Some key \<Rightarrow>
           (Ok key, p\<lparr>mx_value := btree_insert key
              \<lparr>pi_last_poll = BN_Num (best_u64 F), pi_filter_type = ty, pi_at_block = best_u64 F\<rparr>
              (mx_value p)\<rparr>))"

definition new_filter :: "'db filter_api \<Rightarrow> log_filter \<Rightarrow> (filter_pool, rpc_error, u256) act" where
  "new_filter F f = create_filter F (Type_Log f)"

definition new_block_filter :: "'db filter_api \<Rightarrow> (filter_pool, rpc_error, u256) act" where
  "new_block_filter F = create_filter F Type_Block"

definition new_pending_transaction_filter :: "(filter_pool, rpc_error, u256) act" where
  "new_pending_transaction_filter = act_fail (internal_err ''Method not available.'')"

text \<open>The Ethereum hashes of a list of block numbers.\<close>

fun block_hash_loop :: "eth_lib \<Rightarrow> 'db filter_api \<Rightarrow> u64 list \<Rightarrow> h256 list \<Rightarrow> h256 list rpc" where
  "block_hash_loop L F [] out = Ok out"
| "block_hash_loop L F (n # ns) out =
     res_bind (map_err (\<lambda>err. internal_err (''fetch runtime block failed: '' @ err))
       (ra_current_block (ea_runtime (fa_eth F)) (Id_Number (saturated_into n)))) (\<lambda>block.
     block_hash_loop L F ns
       (case block of Some b \<Rightarrow> out @ [header_hash L (bk_header b)] | None \<Rightarrow> out))"

definition number_range :: "u64 \<Rightarrow> u64 \<Rightarrow> u64 list" where
  "number_range a b = map word_of_nat [unat a..<unat b]"

definition polled :: "u256 \<Rightarrow> filter_pool_item \<Rightarrow> u64 \<Rightarrow> filter_pool \<Rightarrow> filter_pool" where
  "polled key item next p = p\<lparr>mx_value := btree_insert key (item\<lparr>pi_last_poll := BN_Num next\<rparr>) (mx_value p)\<rparr>"

definition filter_changes_rpc ::
  "eth_lib \<Rightarrow> 'db filter_api \<Rightarrow> u64 \<Rightarrow> (filter_pool, rpc_error, filter_changes) act" where
  "filter_changes_rpc L F index = (\<lambda>p.
     let key = (ucast index :: u256); next = best_u64 F + 1 in
     if mx_poisoned p then (Err (internal_err ''Filter pool is not available.''), p)
     else case map_of (mx_value p) key of
       None \<Rightarrow> (Err (internal_err (''Filter id '' @ fa_show_key F key @ '' does not exist.'')), p)
     | Some item \<Rightarrow>
         (case pi_filter_type item of
            Type_Block \<Rightarrow>
              (case to_min_block_num (pi_last_poll item) of
                 None \<Rightarrow> (Panic, poison p)
               | Some since \<Rightarrow>
                   (case block_hash_loop L F (number_range since next) [] of
                      Ok hashes \<Rightarrow> (Ok (Changes_Hashes hashes), polled key item next p)
                    | Err e \<Rightarrow> (Err e, p)
                    | Panic \<Rightarrow> (Panic, poison p)))
          | Type_Log f \<Rightarrow>
              (case to_min_block_num (pi_last_poll item) of
                 None \<Rightarrow> (Panic, poison p)
               | Some since \<Rightarrow>
                   let last_poll = (saturated_into since :: u32);
                       from_number = max last_poll (lower_block (fl_from_block f) last_poll) in
                   (case res_bind (range_blocks (fa_eth F) (upper_block (fa_eth F) (fl_to_block f)) from_number [])
                           (logs_build L f) of
                      Ok ls \<Rightarrow> (Ok (Changes_Logs ls), polled key item next p)
                    | Err e \<Rightarrow> (Err e, p)
                    | Panic \<Rightarrow> (Panic, poison p)))
          | Type_PendingTransaction \<Rightarrow> (Err (internal_err ''Method not available.''), p)))"

definition filter_logs ::
  "eth_lib \<Rightarrow> 'db filter_api \<Rightarrow> u64 \<Rightarrow> (filter_pool, rpc_error, rpc_log list) act" where
  "filter_logs L F index = (\<lambda>p.
     let key = (ucast index :: u256) in
     if mx_poisoned p then (Err (internal_err ''Filter pool is not available.''), p)
     else case map_of (mx_value p) key of
       None \<Rightarrow> (Err (internal_err (''Filter id '' @ fa_show_key F key @ '' does not exist.'')), p)
     | Some item \<Rightarrow>
         (case pi_filter_type item of
            Type_Log f \<Rightarrow>
              (case res_bind (range_blocks (fa_eth F) (upper_block (fa_eth F) (fl_to_block f))
                      (lower_block (fl_from_block f) (ea_best_number (fa_eth F))) [])
                      (logs_build L f) of
                 Ok ls \<Rightarrow> (Ok ls, p)
               | Err e \<Rightarrow> (Err e, p)
               | Panic \<Rightarrow> (Panic, poison p))
          | _ \<Rightarrow> (Err (internal_err (''Filter id '' @ fa_show_key F key @ '' is not a Log filter.'')), p)))"

definition uninstall_filter :: "'db filter_api \<Rightarrow> u64 \<Rightarrow> (filter_pool, rpc_error, bool) act" where
  "uninstall_filter F index = (\<lambda>p.
     let key = (ucast index :: u256) in
     if mx_poisoned p then (Err (internal_err ''Filter pool is not available.''), p)
     else if map_of (mx_value p) key \<noteq> None then
       (Ok True, p\<lparr>mx_value := btree_remove key (mx_value p)\<rparr>)
     else (Err (internal_err (''Filter id '' @ fa_show_key F key @ '' does not exist.'')), p))"

section \<open>Maintenance on imported blocks\<close>

definition expired :: "u64 \<Rightarrow> u64 \<Rightarrow> u64 \<Rightarrow> bool" where
  "expired retain_threshold imported_number at_block \<longleftrightarrow> at_block + retain_threshold \<le> imported_number"

fun remove_keys :: "u256 list \<Rightarrow> 'v btree \<Rightarrow> 'v btree" where
  "remove_keys [] t = t"
| "remove_keys (k # ks) t = remove_keys ks (btree_remove k t)"

definition filter_pool_task :: "u64 \<Rightarrow> u32 \<Rightarrow> filter_pool \<Rightarrow> filter_pool" where
  "filter_pool_task retain_threshold number p =
     (if mx_poisoned p then p
      else
        let imported_number = (saturated_into number :: u64);
            remove_list = map fst (filter (\<lambda>(k, v). expired retain_threshold imported_number (pi_at_block v))
              (mx_value p))
        in p\<lparr>mx_value := remove_keys remove_list (mx_value p)\<rparr>)"

definition retain :: "('k \<Rightarrow> 'v \<Rightarrow> bool) \<Rightarrow> ('k \<Rightarrow> 'v option) \<Rightarrow> 'k \<Rightarrow> 'v option" where
  "retain P m = (\<lambda>k. case m k of Some v \<Rightarrow> if P k v then Some v else None | None \<Rightarrow> None)"

definition pending_transaction_task ::
  "eth_lib \<Rightarrow> 'd digest_api \<Rightarrow> u64 \<Rightarrow> 'd list \<Rightarrow> u32 \<Rightarrow>
     (h256 \<Rightarrow> pending_transaction option) mutex \<Rightarrow> (h256 \<Rightarrow> pending_transaction option) mutex" where
  "pending_transaction_task L D retain_threshold dg number p =
     (if mx_poisoned p then p
      else
        let processed =
              (case find_log D dg of
                 Ok lg \<Rightarrow> retain (\<lambda>k _. k \<notin> set (hs_transaction_hashes (into_hashes L lg))) (mx_value p)
               | _ \<Rightarrow> mx_value p);
            imported_number = (saturated_into number :: u64)
        in p\<lparr>mx_value := retain (\<lambda>_ v. pt_at_block v + retain_threshold > imported_number) processed\<rparr>)"

section \<open>Network and web3\<close>

definition is_listening :: "bool rpc" where "is_listening = Ok True"

definition peer_count :: "nat \<Rightarrow> u32 rpc" where
  "peer_count num_connected = Ok (word_of_nat num_connected)"

fun decimal :: "nat \<Rightarrow> string" where
  "decimal n = (if n < 10 then [char_of (48 + n)] else decimal (n div 10) @ [char_of (48 + n mod 10)])"

declare decimal.simps [simp del]

definition net_version :: "'db eth_api \<Rightarrow> string rpc" where
  "net_version E =
     map_ok (\<lambda>n. decimal (unat n)) (map_err (\<lambda>_. internal_err ''fetch runtime chain id failed'')
       (ra_chain_id (ea_runtime E) (Id_Hash (ea_best_hash E))))"

definition client_version ::
  "(block_id \<Rightarrow> (string, string \<times> u32 \<times> u32) res) \<Rightarrow> string \<Rightarrow> string \<Rightarrow> 'db eth_api \<Rightarrow> string rpc" where
  "client_version version pkg_name pkg_version E =
     res_bind (map_err (\<lambda>err. internal_err (''fetch runtime version failed: '' @ err))
       (version (Id_Hash (ea_best_hash E)))) (\<lambda>(spec_name, spec_version, impl_version).
     Ok (spec_name @ ''/v'' @ decimal (unat spec_version) @ ''.'' @ decimal (unat impl_version) @ ''/'' @
       pkg_name @ ''-'' @ pkg_version))"

definition sha3 :: "eth_lib \<Rightarrow> bytes \<Rightarrow> h256 rpc" where
  "sha3 L input = Ok (h256_from_slice (keccak256 L input))"

record work =
  wk_pow_hash :: h256
  wk_seed_hash :: h256
  wk_target :: h256
  wk_number :: "u64 option"

definition get_work :: "work rpc" where
  "get_work = Ok \<lparr>wk_pow_hash = 0, wk_seed_hash = 0, wk_target = 0, wk_number = None\<rparr>"

section \<open>Reachable pools\<close>

text \<open>
  The pool under any sequence of requests and imports; \<open>Fs\<close> are the snapshots of the node the
  requests see.
\<close>

inductive pool_reach :: "eth_lib \<Rightarrow> 'db filter_api set \<Rightarrow> filter_pool \<Rightarrow> bool" for L Fs where
  reach_empty: "pool_reach L Fs \<lparr>mx_poisoned = False, mx_value = []\<rparr>"
| reach_create: "pool_reach L Fs p \<Longrightarrow> F \<in> Fs \<Longrightarrow> create_filter F ty p = (r, p') \<Longrightarrow> pool_reach L Fs p'"
| reach_changes: "pool_reach L Fs p \<Longrightarrow> F \<in> Fs \<Longrightarrow> filter_changes_rpc L F i p = (c, p') \<Longrightarrow> pool_reach L Fs p'"
| reach_logs: "pool_reach L Fs p \<Longrightarrow> F \<in> Fs \<Longrightarrow> filter_logs L F i p = (ls, p') \<Longrightarrow> pool_reach L Fs p'"
| reach_uninstall: "pool_reach L Fs p \<Longrightarrow> F \<in> Fs \<Longrightarrow> uninstall_filter F i p = (b, p') \<Longrightarrow> pool_reach L Fs p'"
| reach_task: "pool_reach L Fs p \<Longrightarrow> pool_reach L Fs (filter_pool_task threshold number p)"

definition pool_ok :: "nat \<Rightarrow> filter_pool_item btree \<Rightarrow> bool" where
  "pool_ok n t \<longleftrightarrow> btree_ok t \<and> length t \<le> n \<and> (\<forall>(k, v) \<in> set t. \<exists>x. pi_last_poll v = BN_Num x)"

lemma pool_ok_insert:
  assumes "pool_ok n t" "length t < n \<or> k \<in> fst ` set t" "pi_last_poll v = BN_Num x"
  shows "pool_ok n (btree_insert k v t)"
proof -
  have "length (btree_insert k v t) \<le> n"
  proof (cases "k \<in> fst ` set t")
    case True
    then show ?thesis using assms(1) length_btree_update [of t k v] by (simp add: pool_ok_def)
  next
    case False
    then show ?thesis using assms(2) length_btree_insert [of k v t] by simp
  qed
  moreover have "\<exists>x. pi_last_poll v' = BN_Num x" if "(k', v') \<in> set (btree_insert k v t)" for k' v'
    using set_btree_insertD [OF that] assms(1,3) by (auto simp: pool_ok_def)
  ultimately show ?thesis using assms(1) btree_insert_ok by (auto simp: pool_ok_def)
qed

lemma pool_ok_filter: "pool_ok n t \<Longrightarrow> pool_ok n (filter P t)"
  using le_trans [OF length_filter_le [of P t]] btree_filter_ok [of t P] by (auto simp: pool_ok_def)

lemma pool_ok_remove: "pool_ok n t \<Longrightarrow> pool_ok n (btree_remove k t)"
  unfolding btree_remove_def by (rule pool_ok_filter)

lemma remove_keys_ok: "pool_ok n t \<Longrightarrow> pool_ok n (remove_keys ks t)"
  by (induction ks arbitrary: t) (auto intro: pool_ok_remove)

lemma poison_value [simp]: "mx_value (poison p) = mx_value p"
  by (simp add: poison_def)

lemma polled_ok:
  assumes "pool_ok n (mx_value p)" "map_of (mx_value p) key = Some item"
  shows "pool_ok n (mx_value (polled key item x p))"
proof -
  have "key \<in> fst ` set (mx_value p)" using map_of_SomeD [OF assms(2)] by force
  then show ?thesis using assms(1) by (simp add: polled_def pool_ok_insert)
qed

lemma create_filter_ok:
  assumes "pool_ok (fa_max_stored_filters F) (mx_value p)" "create_filter F ty p = (r, p')"
  shows "pool_ok (fa_max_stored_filters F) (mx_value p')"
  using assms
  by (auto simp: create_filter_def Let_def simp del: btree_insert.simps intro!: pool_ok_insert
      split: if_splits option.splits)

lemma filter_changes_ok:
  assumes "pool_ok n (mx_value p)" "filter_changes_rpc L F i p = (r, p')"
  shows "pool_ok n (mx_value p')"
  using assms
  by (auto simp: filter_changes_rpc_def Let_def intro!: polled_ok
      split: if_splits option.splits filter_type.splits res.splits)

lemma filter_logs_value:
  assumes "filter_logs L F i p = (r, p')"
  shows "mx_value p' = mx_value p"
  using assms
  by (auto simp: filter_logs_def Let_def split: if_splits option.splits filter_type.splits res.splits)

lemma uninstall_ok:
  assumes "pool_ok n (mx_value p)" "uninstall_filter F i p = (r, p')"
  shows "pool_ok n (mx_value p')"
  using assms by (auto simp: uninstall_filter_def Let_def intro: pool_ok_remove split: if_splits)

lemma pool_reach_ok:
  assumes "pool_reach L Fs p" "\<forall>F \<in> Fs. fa_max_stored_filters F = n"
  shows "pool_ok n (mx_value p)"
  using assms
proof (induction rule: pool_reach.induct)
  case reach_empty
  then show ?case by (simp add: pool_ok_def btree_ok_def)
next
  case (reach_create p F ty r p')
  then show ?case using create_filter_ok [of F p ty r p'] by simp
next
  case (reach_changes p F i c p')
  then show ?case using filter_changes_ok by blast
next
  case (reach_logs p F i ls p')
  then show ?case using filter_logs_value by metis
next
  case (reach_uninstall p F i b p')
  then show ?case using uninstall_ok by blast
next
  case (reach_task p threshold number)
  then show ?case by (simp add: filter_pool_task_def Let_def remove_keys_ok)
qed

lemma btree_ok_last: "btree_ok t \<Longrightarrow> k \<in> fst ` set t \<Longrightarrow> k \<le> fst (last t)"
proof (induction t rule: rev_induct)
  case (snoc x t)
  then show ?case by (auto simp: btree_ok_def sorted_wrt_append less_imp_le)
qed simp

text \<open>
  C32: the filter pool keeps its invariant under every sequence of requests and imports: its entries
  are ordered by their ids without repetition, there are never more than the limit, and every last
  poll is a block number, so that no poll panics on it. A filter created in such a pool gets an id
  above all ids in use, and the other filters are untouched.
\<close>

theorem filter_pool_invariant:
  assumes "pool_reach L Fs p" "\<forall>F \<in> Fs. fa_max_stored_filters F = n"
  shows "pool_ok n (mx_value p) \<and>
    (\<forall>F ty key p'. create_filter F ty p = (Ok key, p') \<longrightarrow>
       (\<forall>k \<in> fst ` set (mx_value p). k < key) \<and>
       map_of (mx_value p') = (map_of (mx_value p))(key \<mapsto>
         \<lparr>pi_last_poll = BN_Num (best_u64 F), pi_filter_type = ty, pi_at_block = best_u64 F\<rparr>))"
proof (intro conjI allI impI)
  show ok: "pool_ok n (mx_value p)" by (rule pool_reach_ok [OF assms])
  then have t: "btree_ok (mx_value p)" by (simp add: pool_ok_def)
  fix F ty key p'
  assume c: "create_filter F ty p = (Ok key, p')"
  let ?last = "if mx_value p = [] then 0 else fst (last (mx_value p))"
  have key: "checked_add ?last 1 = Some key" and p': "mx_value p' = btree_insert key
      \<lparr>pi_last_poll = BN_Num (best_u64 F), pi_filter_type = ty, pi_at_block = best_u64 F\<rparr> (mx_value p)"
    using c by (auto simp: create_filter_def Let_def split: if_splits option.splits)
  then have "?last < key" by (simp add: checked_add_Some word_less_nat_alt)
  then show "\<forall>k \<in> fst ` set (mx_value p). k < key"
    using btree_ok_last [OF t] by (fastforce split: if_splits)
  show "map_of (mx_value p') = (map_of (mx_value p))(key \<mapsto>
      \<lparr>pi_last_poll = BN_Num (best_u64 F), pi_filter_type = ty, pi_at_block = best_u64 F\<rparr>)"
    unfolding p' by (rule btree_lookup_insert [OF t])
qed

section \<open>Polling a block filter\<close>

lemma block_hash_loop_eq:
  assumes "\<forall>n \<in> set ns. ra_current_block (ea_runtime (fa_eth F)) (Id_Number (saturated_into n)) = Ok (Some (blk n))"
  shows "block_hash_loop L F ns out = Ok (out @ map (\<lambda>n. header_hash L (bk_header (blk n))) ns)"
  using assms by (induction ns arbitrary: out) auto

lemma unat_next: "unat (best_u64 F + 1) = Suc (unat (ea_best_number (fa_eth F)))"
proof -
  have b: "unat (best_u64 F) = unat (ea_best_number (fa_eth F))"
    using unat_bound [of "ea_best_number (fa_eth F)"]
    by (simp add: best_u64_def unat_saturated_into)
  then show ?thesis using unat_bound [of "ea_best_number (fa_eth F)"] by (simp add: unat_word_ariths)
qed

lemma number_range_append:
  "unat a \<le> unat b \<Longrightarrow> unat b \<le> unat c \<Longrightarrow> number_range a b @ number_range b c = number_range a c"
  by (metis map_append number_range_def upt_add_eq_append le_add_diff_inverse)

lemma set_number_range: "n \<in> set (number_range a b) \<Longrightarrow> unat a \<le> unat n \<and> unat n < unat b"
proof -
  assume "n \<in> set (number_range a b)"
  then obtain i where i: "unat a \<le> i" "i < unat b" "n = word_of_nat i" by (auto simp: number_range_def)
  have "i < 2 ^ 64" using i(2) unat_bound [of b] by simp
  then show ?thesis using i by (simp add: unat_of_nat)
qed

lemma poll_block_filter:
  assumes "\<not> mx_poisoned p" "map_of (mx_value p) (ucast i) = Some item" "pi_filter_type item = Type_Block"
    and "pi_last_poll item = BN_Num a"
    and "\<forall>n \<in> set (number_range a (best_u64 F + 1)).
      ra_current_block (ea_runtime (fa_eth F)) (Id_Number (saturated_into n)) = Ok (Some (blk n))"
  shows "filter_changes_rpc L F i p =
    (Ok (Changes_Hashes (map (\<lambda>n. header_hash L (bk_header (blk n))) (number_range a (best_u64 F + 1)))),
     polled (ucast i) item (best_u64 F + 1) p)"
  using assms by (simp add: filter_changes_rpc_def Let_def block_hash_loop_eq [OF assms(5)])

text \<open>
  C28: successive polls of a block filter miss nothing and repeat nothing. When the chain grows from one
  poll to the next and the runtime answers for its blocks, the two polls together return the hashes of
  all blocks from the last poll to the best block, each once and in order.
\<close>

theorem block_filter_no_gap:
  assumes "btree_ok (mx_value p)" "\<not> mx_poisoned p"
    and "map_of (mx_value p) (ucast i) = Some item" "pi_filter_type item = Type_Block"
    and "pi_last_poll item = BN_Num a" "unat a \<le> Suc (unat (ea_best_number (fa_eth F1)))"
    and "ea_best_number (fa_eth F1) \<le> ea_best_number (fa_eth F2)"
    and "\<forall>F \<in> {F1, F2}. \<forall>n. unat n \<le> unat (ea_best_number (fa_eth F)) \<longrightarrow>
      ra_current_block (ea_runtime (fa_eth F)) (Id_Number (saturated_into n)) = Ok (Some (blk n))"
  shows "\<exists>p1 p2 hs1 hs2. filter_changes_rpc L F1 i p = (Ok (Changes_Hashes hs1), p1) \<and>
    filter_changes_rpc L F2 i p1 = (Ok (Changes_Hashes hs2), p2) \<and>
    hs1 @ hs2 = map (\<lambda>n. header_hash L (bk_header (blk n))) (number_range a (best_u64 F2 + 1))"
proof -
  let ?h = "map (\<lambda>n. header_hash L (bk_header (blk n)))"
  let ?p1 = "polled (ucast i) item (best_u64 F1 + 1) p"
  let ?item = "item\<lparr>pi_last_poll := BN_Num (best_u64 F1 + 1)\<rparr>"
  have ok: "\<forall>n \<in> set (number_range x (best_u64 F + 1)).
      ra_current_block (ea_runtime (fa_eth F)) (Id_Number (saturated_into n)) = Ok (Some (blk n))"
    if "F \<in> {F1, F2}" for F x
  proof
    fix n
    assume "n \<in> set (number_range x (best_u64 F + 1))"
    then have "unat n \<le> unat (ea_best_number (fa_eth F))"
      using set_number_range unat_next by (metis less_Suc_eq_le)
    then show "ra_current_block (ea_runtime (fa_eth F)) (Id_Number (saturated_into n)) = Ok (Some (blk n))"
      using that assms(8) by blast
  qed
  have one: "filter_changes_rpc L F1 i p = (Ok (Changes_Hashes (?h (number_range a (best_u64 F1 + 1)))), ?p1)"
    by (rule poll_block_filter [OF assms(2-5) ok]) simp
  have "filter_changes_rpc L F2 i ?p1 = (Ok (Changes_Hashes (?h (number_range (best_u64 F1 + 1) (best_u64 F2 + 1)))),
      polled (ucast i) ?item (best_u64 F2 + 1) ?p1)"
    using assms(1,2,4) by (intro poll_block_filter ok) (simp_all add: polled_def btree_lookup_insert)
  moreover have "number_range a (best_u64 F1 + 1) @ number_range (best_u64 F1 + 1) (best_u64 F2 + 1) =
      number_range a (best_u64 F2 + 1)"
    using assms(6,7) by (intro number_range_append) (simp_all add: unat_next word_le_nat_alt)
  ultimately show ?thesis using one by (metis map_append)
qed

section \<open>Pending transactions\<close>

lemma pending_transaction_task_lookup:
  assumes "\<not> mx_poisoned p" "find_log D dg = Ok lg"
  shows "mx_value (pending_transaction_task L D threshold dg number p) k =
    (case mx_value p k of
       Some v \<Rightarrow>
         if k \<notin> set (hs_transaction_hashes (into_hashes L lg)) \<and>
            saturated_into number < pt_at_block v + threshold then Some v else None
     | None \<Rightarrow> None)"
  using assms by (simp add: pending_transaction_task_def retain_def Let_def split: option.splits)

text \<open>
  C27: the life of a pending transaction. After the pool has accepted a transaction that no synced block
  contains, it is found by its hash as a transaction without a block; importing a block that neither
  contains it nor is past its lifespan keeps it; importing a block that contains it removes it, so
  that from then on only the mapping answers for it.
\<close>

theorem pending_lifecycle:
  assumes "ea_backend E = backend_new C B" "repr C B (ea_db E) m" "m_transactions m (transaction_hash L t) = []"
    and "submit_transaction L E P t s = (Ok h, s')" "ns_pending s = Some p" "\<not> mx_poisoned p"
    and "find_log D dg = Ok lg"
    and "unat (ea_best_number E) + unat threshold < 2 ^ 64"
  shows "\<exists>p'. ns_pending s' = Some p' \<and> h = transaction_hash L t \<and>
    transaction_by_hash L E (ns_pending s') h = Ok (Some (transaction_build L t None None)) \<and>
    transaction_by_hash L E (Some (pending_transaction_task L D threshold dg number p')) h =
      Ok (if h \<notin> set (hs_transaction_hashes (into_hashes L lg)) \<and>
             unat number < unat (ea_best_number E) + unat threshold
          then Some (transaction_build L t None None) else None)"
proof -
  let ?v = "pending_transaction_new (transaction_build L t None None) (saturated_into (ea_best_number E))"
  let ?p' = "p\<lparr>mx_value := (mx_value p)(transaction_hash L t := Some ?v)\<rparr>"
  have s': "h = transaction_hash L t" "ns_pending s' = Some ?p'"
    using assms(4-6) by (auto simp: submit_transaction_def Let_def insert_pending_def split: prod.splits res.splits)
  have lost: "transaction_by_hash L E pending h = Ok (pending_lookup pending h)" for pending
    using mapping_db.transaction_lost(1) [OF assms(1,2)] assms(3) s'(1) by simp
  have at: "unat (pt_at_block ?v) = unat (ea_best_number E)"
    using unat_bound [of "ea_best_number E"] by (simp add: pending_transaction_new_def unat_saturated_into)
  have num: "unat (saturated_into number :: u64) = unat number"
    using unat_bound [of number] by (simp add: unat_saturated_into)
  have sum: "unat (pt_at_block ?v + threshold) = unat (ea_best_number E) + unat threshold"
    using assms(8) at by (simp add: unat_word_ariths)
  have life: "saturated_into number < pt_at_block ?v + threshold \<longleftrightarrow>
      unat number < unat (ea_best_number E) + unat threshold"
    by (simp add: word_less_nat_alt num sum)
  have "\<not> mx_poisoned (pending_transaction_task L D threshold dg number ?p')"
    using assms(6) by (simp add: pending_transaction_task_def Let_def)
  then have "pending_lookup (Some (pending_transaction_task L D threshold dg number ?p')) h =
      (if h \<notin> set (hs_transaction_hashes (into_hashes L lg)) \<and>
          unat number < unat (ea_best_number E) + unat threshold
       then Some (transaction_build L t None None) else None)"
    using pending_transaction_task_lookup [of ?p' D dg lg L threshold number h] assms(6,7) s'(1) life
    by (simp add: pending_lookup_def) (simp add: pending_transaction_new_def)
  moreover have "pending_lookup (ns_pending s') h = Some (transaction_build L t None None)"
    using s' assms(6) by (simp add: pending_lookup_def pending_transaction_new_def)
  ultimately show ?thesis using s' lost by simp
qed

section \<open>Witnesses\<close>

definition sample_fapi :: "(u32 \<Rightarrow> bytes \<Rightarrow> bytes option) filter_api" where
  "sample_fapi = \<lparr>fa_eth = sample_api (backend_new sample_codec sample_db) (\<lambda>_ _. None),
     fa_max_stored_filters = 2, fa_show_key = (\<lambda>_. ''''), fa_show_limit = decimal\<rparr>"

definition one_filter_pool :: filter_pool where
  "one_filter_pool = \<lparr>mx_poisoned = False, mx_value = [(1,
     \<lparr>pi_last_poll = BN_Num 3, pi_filter_type = Type_Block, pi_at_block = 3\<rparr>)]\<rparr>"

lemma sample_create:
  "create_filter sample_fapi Type_Block \<lparr>mx_poisoned = False, mx_value = []\<rparr> = (Ok 1, one_filter_pool)"
  by (simp add: create_filter_def sample_fapi_def sample_api_def one_filter_pool_def best_u64_def
      checked_add_def saturated_into_def)

theorem filter_pool_invariant_witness: "pool_ok 2 (mx_value one_filter_pool)"
proof -
  have "pool_reach sample_eth {sample_fapi} one_filter_pool"
    using reach_create [OF reach_empty _ sample_create] by blast
  moreover have "\<forall>F \<in> {sample_fapi}. fa_max_stored_filters F = 2" by (simp add: sample_fapi_def)
  ultimately show ?thesis using filter_pool_invariant by blast
qed

theorem block_filter_no_gap_witness:
  "\<exists>p1 p2 hs1 hs2. filter_changes_rpc sample_eth sample_fapi 1 one_filter_pool = (Ok (Changes_Hashes hs1), p1) \<and>
    filter_changes_rpc sample_eth sample_fapi 1 p1 = (Ok (Changes_Hashes hs2), p2) \<and>
    hs1 @ hs2 = map (\<lambda>n. header_hash sample_eth (bk_header rpc_bk)) (number_range 3 (best_u64 sample_fapi + 1))"
  by (rule block_filter_no_gap [where item = "\<lparr>pi_last_poll = BN_Num 3, pi_filter_type = Type_Block, pi_at_block = 3\<rparr>"])
    (simp_all add: one_filter_pool_def btree_ok_def sample_fapi_def sample_api_def client_api_def rpc_state_def)

definition accepting_pool :: "(unit, transaction) pool_api" where
  "accepting_pool = \<lparr>pl_convert = (\<lambda>t. t), pl_submit = (\<lambda>_ _ s. (Ok (), s))\<rparr>"

theorem pending_lifecycle_witness:
  "\<exists>s'. submit_transaction sample_eth (sample_api (backend_new sample_codec sample_db) (\<lambda>_ _. None))
      accepting_pool sample_tx
      \<lparr>ns_pool = (), ns_pending = Some \<lparr>mx_poisoned = False, mx_value = (\<lambda>_. None)\<rparr>\<rparr> =
      (Ok (transaction_hash sample_eth sample_tx), s') \<and>
    transaction_by_hash sample_eth (sample_api (backend_new sample_codec sample_db) (\<lambda>_ _. None))
      (ns_pending s') (transaction_hash sample_eth sample_tx) =
      Ok (Some (transaction_build sample_eth sample_tx None None))"
proof -
  let ?E = "sample_api (backend_new sample_codec sample_db) (\<lambda>_ _. None)"
  let ?s = "\<lparr>ns_pool = (), ns_pending = Some \<lparr>mx_poisoned = False, mx_value = (\<lambda>_. None)\<rparr>\<rparr>"
  obtain s' where s': "submit_transaction sample_eth ?E accepting_pool sample_tx ?s =
      (Ok (transaction_hash sample_eth sample_tx), s')"
    by (simp add: submit_transaction_def accepting_pool_def Let_def)
  have e: "ea_backend ?E = backend_new sample_codec sample_db"
    "repr sample_codec sample_db (ea_db ?E) empty_mapping"
    "m_transactions empty_mapping (transaction_hash sample_eth sample_tx) = []"
    using sample_repr by (simp_all add: sample_api_def empty_mapping_def)
  have l: "find_log sample_digest [Log_Post (PostLog_Hashes \<lparr>hs_block_hash = 1, hs_transaction_hashes = []\<rparr>)] =
      Ok (Log_Post (PostLog_Hashes \<lparr>hs_block_hash = 1, hs_transaction_hashes = []\<rparr>))"
    by (simp add: find_log_def sample_digest_def)
  from pending_lifecycle [OF e s' _ _ l, of _ 5] s' show ?thesis
    by (force simp: sample_api_def)
qed

end
