(* ===== verification/Rpc_Pubsub.thy ===== *)
theory Rpc_Pubsub
  imports Rpc_Pool
begin

text \<open>
  The subscriptions of \<open>client/rpc/src/eth_pubsub.rs\<close> with the types of
  \<open>client/rpc-core/src/types/pubsub.rs\<close>. A subscription is the state its stream closure
  captures; a notification of the client (an imported block, or the storage changes of a block) moves
  it by one step that emits results or panics. What the network answers to \<open>is_major_syncing\<close>
  when a block is imported is part of the notification. The executor and the sink that carry the
  results, and the subscription manager, are outside the repository.
\<close>

section \<open>Types\<close>

record rpc_head =
  rh_hash :: "h256 option"
  rh_parent_hash :: h256
  rh_uncles_hash :: h256
  rh_author :: h160
  rh_miner :: h160
  rh_state_root :: h256
  rh_transactions_root :: h256
  rh_receipts_root :: h256
  rh_number :: "u256 option"
  rh_gas_used :: u256
  rh_gas_limit :: u256
  rh_extra_data :: bytes
  rh_logs_bloom :: bloom
  rh_timestamp :: u256
  rh_difficulty :: u256
  rh_seal_fields :: "bytes list"
  rh_size :: "u256 option"

record 'a rich =
  ri_inner :: 'a
  ri_extra_info :: "(string \<times> string) list"

type_synonym rich_header = "rpc_head rich"

record pubsub_sync_status =
  ps_syncing :: bool

datatype pubsub_result =
  PubSub_Header rich_header
| PubSub_Log rpc_log
| PubSub_TransactionHash h256
| PubSub_SyncState pubsub_sync_status

datatype pubsub_kind = Kind_NewHeads | Kind_Logs | Kind_NewPendingTransactions | Kind_Syncing

datatype pubsub_params = Params_None | Params_Logs log_filter

definition pubsub_params_default :: pubsub_params where
  "pubsub_params_default = Params_None"

text \<open>The derived deserialiser of \<open>Filter\<close> is the parameter \<open>from_value\<close>.\<close>

definition pubsub_params_deserialize ::
  "('v \<Rightarrow> bool) \<Rightarrow> ('v \<Rightarrow> (string, log_filter) res) \<Rightarrow> 'v \<Rightarrow> (string, pubsub_params) res" where
  "pubsub_params_deserialize is_null from_value v =
     (if is_null v then Ok Params_None
      else map_err (\<lambda>e. ''Invalid Pub-Sub parameters: '' @ e) (map_ok Params_Logs (from_value v)))"

text \<open>\<open>Serialize for Result\<close>: each variant is serialised as its content.\<close>

record 'j pubsub_serializer =
  sz_header :: "rich_header \<Rightarrow> 'j"
  sz_log :: "rpc_log \<Rightarrow> 'j"
  sz_hash :: "h256 \<Rightarrow> 'j"
  sz_sync :: "pubsub_sync_status \<Rightarrow> 'j"

fun pubsub_result_serialize :: "'j pubsub_serializer \<Rightarrow> pubsub_result \<Rightarrow> 'j" where
  "pubsub_result_serialize z (PubSub_Header header) = sz_header z header"
| "pubsub_result_serialize z (PubSub_Log log) = sz_log z log"
| "pubsub_result_serialize z (PubSub_TransactionHash hash) = sz_hash z hash"
| "pubsub_result_serialize z (PubSub_SyncState sync) = sz_sync z sync"

text \<open>
  A \<open>Rich\<close> value is one JSON object: the fields of the inner value, overridden by the extra ones.
  The serialisers of the inner value and of strings are parameters.
\<close>

datatype 'j json_value = J_Object "string \<rightharpoonup> 'j" | J_Other 'j

definition rich_serialize ::
  "('a \<Rightarrow> (string, 'j json_value) res) \<Rightarrow> (string \<Rightarrow> 'j) \<Rightarrow> 'a rich \<Rightarrow> (string, string \<rightharpoonup> 'j) res" where
  "rich_serialize to_value str r =
     (case to_value (ri_inner r) of
        Ok (J_Object value) \<Rightarrow> Ok (value ++ (map_option str \<circ> map_of (ri_extra_info r)))
      | Panic \<Rightarrow> Panic
      | _ \<Rightarrow> Err ''Unserializable structures: expected objects'')"

fun block_transactions_serialize ::
  "(h256 list \<Rightarrow> 'j) \<Rightarrow> (rpc_transaction list \<Rightarrow> 'j) \<Rightarrow> block_transactions \<Rightarrow> 'j" where
  "block_transactions_serialize hashes_to full_to (BT_Hashes hs) = hashes_to hs"
| "block_transactions_serialize hashes_to full_to (BT_Full ts) = full_to ts"

fun sync_status_serialize :: "(sync_info \<Rightarrow> 'j) \<Rightarrow> (bool \<Rightarrow> 'j) \<Rightarrow> sync_status \<Rightarrow> 'j" where
  "sync_status_serialize info_to bool_to (Sync_Info info) = info_to info"
| "sync_status_serialize info_to bool_to Sync_None = bool_to False"

definition work_serialize :: "(h256 \<Rightarrow> 'j) \<Rightarrow> (u256 \<Rightarrow> 'j) \<Rightarrow> work \<Rightarrow> 'j list" where
  "work_serialize hash_to num_to w =
     (case wk_number w of
        Some n \<Rightarrow> [hash_to (wk_pow_hash w), hash_to (wk_seed_hash w), hash_to (wk_target w), num_to (ucast n)]
      | None \<Rightarrow> [hash_to (wk_pow_hash w), hash_to (wk_seed_hash w), hash_to (wk_target w)])"

section \<open>Subscription identifiers\<close>

text \<open>
  \<open>HexEncodedIdProvider\<close>: the alphanumeric samples of the thread's random generator are the
  argument \<open>samples\<close>, of which \<open>take(len)\<close> keeps a prefix.
\<close>

record id_provider =
  ip_len :: nat

definition id_provider_default :: id_provider where
  "id_provider_default = \<lparr>ip_len = 16\<rparr>"

definition next_id :: "hex_lib \<Rightarrow> id_provider \<Rightarrow> bytes \<Rightarrow> string" where
  "next_id X p samples = ''0x'' @ hex_to X (take (ip_len p) samples)"

section \<open>What a subscription sends\<close>

definition new_heads :: "eth_lib \<Rightarrow> (block \<Rightarrow> bytes) \<Rightarrow> block \<Rightarrow> pubsub_result" where
  "new_heads L rlp_block block =
     (let h = bk_header block in
      PubSub_Header \<lparr>ri_inner = \<lparr>
          rh_hash = Some (h256_from_slice (keccak256 L (rlp_header L h))),
          rh_parent_hash = hd_parent_hash h,
          rh_uncles_hash = hd_ommers_hash h,
          rh_author = hd_beneficiary h,
          rh_miner = hd_beneficiary h,
          rh_state_root = hd_state_root h,
          rh_transactions_root = hd_transactions_root h,
          rh_receipts_root = hd_receipts_root h,
          rh_number = Some (hd_number h),
          rh_gas_used = hd_gas_used h,
          rh_gas_limit = hd_gas_limit h,
          rh_extra_data = hd_extra_data h,
          rh_logs_bloom = hd_logs_bloom h,
          rh_timestamp = ucast (hd_timestamp h),
          rh_difficulty = hd_difficulty h,
          rh_seal_fields = [h256_bytes (hd_mix_hash h), be_bytes 8 (unat (hd_nonce h))],
          rh_size = Some (ucast (word_of_nat (length (rlp_block block)) :: u32))\<rparr>,
        ri_extra_info = []\<rparr>)"

text \<open>The tests run in the order of the code and stop at the first that fails.\<close>

definition pubsub_add_log :: "h256 \<Rightarrow> eth_log \<Rightarrow> block \<Rightarrow> filtered_params \<Rightarrow> bool rpc" where
  "pubsub_add_log block_hash ethereum_log block params =
     (let log = \<lparr>rl_address = log_address ethereum_log, rl_topics = log_topics ethereum_log,
            rl_data = log_data ethereum_log, rl_block_hash = None, rl_block_number = None,
            rl_transaction_hash = None, rl_transaction_index = None, rl_log_index = None,
            rl_transaction_log_index = None, rl_removed = False\<rparr> in
      case fp_filter params of
        Some _ \<Rightarrow>
          (let block_number = saturated_into (hd_number (bk_header block)) in
           res_bind (filter_block_range params block_number) (\<lambda>a. if \<not> a then Ok False else
           res_bind (filter_block_hash params block_hash) (\<lambda>b. if \<not> b then Ok False else
           res_bind (filter_address params log) (\<lambda>c. if \<not> c then Ok False else
           filter_topics params log))))
      | None \<Rightarrow> Ok True)"

text \<open>The logs of one receipt; both counters are 32 bits wide.\<close>

fun pubsub_receipt_logs ::
  "h256 \<Rightarrow> block \<Rightarrow> filtered_params \<Rightarrow> h256 option \<Rightarrow> eth_log list \<Rightarrow> u32 \<Rightarrow> u32 \<Rightarrow> rpc_log list \<Rightarrow>
     (u32 \<times> rpc_log list) rpc" where
  "pubsub_receipt_logs block_hash block params hash [] log_index tli acc = Ok (log_index, acc)"
| "pubsub_receipt_logs block_hash block params hash (log # rest) log_index tli acc =
     res_bind (pubsub_add_log block_hash log block params) (\<lambda>add.
     pubsub_receipt_logs block_hash block params hash rest (log_index + 1) (tli + 1)
       (if add then
          acc @ [\<lparr>rl_address = log_address log, rl_topics = log_topics log, rl_data = log_data log,
                   rl_block_hash = Some block_hash,
                   rl_block_number = Some (hd_number (bk_header block)),
                   rl_transaction_hash = hash,
                   rl_transaction_index = Some (ucast log_index),
                   rl_log_index = Some (ucast log_index),
                   rl_transaction_log_index = Some (ucast tli),
                   rl_removed = False\<rparr>]
        else acc))"

text \<open>A receipt with logs reads the transaction at its index, which panics past the end.\<close>

fun pubsub_logs_loop ::
  "eth_lib \<Rightarrow> h256 \<Rightarrow> block \<Rightarrow> filtered_params \<Rightarrow> receipt list \<Rightarrow> nat \<Rightarrow> u32 \<Rightarrow> rpc_log list \<Rightarrow> rpc_log list rpc" where
  "pubsub_logs_loop L block_hash block params [] receipt_index log_index acc = Ok acc"
| "pubsub_logs_loop L block_hash block params (receipt # receipts) receipt_index log_index acc =
     res_bind
       (if length (rc_logs receipt) > 0
        then map_ok (\<lambda>t. Some (transaction_hash L t)) (index_at (bk_transactions block) receipt_index)
        else Ok None) (\<lambda>hash.
     res_bind (pubsub_receipt_logs block_hash block params hash (rc_logs receipt) log_index 0 acc)
       (\<lambda>(log_index, acc).
     pubsub_logs_loop L block_hash block params receipts (Suc receipt_index) log_index acc))"

definition pubsub_logs :: "eth_lib \<Rightarrow> block \<Rightarrow> receipt list \<Rightarrow> filtered_params \<Rightarrow> rpc_log list rpc" where
  "pubsub_logs L block receipts params =
     (let block_hash = h256_from_slice (keccak256 L (rlp_header L (bk_header block))) in
      pubsub_logs_loop L block_hash block params receipts 0 0 [])"

section \<open>The streams\<close>

record import_notification =
  in_hash :: h256
  in_is_new_best :: bool

text \<open>A change of storage: the child trie, the key, and the new value if the entry was not removed.\<close>

type_synonym storage_changes = "(bytes option \<times> bytes \<times> bytes option) list"

datatype notification =
  Note_Import import_notification bool
| Note_Storage h256 storage_changes

record pubsub_api =
  pa_runtime :: runtime_api
  pa_rlp_block :: "block \<Rightarrow> bytes"
  pa_decode_pending :: "bytes \<Rightarrow> pending_entry list option"

definition logs_notification ::
  "eth_lib \<Rightarrow> pubsub_api \<Rightarrow> filtered_params \<Rightarrow> import_notification \<Rightarrow> pubsub_result list rpc" where
  "logs_notification L A params n =
     (if in_is_new_best n then
        (let i = Id_Hash (in_hash n);
             receipts = ra_current_receipts (pa_runtime A) i;
             block = ra_current_block (pa_runtime A) i in
         case (receipts, block) of
           (Ok (Some receipts), Ok (Some block)) \<Rightarrow>
             map_ok (map PubSub_Log) (pubsub_logs L block receipts params)
         | (Panic, _) \<Rightarrow> Panic
         | (_, Panic) \<Rightarrow> Panic
         | _ \<Rightarrow> Ok [])
      else Ok [])"

definition heads_notification ::
  "eth_lib \<Rightarrow> pubsub_api \<Rightarrow> import_notification \<Rightarrow> pubsub_result list rpc" where
  "heads_notification L A n =
     (if in_is_new_best n then
        (case ra_current_block (pa_runtime A) (Id_Hash (in_hash n)) of
           Ok (Some block) \<Rightarrow> Ok [new_heads L (pa_rlp_block A) block]
         | Panic \<Rightarrow> Panic
         | _ \<Rightarrow> Ok [])
      else Ok [])"

text \<open>
  The pending subscription: removed entries are skipped, the others are decoded with an
  \<open>unwrap\<close>.
\<close>

fun pending_transactions ::
  "(bytes \<Rightarrow> pending_entry list option) \<Rightarrow> bytes option list \<Rightarrow> transaction list rpc" where
  "pending_transactions dec [] = Ok []"
| "pending_transactions dec (None # changes) = pending_transactions dec changes"
| "pending_transactions dec (Some data # changes) =
     res_bind (unwrap (dec data)) (\<lambda>storage.
     map_ok (\<lambda>ts. map (\<lambda>(t, st, r). t) storage @ ts) (pending_transactions dec changes))"

definition pending_notification ::
  "eth_lib \<Rightarrow> pubsub_api \<Rightarrow> storage_changes \<Rightarrow> pubsub_result list rpc" where
  "pending_notification L A changes =
     (let storage = List.map_filter (\<lambda>(o_sk, k, v). if o_sk = None then Some v else None) changes in
      map_ok (map (\<lambda>t. PubSub_TransactionHash (transaction_hash L t)))
        (pending_transactions (pa_decode_pending A) storage))"

definition syncing_notification :: "bool \<Rightarrow> import_notification \<Rightarrow> bool \<Rightarrow> pubsub_result list \<times> bool" where
  "syncing_notification previous_syncing n major =
     (if in_is_new_best n \<and> previous_syncing \<noteq> major
      then ([PubSub_SyncState \<lparr>ps_syncing = major\<rparr>], major)
      else ([], previous_syncing))"

datatype subscription = Sub_Logs filtered_params | Sub_NewHeads | Sub_Pending | Sub_Syncing bool

text \<open>
  \<open>subscribe\<close>: the parameters become a filter and the kind selects the stream.
  \<open>major\<close> is the answer of the network when the subscription is added, \<open>storage_stream\<close>
  whether the client grants a stream of storage changes under a key. Without one the subscriber is dropped.
\<close>

definition pending_key :: "raw_storage \<Rightarrow> bytes" where
  "pending_key S = storage_prefix_build S (ascii ''Ethereum'') (ascii ''Pending'')"

definition subscribe ::
  "raw_storage \<Rightarrow> (bytes \<Rightarrow> bool) \<Rightarrow> bool \<Rightarrow> pubsub_kind \<Rightarrow> pubsub_params option \<Rightarrow> subscription option" where
  "subscribe S storage_stream major kind params =
     (let filtered_params =
        (case params of
           Some (Params_Logs f) \<Rightarrow> filtered_params_new (Some f)
         | _ \<Rightarrow> filtered_params_default) in
      case kind of
        Kind_Logs \<Rightarrow> Some (Sub_Logs filtered_params)
      | Kind_NewHeads \<Rightarrow> Some Sub_NewHeads
      | Kind_NewPendingTransactions \<Rightarrow>
          if storage_stream (pending_key S) then Some Sub_Pending else None
      | Kind_Syncing \<Rightarrow> Some (Sub_Syncing major))"

text \<open>
  One notification. Each subscription listens to one of the two streams; the storage stream was
  opened for the key of \<open>Pending\<close> alone.
\<close>

fun sub_step ::
  "eth_lib \<Rightarrow> pubsub_api \<Rightarrow> subscription \<Rightarrow> notification \<Rightarrow> (pubsub_result list \<times> subscription) rpc" where
  "sub_step L A (Sub_Logs params) (Note_Import n major) =
     map_ok (\<lambda>rs. (rs, Sub_Logs params)) (logs_notification L A params n)"
| "sub_step L A Sub_NewHeads (Note_Import n major) =
     map_ok (\<lambda>rs. (rs, Sub_NewHeads)) (heads_notification L A n)"
| "sub_step L A (Sub_Syncing previous) (Note_Import n major) =
     (let (rs, previous) = syncing_notification previous n major in Ok (rs, Sub_Syncing previous))"
| "sub_step L A Sub_Pending (Note_Storage b changes) =
     map_ok (\<lambda>rs. (rs, Sub_Pending)) (pending_notification L A changes)"
| "sub_step L A s n = Ok ([], s)"

text \<open>A panic ends the stream; what was emitted before stays emitted.\<close>

fun sub_run ::
  "eth_lib \<Rightarrow> pubsub_api \<Rightarrow> subscription \<Rightarrow> notification list \<Rightarrow> pubsub_result list \<times> subscription option" where
  "sub_run L A s [] = ([], Some s)"
| "sub_run L A s (n # ns) =
     (case sub_step L A s n of
        Ok (rs, s') \<Rightarrow> (let (rest, s'') = sub_run L A s' ns in (rs @ rest, s''))
      | _ \<Rightarrow> ([], None))"

definition unsubscribe :: "('i \<Rightarrow> 'm \<Rightarrow> bool \<times> 'm) \<Rightarrow> 'i \<Rightarrow> 'm \<Rightarrow> bool rpc \<times> 'm" where
  "unsubscribe cancel subscription_id manager =
     (let (found, manager) = cancel subscription_id manager in (Ok found, manager))"

section \<open>The log stream\<close>

text \<open>What the subscription asks of a log beyond the filter of a log query: the range and the hash of its block.\<close>

definition stream_matches :: "log_filter option \<Rightarrow> eth_lib \<Rightarrow> block \<Rightarrow> rpc_log \<Rightarrow> bool" where
  "stream_matches f L b l \<longleftrightarrow>
     (case f of
        None \<Rightarrow> True
      | Some f \<Rightarrow>
          (let n = saturated_into (hd_number (bk_header b)) in
           range_from (fl_from_block f) n \<and> range_to (fl_to_block f) n) \<and>
          (case fl_block_hash f of Some h \<Rightarrow> h = header_keccak L (bk_header b) | None \<Rightarrow> True) \<and>
          log_matches f l)"

lemma stream_matches_located [simp]:
  "stream_matches f L b (located_log L b st k i l) = stream_matches f L b (bare_log l)"
  by (simp add: stream_matches_def split: option.split)

lemma pubsub_add_log_eq:
  "pubsub_add_log (header_keccak L (bk_header b)) l b (filtered_params_new f) = Ok (stream_matches f L b (bare_log l))"
proof (cases f)
  case (Some g)
  have "fp_filter (filtered_params_new (Some g)) = Some g" by (simp add: filtered_params_new_def)
  then show ?thesis
    using Some by (auto simp: pubsub_add_log_def stream_matches_def Let_def filter_block_range_def filter_block_hash_def
        filter_address_def filter_topics_def filter_topics_loop_value log_matches_def bare_log_def
        split: option.splits variadic.splits)
qed (simp add: pubsub_add_log_def stream_matches_def filtered_params_new_def filtered_params_default_def Let_def)

text \<open>The position the stream gives for the transaction of a log is that of the log.\<close>

definition stream_log :: "rpc_log \<Rightarrow> rpc_log" where
  "stream_log l = l\<lparr>rl_transaction_index := rl_log_index l\<rparr>"

lemma pubsub_receipt_logs_eq:
  assumes "hash = Some (st_transaction_hash st)"
  shows "pubsub_receipt_logs (header_keccak L (bk_header b)) b (filtered_params_new f) hash ls
      (word_of_nat k) (word_of_nat i) acc =
    Ok (word_of_nat (k + length ls), acc @ map stream_log (filter (stream_matches f L b)
      (map (\<lambda>(j, l). located_log L b st (k + (j - i)) j l) (enumerate i ls))))"
proof (induction ls arbitrary: i k acc)
  case (Cons l ls)
  have w: "word_of_nat i + 1 = (word_of_nat (Suc i) :: u32)" "word_of_nat k + 1 = (word_of_nat (Suc k) :: u32)"
    by (simp_all add: add.commute)
  have e: "map (\<lambda>(j, l). located_log L b st (Suc k + (j - Suc i)) j l) (enumerate (Suc i) ls) =
      map (\<lambda>(j, l). located_log L b st (k + (j - i)) j l) (enumerate (Suc i) ls)"
    by (intro map_cong refl) (auto simp: in_set_enumerate_eq simp flip: Suc_diff_le)
  have l: "\<lparr>rl_address = log_address l, rl_topics = log_topics l, rl_data = log_data l,
      rl_block_hash = Some (header_keccak L (bk_header b)), rl_block_number = Some (hd_number (bk_header b)),
      rl_transaction_hash = hash, rl_transaction_index = Some (ucast (word_of_nat k :: u32)),
      rl_log_index = Some (ucast (word_of_nat k :: u32)),
      rl_transaction_log_index = Some (ucast (word_of_nat i :: u32)), rl_removed = False\<rparr> =
    stream_log (located_log L b st k i l)"
    by (simp add: stream_log_def located_log_def bare_log_def assms)
  have "pubsub_receipt_logs (header_keccak L (bk_header b)) b (filtered_params_new f) hash (l # ls)
      (word_of_nat k) (word_of_nat i) acc =
    pubsub_receipt_logs (header_keccak L (bk_header b)) b (filtered_params_new f) hash ls
      (word_of_nat (Suc k)) (word_of_nat (Suc i))
      (if stream_matches f L b (bare_log l) then acc @ [stream_log (located_log L b st k i l)] else acc)"
    unfolding pubsub_receipt_logs.simps pubsub_add_log_eq res_bind.simps w l ..
  then show ?case by (simp only: Cons.IH e) simp
qed simp

lemma pubsub_logs_loop_eq:
  assumes "\<forall>(t, st, r) \<in> set qs. st_transaction_hash st = transaction_hash L t \<and> rc_logs r = st_logs st"
    and "map fst qs = drop j (bk_transactions b)"
  shows "pubsub_logs_loop L (header_keccak L (bk_header b)) b (filtered_params_new f) (map (snd \<circ> snd) qs) j
      (word_of_nat k) acc =
    Ok (acc @ map stream_log (filter (stream_matches f L b) (numbered_logs L b (map (fst \<circ> snd) qs) k)))"
  using assms
proof (induction qs arbitrary: j k acc)
  case (Cons q qs)
  obtain t st r where q: "q = (t, st, r)" by (cases q)
  have st: "st_transaction_hash st = transaction_hash L t" "rc_logs r = st_logs st"
    using Cons.prems(1) by (simp_all add: q)
  have j: "j < length (bk_transactions b)" "bk_transactions b ! j = t" "map fst qs = drop (Suc j) (bk_transactions b)"
    using Cons.prems(2) by (auto simp: q) (metis drop_all list.distinct(1) not_le_imp_less,
        metis Cons_nth_drop_Suc drop_all list.distinct(1) list.inject not_le_imp_less,
        metis Cons_nth_drop_Suc drop_all list.distinct(1) list.inject not_le_imp_less)
  have IH: "pubsub_logs_loop L (header_keccak L (bk_header b)) b (filtered_params_new f) (map (snd \<circ> snd) qs)
      (Suc j) (word_of_nat k') acc' =
    Ok (acc' @ map stream_log (filter (stream_matches f L b) (numbered_logs L b (map (fst \<circ> snd) qs) k')))"
    for k' acc'
    using Cons.prems(1) j(3) by (intro Cons.IH) simp_all
  show ?case
  proof (cases "st_logs st = []")
    case True
    then show ?thesis using IH [of k acc] by (simp add: q st transaction_logs_def comp_def)
  next
    case False
    then show ?thesis
      using pubsub_receipt_logs_eq [of _ st L b f "st_logs st" k 0 acc] IH [of "k + length (st_logs st)"] j
      by (simp add: q st index_at_def transaction_logs_def comp_def del: of_nat_add)
  qed
qed simp


lemma subscribe_logs:
  "subscribe S storage_stream major Kind_Logs params =
     Some (Sub_Logs (filtered_params_new (case params of Some (Params_Logs f) \<Rightarrow> Some f | _ \<Rightarrow> None)))"
  by (simp add: subscribe_def filtered_params_new_def split: option.split pubsub_params.split)

text \<open>
  C29: the stream of logs. For every new best block that the Ethereum pallet finalised, a subscription
  to logs sends exactly the logs of its transactions that match the filter, in order and with their
  positions, and does not panic; the only deviation from the answer of a log query is that the
  index of the transaction is the index of the log.
\<close>

theorem log_stream_complete:
  assumes "block_lib_ok L" "pending_ok L (pending_txs s)" "eth_on_finalize L D A H E s = (Ok (), s')"
    and "state_at (Id_Hash (in_hash n)) = Ok s'" "in_is_new_best n"
    and "pa_runtime P = client_api A H K R show_error state_at"
    and "subscribe S storage_stream major Kind_Logs params = Some sub"
  shows "\<exists>blk sts. cur_block s' = Some blk \<and> cur_statuses s' = Some sts \<and>
    sub_step L P sub (Note_Import n m) =
      Ok (map (PubSub_Log \<circ> stream_log)
            (filter (stream_matches (case params of Some (Params_Logs f) \<Rightarrow> Some f | _ \<Rightarrow> None) L blk)
              (numbered_logs L blk sts 0)), sub)"
proof -
  let ?ps = "pending_txs s" and ?f = "case params of Some (Params_Logs f) \<Rightarrow> Some f | _ \<Rightarrow> None"
  obtain blk where s': "cur_block s' = Some blk" "cur_receipts s' = Some (map (snd \<circ> snd) ?ps)"
      "cur_statuses s' = Some (map (fst \<circ> snd) ?ps)" "bk_transactions blk = map fst ?ps"
    using finalized_state [OF assms(1,3)] by blast
  have "st_transaction_hash st = transaction_hash L t \<and> rc_logs r = st_logs st"
    if q: "(t, st, r) \<in> set ?ps" for t st r
  proof -
    obtain i where "i < length ?ps" "?ps ! i = (t, st, r)" using q by (metis in_set_conv_nth)
    then have "entry_ok L i (t, st, r)" using assms(2) by (metis pending_ok_def)
    then show ?thesis by (simp add: entry_ok_def)
  qed
  then have "\<forall>(t, st, r) \<in> set ?ps. st_transaction_hash st = transaction_hash L t \<and> rc_logs r = st_logs st"
    by blast
  then have "pubsub_logs L blk (map (snd \<circ> snd) ?ps) (filtered_params_new ?f) =
      Ok (map stream_log (filter (stream_matches ?f L blk) (numbered_logs L blk (map (fst \<circ> snd) ?ps) 0)))"
    using pubsub_logs_loop_eq [of ?ps L 0 blk ?f 0 "[]"] s'(4)
    by (simp add: pubsub_logs_def header_keccak_def)
  moreover have "sub = Sub_Logs (filtered_params_new ?f)" using assms(7) by (simp add: subscribe_logs)
  moreover have "ra_current_receipts (pa_runtime P) (Id_Hash (in_hash n)) = Ok (Some (map (snd \<circ> snd) ?ps))"
    "ra_current_block (pa_runtime P) (Id_Hash (in_hash n)) = Ok (Some blk)"
    using assms(4,6) s' by (simp_all add: client_api_def)
  ultimately show ?thesis using assms(5) s' by (simp add: logs_notification_def)
qed

section \<open>New heads\<close>

text \<open>
  The header a subscription sends for a block agrees in every field with the block a query by
  hash returns, except that the query divides the timestamp by 1000 and the subscription does not.
\<close>

theorem new_heads_agrees:
  assumes "rich_block_build L rlp_block b sts None full = Ok rb" "new_heads L rlp_block b = PubSub_Header h"
  shows "h = \<lparr>ri_inner = \<lparr>rh_hash = rb_hash rb, rh_parent_hash = rb_parent_hash rb,
      rh_uncles_hash = rb_uncles_hash rb, rh_author = rb_author rb, rh_miner = rb_miner rb,
      rh_state_root = rb_state_root rb, rh_transactions_root = rb_transactions_root rb,
      rh_receipts_root = rb_receipts_root rb, rh_number = rb_number rb, rh_gas_used = rb_gas_used rb,
      rh_gas_limit = rb_gas_limit rb, rh_extra_data = rb_extra_data rb,
      rh_logs_bloom = the (rb_logs_bloom rb), rh_timestamp = rh_timestamp (ri_inner h),
      rh_difficulty = rb_difficulty rb, rh_seal_fields = rb_seal_fields rb, rh_size = rb_size rb\<rparr>,
      ri_extra_info = []\<rparr> \<and>
    rb_timestamp rb = rh_timestamp (ri_inner h) div 1000"
proof -
  let ?t = "hd_timestamp (bk_header b)"
  have "(ucast (?t div 1000) :: u256) = ucast ?t div 1000"
    using unat_bound [of ?t] by (simp add: word_unat_eq_iff unat_ucast_id unat_div)
  then show ?thesis using assms
    by (auto simp: rich_block_build_def new_heads_def header_keccak_def Let_def res_bind_eq_Ok)
qed

section \<open>Syncing\<close>

text \<open>The answers of the network at the imports of new best blocks.\<close>

definition best_answers :: "notification list \<Rightarrow> bool list" where
  "best_answers ns = List.map_filter
     (\<lambda>n. case n of Note_Import i m \<Rightarrow> if in_is_new_best i then Some m else None | _ \<Rightarrow> None) ns"

lemma best_answers_simps [simp]:
  "best_answers [] = []"
  "best_answers (Note_Import i m # ns) = (if in_is_new_best i then m # best_answers ns else best_answers ns)"
  "best_answers (Note_Storage b c # ns) = best_answers ns"
  by (simp_all add: best_answers_def map_filter_simps)

text \<open>
  C31: the stream of the sync state. A subscription sends a state exactly when the answer of the
  network at a new best block differs from the previous one: the states sent after the initial
  answer are the answers without repetitions, and the stream never panics.
\<close>

theorem syncing_stream:
  "sub_run L P (Sub_Syncing p) ns =
     (map (\<lambda>m. PubSub_SyncState \<lparr>ps_syncing = m\<rparr>) (tl (remdups_adj (p # best_answers ns))),
      Some (Sub_Syncing (last (p # best_answers ns))))"
proof (induction ns arbitrary: p)
  case (Cons n ns)
  show ?case
  proof (cases n)
    case (Note_Import i m)
    then show ?thesis
      by (cases "in_is_new_best i \<and> p \<noteq> m")
        (auto simp: Cons.IH syncing_notification_def remdups_adj_Cons' Let_def
          split: list.split)
  qed (simp add: Cons.IH)
qed simp

section \<open>Pending transactions\<close>

text \<open>
  The change of storage of a finalised block under the key of \<open>Pending\<close>, encoded by
  \<open>enc\<close>; an entry that was emptied is written as removed.
\<close>

definition pending_change ::
  "raw_storage \<Rightarrow> (pending_entry list \<Rightarrow> bytes) \<Rightarrow> ('d, 'c) eth_state \<Rightarrow> storage_changes" where
  "pending_change S enc s =
     [(None, pending_key S, if pending_txs s = [] then None else Some (enc (pending_txs s)))]"

text \<open>
  C30: the stream of pending transactions. Over a sequence of finalised blocks the subscription sends the
  hash of every transaction of the blocks, in order, exactly the hashes the blocks commit to
  in their digests: a transaction is announced when a block includes it, and the stream does not panic.
\<close>

theorem pending_stream:
  fixes blocks :: "('d, 'c) eth_state list"
  assumes "block_lib_ok L"
    and "\<And>s'. s' \<in> set blocks \<Longrightarrow> pa_decode_pending P (enc (pending_txs s')) = Some (pending_txs s')"
    and "\<And>s'. s' \<in> set blocks \<Longrightarrow> \<exists>s. eth_on_finalize L D A H E s = (Ok (), s')"
    and "subscribe S storage_stream major Kind_NewPendingTransactions params = Some sub"
  shows "sub_run L P sub (map (\<lambda>s'. Note_Storage h (pending_change S enc s')) blocks) =
    (map PubSub_TransactionHash
       (concat (map (\<lambda>s'. hs_transaction_hashes (from_block L (the (cur_block s')))) blocks)), Some sub)"
proof -
  have sub: "sub = Sub_Pending" using assms(4) by (simp add: subscribe_def split: if_splits)
  have step: "sub_step L P Sub_Pending (Note_Storage h (pending_change S enc s')) =
      Ok (map PubSub_TransactionHash (hs_transaction_hashes (from_block L (the (cur_block s')))), Sub_Pending)"
    if mem: "s' \<in> set blocks" for s'
  proof -
    obtain s where "eth_on_finalize L D A H E s = (Ok (), s')" using assms(3) [OF mem] by blast
    from finalized_state [OF assms(1) this]
    obtain blk where "cur_block s' = Some blk" "bk_transactions blk = map fst (pending_txs s')"
      by metis
    then show ?thesis
      by (auto simp: pending_notification_def pending_change_def assms(2) [OF mem] from_block_def)
  qed
  show ?thesis unfolding sub using step by (induction blocks) auto
qed

section \<open>Witnesses\<close>

text \<open>A finalised block with one transaction that emitted one log.\<close>

definition emitted :: eth_log where
  "emitted = \<lparr>log_address = 8, log_topics = [5], log_data = [1]\<rparr>"

definition logged_state :: "(log, sample_c) eth_state" where
  "logged_state = sample_eth_state\<lparr>pending_txs := [(sample_tx,
     rpc_status\<lparr>st_logs := [emitted], st_logs_bloom := logs_bloom sample_eth [emitted] 0\<rparr>,
     rpc_rcpt\<lparr>rc_logs := [emitted], rc_logs_bloom := logs_bloom sample_eth [emitted] 0\<rparr>)]\<rparr>"

definition sample_pubsub :: "(block_id \<Rightarrow> (string, (log, sample_c) eth_state) res) \<Rightarrow> pubsub_api" where
  "sample_pubsub state_at = \<lparr>
     pa_runtime = client_api sample_storage sample_host sample_cfg (\<lambda>_. sample_runner) (\<lambda>_. '''') state_at,
     pa_rlp_block = (\<lambda>_. []),
     pa_decode_pending = (\<lambda>bs. Some (replicate (length bs) (hd (pending_txs logged_state))))\<rparr>"

lemma logged_pending_ok: "pending_ok sample_eth (pending_txs logged_state)"
  by (simp add: pending_ok_def logged_state_def entry_ok_def rpc_status_def rpc_rcpt_def recover_signer_def
      sample_tx_def) (simp add: sample_eth_def)

lemma logged_finalizes:
  obtains s' where "eth_on_finalize sample_eth sample_digest sample_storage sample_host sample_eth_cfg
    logged_state = (Ok (), s')"
proof -
  have "gas_sum (map (snd \<circ> snd) (pending_txs logged_state)) < 2 ^ 256"
    by (simp add: logged_state_def gas_sum_def rpc_rcpt_def)
  from store_block_stored [OF sample_eth_ok(1) this] show thesis
    using that unfolding eth_on_finalize_def by metis
qed

theorem log_stream_complete_witness:
  "\<exists>s' l. sub_step sample_eth (sample_pubsub (\<lambda>_. Ok s')) (Sub_Logs filtered_params_default)
      (Note_Import \<lparr>in_hash = 7, in_is_new_best = True\<rparr> False) =
    Ok ([PubSub_Log l], Sub_Logs filtered_params_default) \<and> rl_address l = 8 \<and>
    rl_transaction_hash l = Some (transaction_hash sample_eth sample_tx)"
proof -
  obtain s' where s': "eth_on_finalize sample_eth sample_digest sample_storage sample_host sample_eth_cfg
      logged_state = (Ok (), s')" by (rule logged_finalizes)
  let ?sts = "map (fst \<circ> snd) (pending_txs logged_state)"
  have sts: "cur_statuses s' = Some ?sts"
    using finalized_state [OF sample_eth_ok(1) s'] by metis
  have sub: "subscribe sample_raw (\<lambda>_. True) False Kind_Logs None = Some (Sub_Logs filtered_params_default)"
    by (simp add: subscribe_def)
  have P: "pa_runtime (sample_pubsub (\<lambda>_. Ok s')) = client_api sample_storage sample_host sample_cfg
      (\<lambda>_. sample_runner) (\<lambda>_. '''') (\<lambda>_. Ok s')" by (simp add: sample_pubsub_def)
  have n: "in_is_new_best \<lparr>in_hash = 7, in_is_new_best = True\<rparr>" by simp
  have "\<exists>blk sts. cur_block s' = Some blk \<and> cur_statuses s' = Some sts \<and>
      sub_step sample_eth (sample_pubsub (\<lambda>_. Ok s')) (Sub_Logs filtered_params_default)
        (Note_Import \<lparr>in_hash = 7, in_is_new_best = True\<rparr> False) =
      Ok (map (PubSub_Log \<circ> stream_log) (filter (stream_matches None sample_eth blk)
        (numbered_logs sample_eth blk sts 0)), Sub_Logs filtered_params_default)"
    using log_stream_complete [OF sample_eth_ok(1) logged_pending_ok s' _ n P sub] by simp
  then show ?thesis using sts
    by (intro exI [of _ s']) (auto simp: logged_state_def stream_matches_def transaction_logs_def located_log_def bare_log_def
        stream_log_def emitted_def rpc_status_def)
qed

theorem new_heads_agrees_witness:
  "\<exists>rb h. rich_block_build sample_eth (\<lambda>_. []) rpc_bk [] None False = Ok rb \<and>
     new_heads sample_eth (\<lambda>_. []) rpc_bk = PubSub_Header h \<and> rb_timestamp rb = rh_timestamp (ri_inner h) div 1000"
proof -
  obtain rb where rb: "rich_block_build sample_eth (\<lambda>_. []) rpc_bk [] None False = Ok rb"
    by (simp add: rich_block_build_def Let_def)
  obtain h where h: "new_heads sample_eth (\<lambda>_. []) rpc_bk = PubSub_Header h"
    by (simp add: new_heads_def Let_def)
  from new_heads_agrees [OF rb h] rb h show ?thesis by blast
qed

theorem pending_stream_witness:
  "\<exists>s'. sub_run sample_eth (sample_pubsub (\<lambda>_. Ok s')) Sub_Pending
      [Note_Storage 7 (pending_change sample_raw (\<lambda>ps. replicate (length ps) 0) s')] =
    ([PubSub_TransactionHash (transaction_hash sample_eth sample_tx)], Some Sub_Pending)"
proof -
  obtain s' where s': "eth_on_finalize sample_eth sample_digest sample_storage sample_host sample_eth_cfg
      logged_state = (Ok (), s')" by (rule logged_finalizes)
  from finalized_state [OF sample_eth_ok(1) s']
  obtain blk where b: "cur_block s' = Some blk" "pending_txs s' = pending_txs logged_state"
      "bk_transactions blk = map fst (pending_txs logged_state)" by metis
  let ?P = "sample_pubsub (\<lambda>_. Ok s')" and ?enc = "\<lambda>ps :: pending_entry list. replicate (length ps) (0 :: u8)"
  have dec: "pa_decode_pending ?P (?enc (pending_txs t)) = Some (pending_txs t)" if "t \<in> set [s']" for t
    using that b(2) by (simp add: sample_pubsub_def logged_state_def)
  have fin: "\<exists>s. eth_on_finalize sample_eth sample_digest sample_storage sample_host sample_eth_cfg s = (Ok (), t)"
    if "t \<in> set [s']" for t using that s' by auto
  have sub: "subscribe sample_raw (\<lambda>_. True) False Kind_NewPendingTransactions None = Some Sub_Pending"
    by (simp add: subscribe_def)
  have "sub_run sample_eth ?P Sub_Pending (map (\<lambda>t. Note_Storage 7 (pending_change sample_raw ?enc t)) [s']) =
      (map PubSub_TransactionHash (concat (map (\<lambda>t. hs_transaction_hashes
        (from_block sample_eth (the (cur_block t)))) [s'])), Some Sub_Pending)"
    by (rule pending_stream [OF sample_eth_ok(1) dec fin sub])
  then show ?thesis
    using b by (intro exI [of _ s']) (simp add: from_block_def Let_def logged_state_def)
qed

end
