(* ===== verification/Node.thy ===== *)
theory Node
  imports Rpc_Pubsub
begin

text \<open>
  How the node puts the components together: the constants and the transaction converter of
  \<open>runtime/src/lib.rs\<close>, the chain specifications of \<open>node/src/chain_spec.rs\<close> and how a
  command line names one (\<open>node/src/command.rs\<close>), the RPC handler of \<open>node/src/rpc.rs\<close>, and
  the timestamp provider, the shared pools and the retention thresholds of \<open>node/src/service.rs\<close>.
  Key derivation, the extrinsic type and its codec, and the handles of the Substrate service are
  parameters.
\<close>

section \<open>Constants of the runtime\<close>

record runtime_version =
  rv_spec_name :: string
  rv_impl_name :: string
  rv_authoring_version :: u32
  rv_spec_version :: u32
  rv_impl_version :: u32
  rv_transaction_version :: u32

definition runtime_VERSION :: runtime_version where
  "runtime_VERSION = \<lparr>rv_spec_name = ''node-shadows'', rv_impl_name = ''node-shadows'',
     rv_authoring_version = 1, rv_spec_version = 1, rv_impl_version = 1, rv_transaction_version = 1\<rparr>"

definition MILLISECS_PER_BLOCK :: u64 where "MILLISECS_PER_BLOCK = 6000"

definition SLOT_DURATION :: u64 where "SLOT_DURATION = MILLISECS_PER_BLOCK"

definition MINUTES :: u32 where "MINUTES = 60000 div ucast MILLISECS_PER_BLOCK"

definition HOURS :: u32 where "HOURS = MINUTES * 60"

definition DAYS :: u32 where "DAYS = HOURS * 24"

definition MinimumPeriod :: u64 where "MinimumPeriod = SLOT_DURATION div 2"

definition ExistentialDeposit :: u128 where "ExistentialDeposit = 500"

section \<open>The transaction converter\<close>

datatype eth_call = Call_Transact transaction

text \<open>
  \<open>convert_transaction\<close>, to the extrinsics of the runtime and to the opaque ones of the node, whose
  \<open>expect\<close> panics when an encoded extrinsic does not decode.
\<close>

definition convert_transaction :: "('c \<Rightarrow> 'x) \<Rightarrow> (eth_call \<Rightarrow> 'c) \<Rightarrow> transaction \<Rightarrow> 'x" where
  "convert_transaction new_unsigned into transaction = new_unsigned (into (Call_Transact transaction))"

definition convert_transaction_opaque ::
  "('c \<Rightarrow> 'x) \<Rightarrow> (eth_call \<Rightarrow> 'c) \<Rightarrow> ('x \<Rightarrow> bytes) \<Rightarrow> (bytes \<Rightarrow> 'o option) \<Rightarrow> transaction \<Rightarrow> (string, 'o) res" where
  "convert_transaction_opaque new_unsigned into encode decode transaction =
     (let extrinsic = new_unsigned (into (Call_Transact transaction));
          encoded = encode extrinsic
      in unwrap (decode encoded))"

section \<open>Chain specifications\<close>

record ('acct, 'aura, 'grandpa, 'sr) key_api =
  ka_aura :: "string \<Rightarrow> 'aura option"
  ka_grandpa :: "string \<Rightarrow> 'grandpa option"
  ka_sr25519 :: "string \<Rightarrow> 'sr option"
  ka_into_account :: "'sr \<Rightarrow> 'acct"

definition get_from_seed :: "(string \<Rightarrow> 'p option) \<Rightarrow> string \<Rightarrow> (string, 'p) res" where
  "get_from_seed from_string seed = unwrap (from_string (''//'' @ seed))"

definition get_account_id_from_seed :: "('acct, 'aura, 'grandpa, 'sr) key_api \<Rightarrow> string \<Rightarrow> (string, 'acct) res" where
  "get_account_id_from_seed Y seed = map_ok (ka_into_account Y) (get_from_seed (ka_sr25519 Y) seed)"

definition authority_keys_from_seed ::
  "('acct, 'aura, 'grandpa, 'sr) key_api \<Rightarrow> string \<Rightarrow> (string, 'aura \<times> 'grandpa) res" where
  "authority_keys_from_seed Y s =
     res_bind (get_from_seed (ka_aura Y) s) (\<lambda>a.
     res_bind (get_from_seed (ka_grandpa Y) s) (\<lambda>g. Ok (a, g)))"

record ('acct, 'aura, 'grandpa) genesis_config =
  gc_code :: bytes
  gc_balances :: "('acct \<times> u128) list"
  gc_aura :: "'aura list"
  gc_grandpa :: "('grandpa \<times> u64) list"
  gc_sudo :: 'acct
  gc_evm_accounts :: "(h160 \<times> genesis_account) list"

definition built_in_evm_account :: h160 where
  "built_in_evm_account = 0xAA7358886fd6FEc1d64323D9da340FD3c0B9a9E4"

definition testnet_genesis ::
  "bytes \<Rightarrow> ('aura \<times> 'grandpa) list \<Rightarrow> 'acct \<Rightarrow> 'acct list \<Rightarrow> ('acct, 'aura, 'grandpa) genesis_config" where
  "testnet_genesis wasm_binary initial_authorities root_key endowed_accounts =
     (let evm_accounts = [(built_in_evm_account,
        \<lparr>ga_nonce = 0, ga_balance = ucast (999999999999999 * 10 ^ 18 :: u128), ga_storage = [], ga_code = []\<rparr>)] in
      \<lparr>gc_code = wasm_binary,
       gc_balances = map (\<lambda>k. (k, push_bit 60 1)) endowed_accounts,
       gc_aura = map fst initial_authorities,
       gc_grandpa = map (\<lambda>x. (snd x, 1)) initial_authorities,
       gc_sudo = root_key,
       gc_evm_accounts = evm_accounts\<rparr>)"

datatype chain_type = Chain_Development | Chain_Local

text \<open>The genesis closure of a specification is the value it has when it is called.\<close>

record ('acct, 'aura, 'grandpa) chain_spec =
  cs_name :: string
  cs_id :: string
  cs_type :: chain_type
  cs_genesis :: "(string, ('acct, 'aura, 'grandpa) genesis_config) res"
  cs_token_decimals :: nat
  cs_token_symbol :: string

fun res_list :: "('a \<Rightarrow> ('e, 'b) res) \<Rightarrow> 'a list \<Rightarrow> ('e, 'b list) res" where
  "res_list f [] = Ok []"
| "res_list f (x # xs) = res_bind (f x) (\<lambda>y. map_ok ((#) y) (res_list f xs))"

definition seeded_genesis ::
  "('acct, 'aura, 'grandpa, 'sr) key_api \<Rightarrow> bytes \<Rightarrow> string list \<Rightarrow> string \<Rightarrow> string list \<Rightarrow>
     (string, ('acct, 'aura, 'grandpa) genesis_config) res" where
  "seeded_genesis Y wasm_binary authorities root endowed =
     res_bind (res_list (authority_keys_from_seed Y) authorities) (\<lambda>ks.
     res_bind (get_account_id_from_seed Y root) (\<lambda>r.
     res_bind (res_list (get_account_id_from_seed Y) endowed) (\<lambda>es.
     Ok (testnet_genesis wasm_binary ks r es))))"

definition development_config ::
  "('acct, 'aura, 'grandpa, 'sr) key_api \<Rightarrow> bytes option \<Rightarrow> (string, ('acct, 'aura, 'grandpa) chain_spec) res" where
  "development_config Y WASM_BINARY =
     res_bind (ok_or WASM_BINARY ''Development wasm binary not available'') (\<lambda>wasm_binary.
     Ok \<lparr>cs_name = ''Prism Testnet'', cs_id = ''prism_testnet'', cs_type = Chain_Development,
         cs_genesis = seeded_genesis Y wasm_binary [''Alice''] ''Alice''
           [''Alice'', ''Bob'', ''Alice//stash'', ''Bob//stash''],
         cs_token_decimals = 18, cs_token_symbol = ''PSM''\<rparr>)"

definition local_testnet_config ::
  "('acct, 'aura, 'grandpa, 'sr) key_api \<Rightarrow> bytes option \<Rightarrow> (string, ('acct, 'aura, 'grandpa) chain_spec) res" where
  "local_testnet_config Y WASM_BINARY =
     res_bind (ok_or WASM_BINARY ''Development wasm binary not available'') (\<lambda>wasm_binary.
     Ok \<lparr>cs_name = ''Local Testnet'', cs_id = ''local_testnet'', cs_type = Chain_Local,
         cs_genesis = seeded_genesis Y wasm_binary [''Alice'', ''Bob''] ''Alice''
           [''Alice'', ''Bob'', ''Charlie'', ''Dave'', ''Eve'', ''Ferdie'',
            ''Alice//stash'', ''Bob//stash'', ''Charlie//stash'', ''Dave//stash'', ''Eve//stash'',
            ''Ferdie//stash''],
         cs_token_decimals = 18, cs_token_symbol = ''PSM''\<rparr>)"

definition load_spec ::
  "('acct, 'aura, 'grandpa, 'sr) key_api \<Rightarrow> bytes option \<Rightarrow>
     (string \<Rightarrow> (string, ('acct, 'aura, 'grandpa) chain_spec) res) \<Rightarrow> string \<Rightarrow>
     (string, ('acct, 'aura, 'grandpa) chain_spec) res" where
  "load_spec Y WASM_BINARY from_json_file i =
     (if i = ''dev'' then development_config Y WASM_BINARY
      else if i = '''' \<or> i = ''local'' then local_testnet_config Y WASM_BINARY
      else from_json_file i)"

section \<open>The RPC handler of a full node\<close>

text \<open>
  What the handler registers, in order, with the configuration each interface gets. The client, the pool,
  the network and the mapping database are the fields of \<open>fd_handles\<close> that \<open>create_full\<close>
  does not set.
\<close>

datatype 'db rpc_extension =
  Ext_System
| Ext_TransactionPayment
| Ext_Eth "'db eth_api"
| Ext_EthFilter "'db filter_api"
| Ext_Net
| Ext_Web3
| Ext_EthPubSub id_provider
| Ext_ManualSeal

record ('db, 'k, 'm) full_deps =
  fd_handles :: "'db eth_api"
  fd_secp :: "('k, 'm) secp_lib"
  fd_is_authority :: bool
  fd_enable_dev_signer :: bool
  fd_filter_pool :: bool
  fd_command_sink :: bool
  fd_show_key :: "u256 \<Rightarrow> string"
  fd_show_limit :: "nat \<Rightarrow> string"

definition dev_signers :: "eth_lib \<Rightarrow> ('k, 'm) secp_lib \<Rightarrow> bool \<Rightarrow> signer list rpc" where
  "dev_signers L S enable =
     (if enable then
        res_bind (dev_signer_new S) (\<lambda>keys.
        res_bind (dev_accounts L S keys) (\<lambda>as. Ok [\<lparr>sg_accounts = as, sg_sign = dev_sign L S keys\<rparr>]))
      else Ok [])"

definition create_full :: "eth_lib \<Rightarrow> ('db, 'k, 'm) full_deps \<Rightarrow> 'db rpc_extension list rpc" where
  "create_full L deps =
     res_bind (dev_signers L (fd_secp deps) (fd_enable_dev_signer deps)) (\<lambda>signers.
     let overrides = [Schema_V1 \<mapsto> schema_v1_override (ea_raw (fd_handles deps))];
         eth = (fd_handles deps)\<lparr>ea_signers := signers, ea_overrides := overrides,
           ea_is_authority := fd_is_authority deps\<rparr> in
     Ok ([Ext_System, Ext_TransactionPayment, Ext_Eth eth] @
       (if fd_filter_pool deps then
          [Ext_EthFilter \<lparr>fa_eth = eth, fa_max_stored_filters = 500,
             fa_show_key = fd_show_key deps, fa_show_limit = fd_show_limit deps\<rparr>]
        else []) @
       [Ext_Net, Ext_Web3, Ext_EthPubSub id_provider_default] @
       (if fd_command_sink deps then [Ext_ManualSeal] else [])))"

section \<open>The service\<close>

text \<open>The pools a service starts with, and how long it keeps their entries.\<close>

definition initial_pending :: "(h256 \<rightharpoonup> pending_transaction) mutex" where
  "initial_pending = \<lparr>mx_poisoned = False, mx_value = Map.empty\<rparr>"

definition initial_filter_pool :: filter_pool where
  "initial_filter_pool = \<lparr>mx_poisoned = False, mx_value = []\<rparr>"

definition FILTER_RETAIN_THRESHOLD :: u64 where "FILTER_RETAIN_THRESHOLD = 100"

definition TRANSACTION_RETAIN_THRESHOLD :: u64 where "TRANSACTION_RETAIN_THRESHOLD = 5"

text \<open>
  The timestamp provider of manual sealing: the counter of the thread is moved on by a slot and put
  into the inherent data.
\<close>

definition INHERENT_IDENTIFIER :: string where "INHERENT_IDENTIFIER = ''timstap0''"

definition provide_inherent_data ::
  "(string \<Rightarrow> u64 \<Rightarrow> 'i \<Rightarrow> (string, 'i) res) \<Rightarrow> 'i \<Rightarrow> (u64, string, 'i) act" where
  "provide_inherent_data put_data inherent_data TIMESTAMP =
     (let TIMESTAMP = TIMESTAMP + SLOT_DURATION
      in (put_data INHERENT_IDENTIFIER TIMESTAMP inherent_data, TIMESTAMP))"

section \<open>Genesis\<close>

lemma res_list_Ok: "res_list f xs = Ok ys \<longleftrightarrow> list_all2 (\<lambda>x y. f x = Ok y) xs ys"
proof (induction xs arbitrary: ys)
  case (Cons x xs)
  then show ?case by (cases ys) auto
qed auto

lemma seeded_genesis_Ok:
  assumes "seeded_genesis Y wasm auths root endowed = Ok g"
  obtains ks r es where "g = testnet_genesis wasm ks r es" "length ks = length auths" "length es = length endowed"
    "get_account_id_from_seed Y root = Ok r" "list_all2 (\<lambda>x y. get_account_id_from_seed Y x = Ok y) endowed es"
  using assms that by (fastforce simp: seeded_genesis_def res_list_Ok dest: list_all2_lengthD)

definition dev_endowed :: "string list" where
  "dev_endowed = [''Alice'', ''Bob'', ''Alice//stash'', ''Bob//stash'']"

definition local_endowed :: "string list" where
  "local_endowed = [''Alice'', ''Bob'', ''Charlie'', ''Dave'', ''Eve'', ''Ferdie'',
     ''Alice//stash'', ''Bob//stash'', ''Charlie//stash'', ''Dave//stash'', ''Eve//stash'', ''Ferdie//stash'']"

lemma named_spec_genesis:
  assumes "load_spec Y wasm from_json_file i = Ok spec" "i \<in> {''dev'', '''', ''local''}"
  obtains "cs_genesis spec = seeded_genesis Y (the wasm) [''Alice''] ''Alice'' dev_endowed"
  | "cs_genesis spec = seeded_genesis Y (the wasm) [''Alice'', ''Bob''] ''Alice'' local_endowed"
  using assms by (cases wasm)
    (auto simp: load_spec_def development_config_def local_testnet_config_def dev_endowed_def local_endowed_def
      split: if_splits)

definition built_in_balance :: u256 where
  "built_in_balance = ucast (999999999999999 * 10 ^ 18 :: u128)"

lemma unat_built_in_balance: "unat built_in_balance = 999999999999999 * 10 ^ 18"
  by (simp add: built_in_balance_def)

lemma low_built_in_balance:
  "ExistentialDeposit \<le> low_u128 built_in_balance"
  "unat (ucast (saturated_into (low_u128 built_in_balance) :: u128) :: u256) = 999999999999999 * 10 ^ 18"
  by (simp_all add: low_u128_def built_in_balance_def ExistentialDeposit_def saturated_into_def)

lemma low_u128_zero: "low_u128 0 = 0"
  by (simp add: low_u128_def)

text \<open>
  What the currency documents of \<open>deposit_creating\<close>: an empty account that receives at least the
  existential deposit holds exactly the deposit, and no nonce changes.
\<close>

definition deposit_ok :: "('acct, 'h, 'neg, 'pos) host_api \<Rightarrow> bool" where
  "deposit_ok H \<longleftrightarrow>
     (\<forall>a v h. ExistentialDeposit \<le> v \<and> free_balance H a h = 0 \<longrightarrow>
        free_balance H a (deposit_creating H a v h) = v) \<and>
     (\<forall>a b v h. account_nonce H b (deposit_creating H a v h) = account_nonce H b h)"

text \<open>
  C33: the chains of the node start sound. For the specifications named \<open>dev\<close>, \<open>local\<close> and the
  default one, whenever the genesis is built: the endowments and the balance of the built-in EVM
  account sum to less than \<open>2^128\<close>, the sudo account is endowed, as many Aura as Grandpa authorities
  exist, and building the EVM pallet from it leaves the built-in account with nonce zero and its exact balance.
\<close>

theorem genesis_sound:
  assumes "load_spec Y wasm from_json_file i = Ok spec" "i \<in> {''dev'', '''', ''local''}" "cs_genesis spec = Ok g"
    and "deposit_ok H" "free_balance H (cfg_into_account_id K built_in_evm_account) (host s) = 0"
    and "account_nonce H (cfg_into_account_id K built_in_evm_account) (host s) = 0"
  shows "sum_list (map (\<lambda>(a, v). unat v) (gc_balances g)) +
      sum_list (map (\<lambda>(a, v). unat (ga_balance v)) (gc_evm_accounts g)) < 2 ^ 128 \<and>
    gc_sudo g \<in> fst ` set (gc_balances g) \<and>
    length (gc_aura g) = length (gc_grandpa g) \<and> gc_aura g \<noteq> [] \<and>
    (let a = account_basic H K built_in_evm_account (genesis_build H K (gc_evm_accounts g) s) in
     ac_nonce a = 0 \<and> unat (ac_balance a) = 999999999999999 * 10 ^ 18)"
proof -
  obtain auths endowed where spec: "cs_genesis spec = seeded_genesis Y (the wasm) auths ''Alice'' endowed"
      "auths \<noteq> []" "length endowed \<le> 12" "''Alice'' \<in> set endowed"
    using assms(1,2)
  proof (cases rule: named_spec_genesis)
    case 1
    then show thesis by (rule that) (simp_all add: dev_endowed_def)
  next
    case 2
    then show thesis by (rule that) (simp_all add: local_endowed_def)
  qed
  obtain ks r es where g: "g = testnet_genesis (the wasm) ks r es" "length ks = length auths"
      "length es = length endowed" "get_account_id_from_seed Y ''Alice'' = Ok r"
      "list_all2 (\<lambda>x y. get_account_id_from_seed Y x = Ok y) endowed es"
    using assms(3) unfolding spec(1) by (rule seeded_genesis_Ok)
  have "r \<in> set es"
  proof -
    obtain j where j: "j < length endowed" "endowed ! j = ''Alice''" using spec(4) by (meson in_set_conv_nth)
    then have "get_account_id_from_seed Y ''Alice'' = Ok (es ! j)" using g(5) by (auto simp: list_all2_conv_all_nth)
    then show ?thesis using g(3,4) j(1) by simp
  qed
  then have root: "gc_sudo g \<in> fst ` set (gc_balances g)" by (simp add: g(1) testnet_genesis_def Let_def image_image)
  let ?acct = "cfg_into_account_id K built_in_evm_account"
  have evm: "gc_evm_accounts g = [(built_in_evm_account, \<lparr>ga_nonce = 0, ga_balance = built_in_balance,
      ga_storage = [], ga_code = []\<rparr>)]"
    by (simp add: g(1) testnet_genesis_def Let_def built_in_balance_def)
  have "sum_list (map (\<lambda>(a, v). unat v) (gc_balances g)) = 2 ^ 60 * length es"
    unfolding g(1) testnet_genesis_def Let_def genesis_config.simps
    by (induction es) (simp_all add: push_bit_eq_mult)
  then have sum: "sum_list (map (\<lambda>(a, v). unat v) (gc_balances g)) +
      sum_list (map (\<lambda>(a, v). unat (ga_balance v)) (gc_evm_accounts g)) < 2 ^ 128"
    using spec(3) g(3) by (simp add: evm unat_built_in_balance)
  have "free_balance H ?acct (deposit_creating H ?acct (low_u128 built_in_balance) (host s)) =
      low_u128 built_in_balance"
    using assms(4,5) low_built_in_balance(1) by (simp add: deposit_ok_def)
  moreover have "account_nonce H ?acct (deposit_creating H ?acct (low_u128 built_in_balance) (host s)) = 0"
    using assms(4,6) by (simp add: deposit_ok_def)
  ultimately have "account_basic H K built_in_evm_account (genesis_build H K (gc_evm_accounts g) s) =
      \<lparr>ac_nonce = ucast (saturated_into (0 :: u32) :: u128),
       ac_balance = ucast (saturated_into (low_u128 built_in_balance) :: u128)\<rparr>"
    by (simp add: evm genesis_build_def genesis_account_build_def account_basic_def Let_def low_u128_zero)
  moreover have "gc_aura g \<noteq> []" "length (gc_aura g) = length (gc_grandpa g)"
    using spec(2) g(2) by (auto simp: g(1) testnet_genesis_def Let_def)
  ultimately show ?thesis
    using root sum low_built_in_balance(2) by (simp add: saturated_into_def)
qed

section \<open>The RPC of a node\<close>

lemma create_full_eth:
  assumes "create_full L deps = Ok exts" "Ext_Eth E \<in> set exts"
  shows "ea_overrides E = [Schema_V1 \<mapsto> schema_v1_override (ea_raw (fd_handles deps))] \<and>
    ea_runtime E = ea_runtime (fd_handles deps) \<and> ea_raw E = ea_raw (fd_handles deps) \<and>
    ea_backend E = ea_backend (fd_handles deps) \<and> ea_db E = ea_db (fd_handles deps) \<and>
    (\<not> fd_enable_dev_signer deps \<longrightarrow> ea_signers E = [])"
  using assms by (auto simp: create_full_def Let_def dev_signers_def res_bind_eq_Ok split: if_splits)

lemma create_full_filter:
  assumes "create_full L deps = Ok exts" "Ext_EthFilter F \<in> set exts"
  shows "fa_max_stored_filters F = 500"
  using assms by (auto simp: create_full_def Let_def res_bind_eq_Ok split: if_splits)

text \<open>
  The handler the node picks for a block reads the state of that block, whatever the storage schema
  on chain: the override for the first schema by the layout of the storage, the runtime API otherwise.
\<close>

lemma node_handler_reads:
  fixes s :: "('d, 'c) eth_state" and A :: "(('acct, 'h) evm_store, 'c) storage_api"
  assumes "create_full L deps = Ok exts" "Ext_Eth E \<in> set exts"
    and "ea_runtime (fd_handles deps) = client_api A H K R show_error state_at"
    and "state_at b = Ok s" "v1_layout A (ea_raw (fd_handles deps)) b s"
  shows "so_current_block (handler E b) b = cur_block s" "so_current_receipts (handler E b) b = cur_receipts s"
    "so_current_statuses (handler E b) b = cur_statuses s"
proof -
  let ?S = "ea_raw (fd_handles deps)"
  note E = create_full_eth [OF assms(1,2)]
  have v1: "v1_current_block ?S b = cur_block s" "v1_current_receipts ?S b = cur_receipts s"
    "v1_current_transaction_statuses ?S b = cur_statuses s"
    using assms(5) by (simp_all add: v1_layout_def v1_current_block_def v1_current_receipts_def
        v1_current_transaction_statuses_def query_entry)
  have rt: "so_current_block (runtime_override (ea_runtime E)) b = cur_block s"
    "so_current_receipts (runtime_override (ea_runtime E)) b = cur_receipts s"
    "so_current_statuses (runtime_override (ea_runtime E)) b = cur_statuses s"
    using E assms(3,4) by (simp_all add: runtime_override_def client_api_def split: option.splits)
  have "handler E b = schema_v1_override ?S \<or> handler E b = runtime_override (ea_runtime E)"
    using E by (auto simp: handler_def split: option.splits)
  then show "so_current_block (handler E b) b = cur_block s" "so_current_receipts (handler E b) b = cur_receipts s"
    "so_current_statuses (handler E b) b = cur_statuses s"
    using v1 rt by (auto simp: schema_v1_override_def)
qed

text \<open>
  The filter interface of a node as its handles change: every request sees the client, with its
  best number, runtime and database, as they are at that moment, and the configuration stays.
\<close>

definition node_filters :: "eth_lib \<Rightarrow> ('db, 'k, 'm) full_deps \<Rightarrow> 'db filter_api set" where
  "node_filters L deps =
     {F. \<exists>handles exts. create_full L (deps\<lparr>fd_handles := handles\<rparr>) = Ok exts \<and> Ext_EthFilter F \<in> set exts}"

lemma node_filters_limit: "F \<in> node_filters L deps \<Longrightarrow> fa_max_stored_filters F = 500"
  using create_full_filter unfolding node_filters_def by blast

text \<open>
  C34: the configuration of a full node. The filter pool never stores more than 500 filters,
  whatever requests arrive and whatever blocks the chain grows by between them, and a request for
  one more is refused; and unless the development signer is enabled the node lists no accounts and
  never signs: at any moment, every request to send an unsigned transaction is an error that leaves
  the pool and the pending transactions unchanged.
\<close>

theorem node_rpc_configured:
  assumes "pool_reach L (node_filters L deps) p"
    and "create_full L (deps\<lparr>fd_handles := handles\<rparr>) = Ok exts" "Ext_Eth E \<in> set exts"
    and "\<not> fd_enable_dev_signer deps"
  shows "length (mx_value p) \<le> 500 \<and>
    (\<forall>F \<in> node_filters L deps. length (mx_value p) = 500 \<longrightarrow> (\<exists>e. create_filter F ty p = (Err e, p))) \<and>
    accounts E = Ok [] \<and>
    (case send_transaction L E P request s of (r, s') \<Rightarrow> s' = s \<and> (\<forall>h. r \<noteq> Ok h))"
proof -
  have "pool_ok 500 (mx_value p)" using pool_reach_ok [OF assms(1)] node_filters_limit by blast
  moreover have "\<exists>e. create_filter F ty p = (Err e, p)"
    if "F \<in> node_filters L deps" "length (mx_value p) = 500" for F
    using that node_filters_limit [of F L deps] by (simp add: create_filter_def)
  moreover have "ea_signers E = []" using create_full_eth [OF assms(2,3)] assms(4) by simp
  ultimately show ?thesis
    by (auto simp: pool_ok_def accounts_def send_transaction_def act_bind_def act_lift_def act_fail_def
        split: prod.splits res.splits)
qed

section \<open>Manual sealing\<close>

text \<open>
  The mock clock: the \<open>k\<close>-th block is stamped exactly \<open>k\<close> slots after zero, and successive stamps
  are further apart than the minimum period.
\<close>

lemma mock_timestamps:
  assumes "k * unat SLOT_DURATION < 2 ^ 64"
  shows "unat (((\<lambda>t. snd (provide_inherent_data put_data d t)) ^^ k) 0) = k * unat SLOT_DURATION \<and>
    MinimumPeriod \<le> SLOT_DURATION"
  using assms
proof (induction k)
  case (Suc k)
  then have "unat (((\<lambda>t. snd (provide_inherent_data put_data d t)) ^^ k) 0) = k * unat SLOT_DURATION"
    by simp
  then show ?case using Suc.prems
    by (auto simp: provide_inherent_data_def Let_def unat_word_ariths MinimumPeriod_def SLOT_DURATION_def
        MILLISECS_PER_BLOCK_def)
qed (simp add: MinimumPeriod_def SLOT_DURATION_def MILLISECS_PER_BLOCK_def)

section \<open>Witnesses\<close>

definition sample_keys :: "(h256, unit, unit, string) key_api" where
  "sample_keys = \<lparr>ka_aura = (\<lambda>_. Some ()), ka_grandpa = (\<lambda>_. Some ()), ka_sr25519 = (\<lambda>s. Some s),
     ka_into_account = (\<lambda>s. of_nat (length s))\<rparr>"

definition empty_store :: "(h256, sample_h) evm_store" where
  "empty_store = sample_store\<lparr>host := (\<lambda>_. 0, \<lambda>_. 0, \<lambda>_. 0)\<rparr>"

lemma sample_deposit_ok: "deposit_ok sample_host"
  by (auto simp: deposit_ok_def sample_host_def)

theorem genesis_sound_witness:
  "\<exists>spec g. load_spec sample_keys (Some []) (\<lambda>_. Err '''') ''dev'' = Ok spec \<and> cs_genesis spec = Ok g \<and>
     unat (ac_balance (account_basic sample_host sample_cfg built_in_evm_account
       (genesis_build sample_host sample_cfg (gc_evm_accounts g) empty_store))) = 999999999999999 * 10 ^ 18"
proof -
  obtain spec where spec: "load_spec sample_keys (Some []) (\<lambda>_. Err '''') ''dev'' = Ok spec"
      "cs_genesis spec = seeded_genesis sample_keys [] [''Alice''] ''Alice'' dev_endowed"
    by (simp add: load_spec_def development_config_def dev_endowed_def)
  obtain g where g: "cs_genesis spec = Ok g"
    by (simp add: spec(2) seeded_genesis_def authority_keys_from_seed_def get_account_id_from_seed_def
        get_from_seed_def sample_keys_def dev_endowed_def)
  have "free_balance sample_host (cfg_into_account_id sample_cfg built_in_evm_account) (host empty_store) = 0"
    "account_nonce sample_host (cfg_into_account_id sample_cfg built_in_evm_account) (host empty_store) = 0"
    by (simp_all add: empty_store_def sample_host_def)
  from genesis_sound [OF spec(1) _ g sample_deposit_ok this] spec(1) g show ?thesis
    by (auto simp: Let_def)
qed

definition sample_deps :: "(u32 \<Rightarrow> bytes \<Rightarrow> bytes option, unit, unit) full_deps" where
  "sample_deps = \<lparr>fd_handles = sample_api (backend_new sample_codec sample_db) (\<lambda>_ _. None),
     fd_secp = signing_secp, fd_is_authority = True, fd_enable_dev_signer = False, fd_filter_pool = True,
     fd_command_sink = False, fd_show_key = (\<lambda>_. ''''), fd_show_limit = decimal\<rparr>"

text \<open>
  A node that is asked for a filter at block 3 and for another one at block 9; both are in the pool.
\<close>

definition two_filter_pool :: filter_pool where
  "two_filter_pool = \<lparr>mx_poisoned = False, mx_value =
     [(1, \<lparr>pi_last_poll = BN_Num 3, pi_filter_type = Type_Block, pi_at_block = 3\<rparr>),
      (2, \<lparr>pi_last_poll = BN_Num 9, pi_filter_type = Type_Block, pi_at_block = 9\<rparr>)]\<rparr>"

definition sample_handles :: "u32 \<Rightarrow> (u32 \<Rightarrow> bytes \<Rightarrow> bytes option) eth_api" where
  "sample_handles n = (fd_handles sample_deps)\<lparr>ea_best_number := n\<rparr>"

definition sample_node_api :: "u32 \<Rightarrow> (u32 \<Rightarrow> bytes \<Rightarrow> bytes option) eth_api" where
  "sample_node_api n = (sample_handles n)\<lparr>ea_signers := [], ea_overrides :=
     [Schema_V1 \<mapsto> schema_v1_override (ea_raw (sample_handles n))], ea_is_authority := True\<rparr>"

definition sample_node_filters :: "u32 \<Rightarrow> (u32 \<Rightarrow> bytes \<Rightarrow> bytes option) filter_api" where
  "sample_node_filters n = \<lparr>fa_eth = sample_node_api n, fa_max_stored_filters = 500,
     fa_show_key = (\<lambda>_. ''''), fa_show_limit = decimal\<rparr>"

lemma sample_create_full:
  "\<exists>exts. create_full sample_eth (sample_deps\<lparr>fd_handles := sample_handles n\<rparr>) = Ok exts \<and>
     Ext_EthFilter (sample_node_filters n) \<in> set exts \<and> Ext_Eth (sample_node_api n) \<in> set exts"
  by (simp add: create_full_def dev_signers_def sample_deps_def Let_def sample_node_api_def
      sample_node_filters_def sample_handles_def)

lemma sample_two_filters: "pool_reach sample_eth (node_filters sample_eth sample_deps) two_filter_pool"
proof -
  have F: "sample_node_filters n \<in> node_filters sample_eth sample_deps" for n
    using sample_create_full [of n] unfolding node_filters_def by blast
  have one: "create_filter (sample_node_filters 3) Type_Block initial_filter_pool = (Ok 1, one_filter_pool)"
    by (simp add: create_filter_def sample_node_filters_def sample_node_api_def sample_handles_def
        initial_filter_pool_def one_filter_pool_def best_u64_def checked_add_def saturated_into_def)
  have two: "create_filter (sample_node_filters 9) Type_Block one_filter_pool = (Ok 2, two_filter_pool)"
    by (simp add: create_filter_def sample_node_filters_def sample_node_api_def sample_handles_def
        one_filter_pool_def two_filter_pool_def best_u64_def checked_add_def saturated_into_def)
  have "pool_reach sample_eth (node_filters sample_eth sample_deps) initial_filter_pool"
    unfolding initial_filter_pool_def by (rule reach_empty)
  then show ?thesis using reach_create F one two by blast
qed

theorem node_rpc_configured_witness:
  "length (mx_value two_filter_pool) \<le> 500 \<and> accounts (sample_node_api 9) = Ok []"
proof -
  obtain exts where e: "create_full sample_eth (sample_deps\<lparr>fd_handles := sample_handles 9\<rparr>) = Ok exts"
    "Ext_Eth (sample_node_api 9) \<in> set exts"
    using sample_create_full by blast
  have s: "\<not> fd_enable_dev_signer sample_deps" by (simp add: sample_deps_def)
  note c = node_rpc_configured [OF sample_two_filters e s, where P = accepting_pool]
  show ?thesis by (rule conjI [OF conjunct1 [OF c] conjunct1 [OF conjunct2 [OF conjunct2 [OF c]]]])
qed

end
