(* ===== verification/Spec2Isabelle.thy ===== *)
theory Spec2Isabelle
  imports Consensus_Log Dynamic_Fee Precompile_Simple Precompile_Modexp Blake2 Precompile_Bn128
    Precompile_Dispatch Evm_Pallet Evm_Runner Eth_Pallet Mapping_Db Mapping_Sync
    Node
begin

text \<open>
  Verification library of the Shadows node: a Substrate chain that executes Ethereum transactions.

  \<^bold>\<open>The program.\<close> The runtime (\<open>runtime/src/lib.rs\<close>) holds two pallets of its own.
  \<open>frame/evm\<close> keeps account codes and storage slots, charges fees and runs calls through a stack of
  substates and the precompiled contracts; \<open>frame/ethereum\<close> checks the signature of an Ethereum
  transaction, executes it with the runner of the EVM pallet, collects status and receipt in
  \<open>Pending\<close>, and at the end of a Substrate block stores the Ethereum block and puts its hashes into
  the digest of the header. \<open>frame/dynamic-fee\<close> moves a minimum gas price. Outside the runtime,
  \<open>client/consensus\<close> refuses blocks without exactly one such log, \<open>client/mapping-sync\<close> walks
  the headers back to genesis and writes the hashes they carry into the key-value store of
  \<open>client/db\<close>, and \<open>client/rpc\<close> answers Ethereum requests from that store and from the state of
  the blocks, keeps installed filters and pending transactions, and feeds subscriptions.
  \<open>node\<close> chooses the genesis and connects all of this.

  \<^bold>\<open>Theories and sources.\<close>
  \<^item> \<open>Prelude\<close>: machine integers, byte strings and slices, results with a panic, and actions on
    a state, shared by all; \<open>Eth_Types\<close>: the data of the \<open>ethereum\<close> and \<open>evm\<close> crates, of
    \<open>primitives/evm\<close> and \<open>primitives/rpc\<close>, and the record \<open>eth_lib\<close> of foreign functions.
  \<^item> \<open>Consensus_Log\<close>: \<open>primitives/consensus\<close> and \<open>client/consensus\<close>. One locale of a search
    for a unique log is interpreted for each of the three searches.
  \<^item> \<open>Origin\<close>, \<open>Dynamic_Fee\<close>: origins, and \<open>frame/dynamic-fee\<close>.
  \<^item> \<open>Precompile\<close> (\<open>primitives/evm/src/precompile.rs\<close>), \<open>Precompile_Simple\<close>,
    \<open>Precompile_Modexp\<close>, \<open>Blake2\<close>, \<open>Precompile_Bn128\<close>, \<open>Precompile_Dispatch\<close>: the
    contracts under \<open>frame/evm/precompile\<close> and the tuple of them in the runtime.
  \<^item> \<open>Evm_Pallet\<close>: \<open>frame/evm/src/lib.rs\<close>. The check of an origin is a locale, interpreted
    for all four checks. \<open>Evm_Runner\<close>: \<open>frame/evm/src/runner/stack.rs\<close>; what the interpreter may do to
    the state inside a frame is the step relation \<open>evm_step\<close>.
  \<^item> \<open>Eth_Pallet\<close>: \<open>frame/ethereum/src/lib.rs\<close>; \<open>block_reach\<close> is a block under construction.
  \<^item> \<open>Mapping_Db\<close>: \<open>client/db\<close>, with the abstract mapping it implements (\<open>repr\<close>) and the locale
    of such a store. \<open>Mapping_Sync\<close>: \<open>client/mapping-sync\<close>, the steps and the polled worker.
  \<^item> \<open>Rpc_Types\<close>, \<open>Rpc_Filter\<close>: \<open>client/rpc-core/src/types\<close>. \<open>Rpc_Build\<close>: the builders
    of \<open>client/rpc/src/eth.rs\<close> and \<open>client/rpc/src/lib.rs\<close>. \<open>Rpc_Runtime\<close>: the runtime API and
    the storage overrides. \<open>Rpc_Eth\<close>: the interface \<open>EthApi\<close>. \<open>Rpc_Pool\<close>: the filter interface, the
    two maintenance tasks and the network queries, with the reachable pools \<open>pool_reach\<close>.
    \<open>Rpc_Pubsub\<close>: \<open>client/rpc/src/eth_pubsub.rs\<close>, subscriptions as steps over notifications.
  \<^item> \<open>Node\<close>: constants and the transaction converter of the runtime, \<open>node/src/chain_spec.rs\<close>, the
    handler of \<open>node/src/rpc.rs\<close>, and the parts of \<open>node/src/service.rs\<close> that carry data.

  \<^bold>\<open>Conventions.\<close> A Rust \<open>Result\<close> is \<open>Ok\<close> or \<open>Err\<close>; a third constructor \<open>Panic\<close> is an
  \<open>unwrap\<close>, \<open>expect\<close>, slice or index that fails, or an overflow of a \<open>U256\<close> operator. Native
  integers have their width and wrap around, as in a release build. Code that changes state is a function from
  a state to a result and the state it leaves, also when it fails. Storage transactions are
  the operations of \<open>storage_api\<close>. A mutex is a value and whether it is poisoned. Loops
  are structural recursion; the search for a gas limit takes a bound on its rounds, and its theorem
  shows that 33 of them always give an answer; the mapping sync runs as many polls as there are
  unsynced headers, which its theorem shows to be enough.

  \<^bold>\<open>Parameters and hypotheses.\<close> Hashing, RLP, SCALE, signature recovery, bloom filters and block
  assembly (\<open>eth_lib\<close>, \<open>codec\<close>), the EVM interpreter, system and currency pallets
  (\<open>host_api\<close>), the storage of the chain, the key-value database, the client and its runtime API, the
  transaction pool, key derivation and serialisation are arguments. What a property needs of them is
  a named predicate that states their documented behaviour (\<open>currency_ok\<close>, \<open>consumers_ok\<close>,
  \<open>storage_api_ok\<close>, \<open>block_lib_ok\<close>, \<open>bloom_lib_ok\<close>, \<open>digest_api_ok\<close>, \<open>codec_ok\<close>,
  \<open>database_ok\<close>, \<open>secp_ok\<close>, \<open>deposit_ok\<close>, \<open>v1_layout\<close>), and every such property has a
  witness on concrete functions.

  \<^bold>\<open>What the lemmas show.\<close> Frames of the runner restore exactly what they reverted; the guards of an
  execution come in order and before any effect; the storage of contracts refines a stack of memories under any
  sequence of callbacks; fees are conserved; origins are authorised. Blocks
  under construction keep \<open>Pending\<close> well formed, finalisation stores it exactly and leaves a header the import
  accepts. The precompiles agree with reference functions or reject. The database implements the
  abstract mapping, the sync keeps its tips closed and reaches genesis. The RPC finds transactions,
  receipts and logs exactly; filters report every block once; subscriptions send what the blocks
  contain; estimates end. This root theory composes them: a transaction that the pallet put into a
  block is found by the handler of a full node once the worker has processed the block's header. Some theorems
  pin down where the code deviates from its intention: blocks with a pre-runtime log, the Blake2
  contract, storage slots read by a byte-swapped index, the limit of a sync round and a failure between
  its two writes, a leaked storage transaction, code stored without a consumer reference, and the
  transaction index of streamed logs.

  \<^bold>\<open>Not modelled.\<close> The rest of \<open>node/src\<close> builds Substrate services, opens files, spawns tasks
  and parses the command line; the rest of the runtime composes FRAME pallets and delegates runtime APIs to
  them. The interface traits of \<open>client/rpc-core\<close> are signatures for generated code. Derived
  serialisers and the structs no code constructs (accounts, peers) are left out. \<open>frame/evm/src/backend.rs\<close>
  is not part of the module tree. Mocks and tests are not part of the program.
\<close>

section \<open>From the pallet to the RPC\<close>

text \<open>What the sync worker writes for a finalised block is the commitment of the block the pallet stored.\<close>

lemma sync_finalized_block:
  assumes "digest_api_ok D" "block_lib_ok L" "codec_ok C" "database_ok B"
    and "concat (map (logs_of D) (digest s)) = []" "eth_on_finalize L D A H K s = (Ok (), s')"
    and "repr C B db m" "sh_digest hdr = digest s'" "sync_block L D (backend_new C B) hdr db = (Ok (), db')"
  obtains blk where "cur_block s' = Some blk"
    "repr C B db' (m_write (block_commitment L (sh_hash hdr) (header_hash L (bk_header blk)) blk) m)"
proof -
  obtain blk where blk: "cur_block s' = Some blk"
      "map_ok (into_hashes L) (find_log D (digest s')) = Ok (from_block L blk)"
    using finalized_digest [OF assms(1,2) _ assms(6)] assms(5) by blast
  then obtain lg where lg: "find_log D (digest s') = Ok lg" "into_hashes L lg = from_block L blk"
    by (cases "find_log D (digest s')") auto
  have "write_hashes C B (block_commitment L (sh_hash hdr) (header_hash L (bk_header blk)) blk) db = (Ok (), db')"
    using assms(9) lg
    by (simp add: sync_block_def assms(8) act_bind_def act_lift_def Let_def backend_new_def from_block_def
        block_commitment_def)
  from that [OF blk(1) write_hashes_repr [OF assms(3,4,7) this]] show thesis .
qed

text \<open>
  C4: the way of a transaction through the node. Take any block built by \<open>on_initialize\<close> and a
  sequence of transactions on a header without Ethereum logs, finalised by the pallet, whose header
  the sync worker processed and whose state the client has. If the block is canonical and its
  transactions are new, then the RPC handler of a full node finds transaction \<open>i\<close> by its hash,
  in this block and with the status the pallet stored, sent by its recovered signer, and the receipt
  it answers for the hash is the one at position \<open>i\<close> of this block.
\<close>

theorem included_transaction_found:
  fixes s :: "('d, 'c) eth_state" and A :: "(('acct, 'h) evm_store, 'c) storage_api"
  assumes "digest_api_ok D" "block_lib_ok L" "codec_ok C" "database_ok B"
    and "block_reach L D R w s0 s" "concat (map (logs_of D) (digest s0)) = []"
    and "eth_on_finalize L D A H K s = (Ok (), s')"
    and "i < length (pending_txs s)" "pending_txs s ! i = (t, st, r)" "length (pending_txs s) < 2 ^ 32"
    and "distinct (map (transaction_hash L \<circ> fst) (pending_txs s))"
    and "repr C B db m" "sh_digest hdr = digest s'" "sync_block L D (backend_new C B) hdr db = (Ok (), db')"
    and "create_full L deps = Ok exts" "Ext_Eth E \<in> set exts"
    and "ea_backend (fd_handles deps) = backend_new C B" "ea_db (fd_handles deps) = db'"
    and "ea_runtime (fd_handles deps) = client_api A H cfg R' show_error state_at"
    and "state_at (Id_Hash (sh_hash hdr)) = Ok s'"
    and "v1_layout A (ea_raw (fd_handles deps)) (Id_Hash (sh_hash hdr)) s'"
    and "is_canon E (sh_hash hdr)" "m_transactions m (transaction_hash L t) = []"
    and "\<And>b x. cur_block s' = Some b \<Longrightarrow> x \<in> set (m_blocks m (header_hash L (bk_header b))) \<Longrightarrow> \<not> is_canon E x"
  shows "transaction_by_hash L E pending (transaction_hash L t) =
      Ok (Some (transaction_build L t (cur_block s') (Some st))) \<and>
    recover_signer L t = Some (st_from st) \<and> st_transaction_index st = word_of_nat i \<and>
    transaction_receipt L E (transaction_hash L t) = receipt_at L E (Id_Hash (sh_hash hdr)) i"
proof -
  let ?at = "Id_Hash (sh_hash hdr)"
  have pend: "pending_ok L (pending_txs s)" "digest s = digest s0"
    using block_reach_pending [OF assms(5)] by simp_all
  obtain blk where blk: "cur_block s' = Some blk" "cur_receipts s' = Some (map (snd \<circ> snd) (pending_txs s))"
      "cur_statuses s' = Some (map (fst \<circ> snd) (pending_txs s))" "bk_transactions blk = map fst (pending_txs s)"
    using finalized_state [OF assms(2,7)] by metis
  have synced: "repr C B db' (m_write (block_commitment L (sh_hash hdr) (header_hash L (bk_header blk)) blk) m)"
    using sync_finalized_block [OF assms(1-4) _ assms(7,12-14)] assms(6) pend(2) blk(1) by (metis option.inject)
  note E = create_full_eth [OF assms(15,16)]
  note reads = node_handler_reads [OF assms(15,16,19-21)]
  have fs: "map (\<lambda>(t, st, r). st) (pending_txs s) = map (fst \<circ> snd) (pending_txs s)"
    "map (\<lambda>(t, st, r). r) (pending_txs s) = map (snd \<circ> snd) (pending_txs s)"
    by (auto simp: split_beta)
  have holds: "holds_block E ?at blk (pending_txs s)"
    unfolding holds_block_def fs using reads blk by simp
  have d: "distinct (map (transaction_hash L) (bk_transactions blk))"
    using assms(11) by (simp add: blk(4))
  have db: "ea_backend E = backend_new C B" "ea_db E = db'" using E assms(17,18) by simp_all
  have "entry_ok L i (t, st, r)" using pend(1) assms(8,9) by (metis pending_ok_def)
  moreover have "transaction_by_hash L E pending (transaction_hash L t) =
      Ok (Some (transaction_build L t (Some blk) (Some st))) \<and>
    transaction_receipt L E (transaction_hash L t) = receipt_at L E ?at i"
    using synced_transaction_lookup [OF db(1) _ holds assms(9,8,10) d assms(23,22)] synced db(2) assms(24) [OF blk(1)]
    by blast
  ultimately show ?thesis using blk(1) by (simp add: entry_ok_def)
qed

section \<open>Witnesses\<close>

text \<open>A runner whose calls succeed and leave the store alone, and a block with one call it executed.\<close>

definition quiet_runner :: "sample_c runner" where
  "quiet_runner = \<lparr>
     runner_call = (\<lambda>_ _ _ _ _ _ _ c.
       (Ok \<lparr>ei_exit_reason = Succeed Stopped, ei_value = [], ei_used_gas = 5, ei_logs = []\<rparr>, c)),
     runner_create = (\<lambda>_ _ _ _ _ _ c.
       (Ok \<lparr>ei_exit_reason = Succeed Stopped, ei_value = 0, ei_used_gas = 5, ei_logs = []\<rparr>, c)),
     runner_create2 = (\<lambda>_ _ _ _ _ _ _ c.
       (Ok \<lparr>ei_exit_reason = Succeed Stopped, ei_value = 0, ei_used_gas = 5, ei_logs = []\<rparr>, c))\<rparr>"

lemma quiet_block:
  obtains s st r where "block_reach sample_eth sample_digest quiet_runner unit_gas_to_weight sample_eth_state s"
    "pending_txs s = [(sample_tx, st, r)]" "rc_used_gas r = 5" "evm s = (sample_store, [])" "digest s = []"
proof -
  have init: "eth_on_initialize sample_eth sample_digest quiet_runner unit_gas_to_weight sample_eth_state =
      (Ok 0, sample_eth_state)"
    by (simp add: eth_on_initialize_eq sample_eth_state_def find_pre_log_def)
  obtain i s where tr: "transact sample_eth sample_digest quiet_runner unit_gas_to_weight
      (NoneOrigin :: h256 raw_origin) sample_tx sample_eth_state = (Ok i, s)"
    and s: "\<exists>st r. pending_txs s = [(sample_tx, st, r)] \<and> rc_used_gas r = 5" "evm s = (sample_store, [])"
      "digest s = []"
    by (simp add: transact_def do_transact_def act_bind_def act_simps sample_eth_state_def
        find_pre_log_def recover_signer_def sample_tx_def sample_eth_def eth_execute_def on_evm_def
        question_def quiet_runner_def Let_def)
  have "block_reach sample_eth sample_digest quiet_runner unit_gas_to_weight sample_eth_state s"
    by (rule reach_transact [OF reach_init [OF init] tr]) simp
  with s that show thesis by blast
qed

text \<open>A raw storage that holds the block, the receipts and the statuses of a state without accounts.\<close>

definition block_raw :: "(log, sample_c) eth_state \<Rightarrow> raw_storage" where
  "block_raw s = \<lparr>
     rs_storage = (\<lambda>_ key. Ok (if key \<in> {ascii ''EthereumCurrentBlock'', receipts_key,
       ascii ''EthereumCurrentTransactionStatuses''} then Some [0] else None)),
     rs_twox_128 = (\<lambda>b. b), rs_blake2_128 = (\<lambda>_. []),
     rs_decode_bytes = (\<lambda>b. Some b), rs_decode_h256 = (\<lambda>b. Some (h256_from_slice b)),
     rs_decode_block = (\<lambda>_. cur_block s), rs_decode_receipts = (\<lambda>_. cur_receipts s),
     rs_decode_statuses = (\<lambda>_. cur_statuses s), rs_decode_schema = (\<lambda>_. Some Schema_V1)\<rparr>"

lemma block_raw_layout:
  assumes "cur_block s = Some b" "cur_receipts s = Some rs" "cur_statuses s = Some sts" "evm s = (sample_store, [])"
  shows "v1_layout sample_storage (block_raw s) at s"
  using assms
  by (simp add: v1_layout_def entry_def block_raw_def sample_storage_def sample_store_def storage_prefix_build_def
      blake2_128_extend_def receipts_key_def ascii_def)

text \<open>The dependencies of a node at a state and a mapping database.\<close>

definition node_deps ::
  "(log, sample_c) eth_state \<Rightarrow> 'db backend \<Rightarrow> 'db \<Rightarrow> ('db, unit, unit) full_deps" where
  "node_deps s S db = \<lparr>
     fd_handles = (sample_api S db)\<lparr>
       ea_runtime := client_api sample_storage sample_host sample_cfg (\<lambda>_. quiet_runner) (\<lambda>_. '''') (\<lambda>_. Ok s),
       ea_raw := block_raw s\<rparr>,
     fd_secp = signing_secp, fd_is_authority = True, fd_enable_dev_signer = False, fd_filter_pool = True,
     fd_command_sink = False, fd_show_key = (\<lambda>_. ''''), fd_show_limit = decimal\<rparr>"

theorem included_transaction_found_witness:
  "\<exists>(s' :: (log, sample_c) eth_state) st (E :: (u32 \<Rightarrow> bytes \<Rightarrow> bytes option) eth_api).
     cur_block s' \<noteq> None \<and>
     transaction_by_hash sample_eth E None (transaction_hash sample_eth sample_tx) =
       Ok (Some (transaction_build sample_eth sample_tx (cur_block s') (Some st)))"
proof -
  let ?S = "backend_new sample_codec sample_db" and ?db = "(\<lambda>_ _. None) :: u32 \<Rightarrow> bytes \<Rightarrow> bytes option"
  obtain s st r where s: "block_reach sample_eth sample_digest quiet_runner unit_gas_to_weight sample_eth_state s"
      "pending_txs s = [(sample_tx, st, r)]" "rc_used_gas r = 5" "evm s = (sample_store, [])" "digest s = []"
    by (rule quiet_block)
  have "gas_sum (map (snd \<circ> snd) (pending_txs s)) < 2 ^ 256" by (simp add: s gas_sum_def)
  from store_block_stored [OF sample_eth_ok(1) this]
  obtain s' where fin: "eth_on_finalize sample_eth sample_digest sample_storage sample_host sample_eth_cfg s = (Ok (), s')"
    unfolding eth_on_finalize_def by metis
  obtain blk where blk: "cur_block s' = Some blk" "cur_receipts s' = Some (map (snd \<circ> snd) (pending_txs s))"
      "cur_statuses s' = Some (map (fst \<circ> snd) (pending_txs s))" "evm s' = evm s"
    using finalized_state [OF sample_eth_ok(1) fin] by metis
  let ?hdr = "\<lparr>sh_hash = 7, sh_number = 3, sh_parent = 0, sh_digest = digest s'\<rparr>"
  obtain lg where lg: "find_log sample_digest (digest s') = Ok lg"
    using finalized_digest [OF sample_digest_ok sample_eth_ok(1) _ fin] s(5)
    by (cases "find_log sample_digest (digest s')") auto
  obtain db where sync: "sync_block sample_eth sample_digest ?S ?hdr ?db = (Ok (), db)"
    using write_hashes_commits [OF sample_repr]
    by (simp add: sync_block_def lg act_bind_def act_lift_def Let_def backend_new_def sample_db_def)
  let ?deps = "node_deps s' ?S db"
  let ?E = "(fd_handles ?deps)\<lparr>ea_signers := [], ea_overrides := [Schema_V1 \<mapsto> schema_v1_override (block_raw s')],
      ea_is_authority := True\<rparr>"
  obtain exts where e: "create_full sample_eth ?deps = Ok exts" "Ext_Eth ?E \<in> set exts"
    by (simp add: create_full_def dev_signers_def node_deps_def Let_def)
  have canon: "is_canon ?E (sh_hash ?hdr)" by (simp add: is_canon_def node_deps_def sample_api_def)
  have rt: "ea_runtime (fd_handles ?deps) = client_api sample_storage sample_host sample_cfg (\<lambda>_. quiet_runner)
      (\<lambda>_. '''') (\<lambda>_. Ok s')" "ea_backend (fd_handles ?deps) = ?S" "ea_db (fd_handles ?deps) = db"
    by (simp_all add: node_deps_def sample_api_def)
  have lay: "v1_layout sample_storage (ea_raw (fd_handles ?deps)) (Id_Hash (sh_hash ?hdr)) s'"
    using block_raw_layout [OF blk(1-3)] blk(4) s(4) by (simp add: node_deps_def)
  have "transaction_by_hash sample_eth ?E None (transaction_hash sample_eth sample_tx) =
      Ok (Some (transaction_build sample_eth sample_tx (cur_block s') (Some st)))"
    using included_transaction_found [where i = 0 and t = sample_tx and st = st and r = r and hdr = ?hdr
        and m = empty_mapping and pending = None,
        OF sample_digest_ok sample_eth_ok(1) sample_codec_ok sample_db_ok s(1) _ fin _ _ _ _ sample_repr _ sync e
        rt(2,3,1) _ lay canon]
    by (simp add: s sample_eth_state_def empty_mapping_def)
  then show ?thesis using blk(1) by blast
qed

end
